(* ===== verification/Prelude.thy ===== *)
theory Prelude
  imports Main "HOL-Library.Word" "HOL-Library.Multiset"
begin

text \<open>
  Shared ground of the development: the machine integers of the server (\<open>short\<close> and \<open>int\<close>
  as words), the outcome of running a piece of C++ (a value, a thrown exception, a thread that
  waits on a condition variable, \<open>std::terminate\<close>, undefined behaviour), the state-passing combinators
  every component is written with, the parts of the C and C++ standard library the sources
  call (\<open>std::to_string\<close>, \<open>std::stoi\<close>, \<open>atoi\<close>, C strings, \<open>memcpy\<close> into a buffer), and the
  generic lemmas on lists that the components share.
\<close>

section \<open>Machine integers and bytes\<close>

type_synonym int16 = "16 word"
type_synonym int32 = "32 word"

abbreviation i16 :: "int \<Rightarrow> int16" where
  "i16 \<equiv> word_of_int"

abbreviation i32 :: "int \<Rightarrow> int32" where
  "i32 \<equiv> word_of_int"

section \<open>Outcomes of C++ code\<close>

text \<open>
  Every exception the sources can meet derives from \<open>std::exception\<close>; a handler for
  \<open>sql::SQLException\<close> stops only \<open>SqlException\<close>.
\<close>

datatype exn =
    SqlException
  | JsonLogicError
  | StdInvalidArgument
  | StdOutOfRange
  | BadArrayNewLength
  | BoostSystemError
  | StdLengthError

datatype ('a, 's) outcome =
    Ret 'a 's
  | Throw exn 's
  | Blocked 's
  | Abort
  | Undef

type_synonym ('a, 's) m = "'s \<Rightarrow> ('a, 's) outcome"

named_theorems run_simps "equations that run the state-passing combinators"
named_theorems wp_rules "rules of the weakest-precondition calculus"

definition mret :: "'a \<Rightarrow> ('a, 's) m" where
  "mret a = (\<lambda>s. Ret a s)"

definition mthrow :: "exn \<Rightarrow> ('a, 's) m" where
  "mthrow e = (\<lambda>s. Throw e s)"

definition mabort :: "('a, 's) m" where
  "mabort = (\<lambda>s. Abort)"

definition mundef :: "('a, 's) m" where
  "mundef = (\<lambda>s. Undef)"

definition mbind :: "('a, 's) m \<Rightarrow> ('a \<Rightarrow> ('b, 's) m) \<Rightarrow> ('b, 's) m" where
  "mbind f g = (\<lambda>s. case f s of
      Ret a t \<Rightarrow> g a t
    | Throw e t \<Rightarrow> Throw e t
    | Blocked t \<Rightarrow> Blocked t
    | Abort \<Rightarrow> Abort
    | Undef \<Rightarrow> Undef)"

definition mseq :: "('a, 's) m \<Rightarrow> ('b, 's) m \<Rightarrow> ('b, 's) m" where
  "mseq f g = mbind f (\<lambda>_. g)"

definition mget :: "('s \<Rightarrow> 'a) \<Rightarrow> ('a, 's) m" where
  "mget f = (\<lambda>s. Ret (f s) s)"

definition mmodify :: "('s \<Rightarrow> 's) \<Rightarrow> (unit, 's) m" where
  "mmodify f = (\<lambda>s. Ret () (f s))"

definition mguard :: "bool \<Rightarrow> ('a, 's) m \<Rightarrow> ('a, 's) m" where
  "mguard b f = (if b then f else mundef)"

text \<open>A value of the library that may instead be a thrown exception.\<close>

definition mlift :: "exn \<Rightarrow> 'a option \<Rightarrow> ('a, 's) m" where
  "mlift e v = (case v of None \<Rightarrow> mthrow e | Some a \<Rightarrow> mret a)"

text \<open>\<open>try { f } catch (std::exception &e) { h }\<close> and \<open>catch (sql::SQLException &e)\<close>.\<close>

definition catch_std :: "('a, 's) m \<Rightarrow> (exn \<Rightarrow> ('a, 's) m) \<Rightarrow> ('a, 's) m" where
  "catch_std f h = (\<lambda>s. case f s of
      Ret a t \<Rightarrow> Ret a t
    | Throw e t \<Rightarrow> h e t
    | Blocked t \<Rightarrow> Blocked t
    | Abort \<Rightarrow> Abort
    | Undef \<Rightarrow> Undef)"

definition catch_sql :: "('a, 's) m \<Rightarrow> ('a, 's) m \<Rightarrow> ('a, 's) m" where
  "catch_sql f h = catch_std f (\<lambda>e. if e = SqlException then h else mthrow e)"

text \<open>A loop over the elements of a container that carries a value along.\<close>

fun mfold :: "('a \<Rightarrow> 'b \<Rightarrow> ('b, 's) m) \<Rightarrow> 'a list \<Rightarrow> 'b \<Rightarrow> ('b, 's) m" where
  "mfold f [] acc = mret acc"
| "mfold f (x # xs) acc = mbind (f x acc) (mfold f xs)"

text \<open>
  Running code of a component on a part of a larger state: \<open>g\<close> reads the part, \<open>p\<close> writes it
  back.
\<close>

fun map_state :: "('s \<Rightarrow> 't) \<Rightarrow> ('a, 's) outcome \<Rightarrow> ('a, 't) outcome" where
  "map_state f (Ret a s) = Ret a (f s)"
| "map_state f (Throw e s) = Throw e (f s)"
| "map_state f (Blocked s) = Blocked (f s)"
| "map_state f Abort = Abort"
| "map_state f Undef = Undef"

definition zoom :: "('w \<Rightarrow> 's) \<Rightarrow> ('s \<Rightarrow> 'w \<Rightarrow> 'w) \<Rightarrow> ('a, 's) m \<Rightarrow> ('a, 'w) m" where
  "zoom g p f = (\<lambda>w. map_state (\<lambda>s. p s w) (f (g w)))"

definition on_fst :: "('a, 's) m \<Rightarrow> ('a, 's \<times> 'x) m" where
  "on_fst f = (\<lambda>(s, x). map_state (\<lambda>t. (t, x)) (f s))"

definition on_snd :: "('a, 's) m \<Rightarrow> ('a, 'x \<times> 's) m" where
  "on_snd f = (\<lambda>(x, s). map_state (\<lambda>t. (x, t)) (f s))"

text \<open>A call out of the program: it changes the state of the outside world and answers.\<close>

definition ext_call :: "('x \<Rightarrow> 'a \<times> 'x) \<Rightarrow> ('a, 'p \<times> 'x) m" where
  "ext_call f = (\<lambda>(p, x). case f x of (a, y) \<Rightarrow> Ret a (p, y))"

subsection \<open>Running the combinators\<close>

lemma mret_run [run_simps]: "mret a s = Ret a s"
  by (simp add: mret_def)

lemma mthrow_run [run_simps]: "mthrow e s = Throw e s"
  by (simp add: mthrow_def)

lemma mabort_run [run_simps]: "mabort s = Abort"
  by (simp add: mabort_def)

lemma mundef_run [run_simps]: "mundef s = Undef"
  by (simp add: mundef_def)

lemma mget_run [run_simps]: "mget f s = Ret (f s) s"
  by (simp add: mget_def)

lemma mmodify_run [run_simps]: "mmodify f s = Ret () (f s)"
  by (simp add: mmodify_def)

lemma mguard_run [run_simps]: "mguard b f s = (if b then f s else Undef)"
  by (simp add: mguard_def mundef_def)

lemma mlift_run [run_simps]:
  "mlift e None s = Throw e s"
  "mlift e (Some a) s = Ret a s"
  by (simp_all add: mlift_def mthrow_def mret_def)

lemma mbind_run [run_simps]:
  "mbind f g s = (case f s of
      Ret a t \<Rightarrow> g a t
    | Throw e t \<Rightarrow> Throw e t
    | Blocked t \<Rightarrow> Blocked t
    | Abort \<Rightarrow> Abort
    | Undef \<Rightarrow> Undef)"
  by (simp add: mbind_def)

lemma mseq_run [run_simps]:
  "mseq f g s = (case f s of
      Ret a t \<Rightarrow> g t
    | Throw e t \<Rightarrow> Throw e t
    | Blocked t \<Rightarrow> Blocked t
    | Abort \<Rightarrow> Abort
    | Undef \<Rightarrow> Undef)"
  by (simp add: mseq_def mbind_def)

lemma catch_std_run [run_simps]:
  "catch_std f h s = (case f s of
      Ret a t \<Rightarrow> Ret a t
    | Throw e t \<Rightarrow> h e t
    | Blocked t \<Rightarrow> Blocked t
    | Abort \<Rightarrow> Abort
    | Undef \<Rightarrow> Undef)"
  by (simp add: catch_std_def)

lemma catch_sql_run [run_simps]:
  "catch_sql f h s = (case f s of
      Ret a t \<Rightarrow> Ret a t
    | Throw e t \<Rightarrow> (if e = SqlException then h t else Throw e t)
    | Blocked t \<Rightarrow> Blocked t
    | Abort \<Rightarrow> Abort
    | Undef \<Rightarrow> Undef)"
  by (simp add: catch_sql_def catch_std_def mthrow_def split: outcome.splits)

lemma zoom_run [run_simps]: "zoom g p f w = map_state (\<lambda>s. p s w) (f (g w))"
  by (simp add: zoom_def)

lemma on_fst_run [run_simps]: "on_fst f (s, x) = map_state (\<lambda>t. (t, x)) (f s)"
  by (simp add: on_fst_def)

lemma on_snd_run [run_simps]: "on_snd f (x, s) = map_state (\<lambda>t. (x, t)) (f s)"
  by (simp add: on_snd_def)

lemma ext_call_run [run_simps]:
  "ext_call f (p, x) = Ret (fst (f x)) (p, snd (f x))"
  by (simp add: ext_call_def split: prod.splits)

subsection \<open>Weakest preconditions\<close>

text \<open>
  \<open>wp f Q E s\<close>: whenever \<open>f\<close> comes back from \<open>s\<close>, a returned value and its state satisfy
  \<open>Q\<close>, and an exception's state satisfies \<open>E\<close>. It says nothing of a run that blocks, ends
  the process or is undefined; \<open>returns\<close> says that a run does come back with a value.
\<close>

definition wp :: "('a, 's) m \<Rightarrow> ('a \<Rightarrow> 's \<Rightarrow> bool) \<Rightarrow> (exn \<Rightarrow> 's \<Rightarrow> bool) \<Rightarrow> 's \<Rightarrow> bool" where
  "wp f Q E s = (case f s of
      Ret a t \<Rightarrow> Q a t
    | Throw e t \<Rightarrow> E e t
    | Blocked t \<Rightarrow> True
    | Abort \<Rightarrow> True
    | Undef \<Rightarrow> True)"

definition returns :: "('a, 's) outcome \<Rightarrow> bool" where
  "returns r = (case r of Ret _ _ \<Rightarrow> True | _ \<Rightarrow> False)"

definition defined :: "('a, 's) outcome \<Rightarrow> bool" where
  "defined r = (r \<noteq> Undef)"

lemma returns_simps [simp]:
  "returns (Ret a s)" "\<not> returns (Throw e s)" "\<not> returns (Blocked s)" "\<not> returns Abort"
  "\<not> returns Undef"
  by (simp_all add: returns_def)

lemma defined_simps [simp]:
  "defined (Ret a s)" "defined (Throw e s)" "defined (Blocked s)" "defined Abort"
  "\<not> defined Undef"
  by (simp_all add: defined_def)

lemma wp_mret [wp_rules]: "wp (mret a) Q E s = Q a s"
  by (simp add: wp_def mret_def)

lemma wp_mthrow [wp_rules]: "wp (mthrow e) Q E s = E e s"
  by (simp add: wp_def mthrow_def)

lemma wp_mundef [wp_rules]: "wp mundef Q E s"
  by (simp add: wp_def mundef_def)

lemma wp_mget [wp_rules]: "wp (mget f) Q E s = Q (f s) s"
  by (simp add: wp_def mget_def)

lemma wp_mmodify [wp_rules]: "wp (mmodify f) Q E s = Q () (f s)"
  by (simp add: wp_def mmodify_def)

lemma wp_mlift [wp_rules]:
  "wp (mlift e v) Q E s = (case v of None \<Rightarrow> E e s | Some a \<Rightarrow> Q a s)"
  by (simp add: wp_def mlift_def mthrow_def mret_def split: option.splits)

lemma wp_mbind [wp_rules]: "wp (mbind f g) Q E s = wp f (\<lambda>a. wp (g a) Q E) E s"
  by (simp add: wp_def mbind_def split: outcome.splits)

lemma wp_mseq [wp_rules]: "wp (mseq f g) Q E s = wp f (\<lambda>_. wp g Q E) E s"
  by (simp add: mseq_def wp_mbind)

lemma wp_catch_std [wp_rules]: "wp (catch_std f h) Q E s = wp f Q (\<lambda>e. wp (h e) Q E) s"
  by (simp add: wp_def catch_std_def split: outcome.splits)

lemma wp_catch_sql [wp_rules]:
  "wp (catch_sql f h) Q E s = wp f Q (\<lambda>e t. if e = SqlException then wp h Q E t else E e t) s"
  by (simp add: catch_sql_def wp_catch_std) (simp add: wp_def mthrow_def split: outcome.splits)

lemma wp_zoom [wp_rules]:
  "wp (zoom g p f) Q E w = wp f (\<lambda>a s. Q a (p s w)) (\<lambda>e s. E e (p s w)) (g w)"
  by (simp add: wp_def zoom_def split: outcome.splits)

lemma wp_on_fst [wp_rules]:
  "wp (on_fst f) Q E (s, x) = wp f (\<lambda>a t. Q a (t, x)) (\<lambda>e t. E e (t, x)) s"
  by (simp add: wp_def on_fst_def split: outcome.splits)

lemma wp_ext_call [wp_rules]:
  "wp (ext_call f) Q E (p, x) = Q (fst (f x)) (p, snd (f x))"
  by (simp add: wp_def ext_call_run)

lemma wp_weaken:
  "wp f Q E s \<Longrightarrow> (\<And>a t. Q a t \<Longrightarrow> Q' a t) \<Longrightarrow> (\<And>e t. E e t \<Longrightarrow> E' e t) \<Longrightarrow> wp f Q' E' s"
  by (auto simp: wp_def split: outcome.splits)

section \<open>The C and C++ standard library\<close>

subsection \<open>Numbers as decimal text\<close>

definition digit_char :: "nat \<Rightarrow> char" where
  "digit_char n = char_of (48 + n)"

definition is_digit :: "char \<Rightarrow> bool" where
  "is_digit c \<longleftrightarrow> (48::nat) \<le> of_char c \<and> of_char c \<le> (57::nat)"

definition is_space :: "char \<Rightarrow> bool" where
  "is_space c \<longleftrightarrow> of_char c = (32::nat) \<or> (9 \<le> (of_char c :: nat) \<and> of_char c \<le> (13::nat))"

fun show_nat :: "nat \<Rightarrow> string" where
  "show_nat n = (if n < 10 then [digit_char n] else show_nat (n div 10) @ [digit_char (n mod 10)])"

declare show_nat.simps [simp del]

definition show_int :: "int \<Rightarrow> string" where
  "show_int i = (if i < 0 then CHR ''-'' # show_nat (nat (- i)) else show_nat (nat i))"

definition to_string :: "int32 \<Rightarrow> string" where
  "to_string w = show_int (sint w)"

fun digits_value :: "nat \<Rightarrow> string \<Rightarrow> nat" where
  "digits_value acc [] = acc"
| "digits_value acc (c # cs) = digits_value (10 * acc + (of_char c - 48)) cs"

text \<open>The longest number at the front of a text, as \<open>strtol\<close> in base 10 reads it.\<close>

definition read_sign :: "string \<Rightarrow> bool \<times> string" where
  "read_sign s = (case s of
      [] \<Rightarrow> (False, [])
    | c # cs \<Rightarrow> if c = CHR ''-'' then (True, cs) else if c = CHR ''+'' then (False, cs) else (False, s))"

definition strtol :: "string \<Rightarrow> int option" where
  "strtol s =
    (let (neg, t) = read_sign (dropWhile is_space s); ds = takeWhile is_digit t
     in if ds = [] then None
        else Some (if neg then - int (digits_value 0 ds) else int (digits_value 0 ds)))"

definition int_in_range :: "int \<Rightarrow> bool" where
  "int_in_range i \<longleftrightarrow> - (2 ^ 31) \<le> i \<and> i < 2 ^ 31"

definition stoi :: "string \<Rightarrow> (int32, 's) m" where
  "stoi s = (case strtol s of
      None \<Rightarrow> mthrow StdInvalidArgument
    | Some i \<Rightarrow> if int_in_range i then mret (word_of_int i) else mthrow StdOutOfRange)"

text \<open>\<open>atoi\<close> answers 0 where there is no number and is undefined where the number does not fit.\<close>

definition atoi :: "string \<Rightarrow> (int32, 's) m" where
  "atoi s = (case strtol s of
      None \<Rightarrow> mret 0
    | Some i \<Rightarrow> if int_in_range i then mret (word_of_int i) else mundef)"

subsection \<open>C strings and raw buffers\<close>

definition cstr :: "string \<Rightarrow> string" where
  "cstr s = takeWhile (\<lambda>c. c \<noteq> CHR 0x00) s"

text \<open>\<open>memcpy(buf + off, src, length src)\<close>: \<open>None\<close> when the write leaves the buffer.\<close>

definition write_at :: "nat \<Rightarrow> string \<Rightarrow> string \<Rightarrow> string option" where
  "write_at off src buf =
    (if off + length src \<le> length buf
     then Some (take off buf @ src @ drop (off + length src) buf) else None)"

lemma write_at_length: "write_at off src buf = Some b \<Longrightarrow> length b = length buf"
  by (auto simp: write_at_def split: if_splits)

lemma write_at_Some:
  "off + length src \<le> length buf \<Longrightarrow>
    write_at off src buf = Some (take off buf @ src @ drop (off + length src) buf)"
  by (simp add: write_at_def)

lemma write_at_take:
  "write_at off src buf = Some b \<Longrightarrow> take (off + length src) b = take off buf @ src"
  by (auto simp: write_at_def split: if_splits)

subsection \<open>Facts of the decimal conversions\<close>

lemma of_char_digit_char: "n < 10 \<Longrightarrow> of_char (digit_char n) = (48 + n :: nat)"
  by (simp add: digit_char_def)

lemma is_digit_digit_char [simp]: "n < 10 \<Longrightarrow> is_digit (digit_char n)"
  by (simp add: is_digit_def of_char_digit_char)

lemma show_nat_digits: "list_all is_digit (show_nat n)"
proof (induction n rule: show_nat.induct)
  case (1 n)
  then show ?case by (subst show_nat.simps) simp
qed

lemma show_nat_nonempty [simp]: "show_nat n \<noteq> []"
  by (subst show_nat.simps) simp

lemma digits_value_append:
  "digits_value a (xs @ ys) = digits_value (digits_value a xs) ys"
  by (induction xs arbitrary: a) auto

lemma digits_value_show_nat: "digits_value 0 (show_nat n) = n"
proof (induction n rule: show_nat.induct)
  case (1 n)
  show ?case
  proof (cases "n < 10")
    case True
    then show ?thesis by (subst show_nat.simps) (simp add: of_char_digit_char)
  next
    case False
    with 1 show ?thesis
      by (subst show_nat.simps) (simp add: digits_value_append of_char_digit_char)
  qed
qed

lemma is_digit_not_space: "is_digit c \<Longrightarrow> \<not> is_space c"
  by (auto simp: is_digit_def is_space_def)

lemma is_digit_not_sign: "is_digit c \<Longrightarrow> c \<noteq> CHR ''-'' \<and> c \<noteq> CHR ''+''"
  by (auto simp: is_digit_def)

lemma takeWhile_all: "list_all P xs \<Longrightarrow> takeWhile P xs = xs"
  by (induction xs) auto

lemma strtol_show_nat: "strtol (show_nat n) = Some (int n)"
proof -
  obtain c cs where c: "show_nat n = c # cs" by (cases "show_nat n") auto
  with show_nat_digits [of n] have d: "is_digit c" by simp
  have "read_sign (dropWhile is_space (show_nat n)) = (False, show_nat n)"
    using d is_digit_not_space [OF d] is_digit_not_sign [OF d] by (simp add: c read_sign_def)
  then show ?thesis
    by (simp add: strtol_def takeWhile_all show_nat_digits digits_value_show_nat)
qed

lemma strtol_minus_show_nat: "strtol (CHR ''-'' # show_nat n) = Some (- int n)"
proof -
  have "\<not> is_space (CHR ''-'')" by (simp add: is_space_def)
  then show ?thesis
    by (simp add: strtol_def read_sign_def takeWhile_all show_nat_digits digits_value_show_nat)
qed

lemma strtol_show_int: "strtol (show_int i) = Some i"
  by (simp add: show_int_def strtol_show_nat strtol_minus_show_nat)

lemma sint_in_range: "int_in_range (sint (w :: int32))"
  using sint_range_size [of w] by (simp add: int_in_range_def word_size)

lemma stoi_to_string [simp]: "stoi (to_string w) = mret w"
  by (simp add: stoi_def to_string_def strtol_show_int sint_in_range)

lemma to_string_nonempty [simp]: "to_string w \<noteq> []"
  by (simp add: to_string_def show_int_def)

lemma cstr_show_nat: "cstr (show_nat n) = show_nat n"
proof -
  have "list_all (\<lambda>c. c \<noteq> CHR 0x00) (show_nat n)"
    using show_nat_digits [of n] by (rule list.pred_mono_strong) (auto simp: is_digit_def)
  then show ?thesis by (simp add: cstr_def takeWhile_all)
qed

lemma cstr_to_string [simp]: "cstr (to_string w) = to_string w"
  using cstr_show_nat by (simp add: to_string_def show_int_def cstr_def)

lemma to_string_inject: "to_string v = to_string w \<longleftrightarrow> v = w"
proof
  assume "to_string v = to_string w"
  then have "strtol (to_string v) = strtol (to_string w)" by simp
  then have "sint v = sint w" by (simp add: to_string_def strtol_show_int)
  then show "v = w" by (rule signed_word_eqI)
qed simp

section \<open>Lists used as queues\<close>

lemma mset_rotate1 [simp]: "mset (rotate1 xs) = mset xs"
  by (cases xs) auto

lemma cstr_idem [simp]: "cstr (cstr s) = cstr s"
  by (induction s) (auto simp: cstr_def dest: set_takeWhileD)

lemma cstr_append: "cstr a = a \<Longrightarrow> cstr (a @ b) = a @ cstr b"
  by (induction a) (auto simp: cstr_def split: if_splits)

end
