(* ===== verification/Utils.thy ===== *)
theory Utils
  imports Prelude
begin

text \<open>
  \<open>src/common/utils.cpp\<close>: the hexadecimal digits, URL encoding and decoding over byte strings,
  and the scope guard \<open>utils::Defer\<close>. A C++ \<open>unsigned char\<close> is an \<open>8 word\<close>; an element of a
  \<open>std::string\<close> is a \<open>char\<close>, which is one byte.
\<close>

section \<open>Hexadecimal digits\<close>

unbundle bit_operations_syntax

type_synonym byte = "8 word"

abbreviation uchar :: "char \<Rightarrow> byte" where
  "uchar c \<equiv> of_char c"

definition toHex :: "byte \<Rightarrow> byte" where
  "toHex x = (if x > 9 then x + 55 else x + 48)"

definition fromHex :: "byte \<Rightarrow> byte" where
  "fromHex x =
    (if uchar (CHR ''A'') \<le> x \<and> x \<le> uchar (CHR ''Z'') then x - uchar (CHR ''A'') + 10
     else if uchar (CHR ''a'') \<le> x \<and> x \<le> uchar (CHR ''z'') then x - uchar (CHR ''a'') + 10
     else if uchar (CHR ''0'') \<le> x \<and> x \<le> uchar (CHR ''9'') then x - uchar (CHR ''0'')
     else 0)"

text \<open>\<open>std::isalnum\<close> in the C locale.\<close>

definition is_alnum :: "char \<Rightarrow> bool" where
  "is_alnum c \<longleftrightarrow>
    (uchar (CHR ''0'') \<le> uchar c \<and> uchar c \<le> uchar (CHR ''9'')) \<or>
    (uchar (CHR ''A'') \<le> uchar c \<and> uchar c \<le> uchar (CHR ''Z'')) \<or>
    (uchar (CHR ''a'') \<le> uchar c \<and> uchar c \<le> uchar (CHR ''z''))"

definition is_unreserved :: "char \<Rightarrow> bool" where
  "is_unreserved c \<longleftrightarrow>
    is_alnum c \<or> c = CHR ''-'' \<or> c = CHR ''_'' \<or> c = CHR ''.'' \<or> c = CHR ''~''"

section \<open>URL encoding\<close>

definition byte_char :: "byte \<Rightarrow> char" where
  "byte_char b = char_of (unat b)"

fun urlEncode :: "string \<Rightarrow> string" where
  "urlEncode [] = []"
| "urlEncode (c # cs) =
    (if is_unreserved c then [c]
     else if c = CHR '' '' then ''%20''
     else [CHR ''%'', byte_char (toHex (drop_bit 4 (uchar c))), byte_char (toHex (uchar c AND 0x0F))])
    @ urlEncode cs"

text \<open>
  The loop over the indices of \<open>str\<close>: \<open>i + 2 < length\<close> says that two more characters follow.
\<close>

fun urlDecode :: "string \<Rightarrow> string" where
  "urlDecode [] = []"
| "urlDecode (c # cs) =
    (if c = CHR ''+'' then CHR '' '' # urlDecode cs
     else case cs of
         h # l # rest \<Rightarrow>
           (if c = CHR ''%''
            then byte_char (push_bit 4 (fromHex (uchar h)) OR fromHex (uchar l)) # urlDecode rest
            else c # urlDecode cs)
       | _ \<Rightarrow> c # urlDecode cs)"

section \<open>The scope guard Defer\<close>

text \<open>
  The destructor runs the stored function when control leaves the scope, on a return and on an
  exception alike. A destructor is implicitly \<open>noexcept\<close>: an exception that leaves the stored
  function ends the process.
\<close>

definition Defer :: "(unit, 's) m \<Rightarrow> ('a, 's) m \<Rightarrow> ('a, 's) m" where
  "Defer fn body = (\<lambda>s. case body s of
      Ret a t \<Rightarrow> (case fn t of
          Ret _ u \<Rightarrow> Ret a u
        | Throw e u \<Rightarrow> Abort
        | Blocked u \<Rightarrow> Blocked u
        | Abort \<Rightarrow> Abort
        | Undef \<Rightarrow> Undef)
    | Throw e t \<Rightarrow> (case fn t of
          Ret _ u \<Rightarrow> Throw e u
        | Throw e' u \<Rightarrow> Abort
        | Blocked u \<Rightarrow> Blocked u
        | Abort \<Rightarrow> Abort
        | Undef \<Rightarrow> Undef)
    | Blocked t \<Rightarrow> Blocked t
    | Abort \<Rightarrow> Abort
    | Undef \<Rightarrow> Undef)"

lemma Defer_run [run_simps]:
  "Defer fn body s = (case body s of
      Ret a t \<Rightarrow> (case fn t of
          Ret _ u \<Rightarrow> Ret a u
        | Throw e u \<Rightarrow> Abort
        | Blocked u \<Rightarrow> Blocked u
        | Abort \<Rightarrow> Abort
        | Undef \<Rightarrow> Undef)
    | Throw e t \<Rightarrow> (case fn t of
          Ret _ u \<Rightarrow> Throw e u
        | Throw e' u \<Rightarrow> Abort
        | Blocked u \<Rightarrow> Blocked u
        | Abort \<Rightarrow> Abort
        | Undef \<Rightarrow> Undef)
    | Blocked t \<Rightarrow> Blocked t
    | Abort \<Rightarrow> Abort
    | Undef \<Rightarrow> Undef)"
  by (simp add: Defer_def)

lemma wp_Defer [wp_rules]:
  "wp (Defer fn body) Q E s =
     wp body (\<lambda>a. wp fn (\<lambda>_. Q a) (\<lambda>_ _. True)) (\<lambda>e. wp fn (\<lambda>_. E e) (\<lambda>_ _. True)) s"
  by (simp add: wp_def Defer_def split: outcome.splits)

section \<open>Round trip of the URL coding\<close>

lemma uchar_nat: "uchar c = of_nat (of_char c)" by (simp only: of_nat_of_char)

lemma char32: "char_of (32::nat) = CHR '' ''" 
proof -
  have "char_of (of_char (CHR '' '') :: nat) = CHR '' ''" by (rule char_of_char)
  then show ?thesis by simp
qed

lemma unat_uchar: "unat (uchar c) = of_char c"
proof -
  have "(of_char c :: nat) < 256" by simp
  then show ?thesis
    by (simp only: uchar_nat unat_of_nat) simp
qed

lemma uchar_byte_char [simp]: "uchar (byte_char b) = b"
proof -
  have "unat b < 256" using unsigned_less [of b, where 'a = nat] by simp
  then have "of_nat (of_char (char_of (unat b)) :: nat) = b" by (simp del: of_nat_of_char)
  then show ?thesis by (simp only: byte_char_def uchar_nat)
qed

lemma byte_char_uchar [simp]: "byte_char (uchar c) = c"
  by (simp add: byte_char_def unat_uchar)

lemma nibble_cases:
  fixes n :: byte
  assumes "n < 16"
  shows "\<exists>k < 16. n = of_nat k"
  using assms by (intro exI [of _ "unat n"]) (simp add: word_less_nat_alt)

lemma small16: "k < 16 \<Longrightarrow> k = 0 \<or> k = 1 \<or> k = 2 \<or> k = 3 \<or> k = 4 \<or> k = 5 \<or> k = 6 \<or> k = 7 \<or> k = 8 \<or> k = 9
  \<or> k = 10 \<or> k = 11 \<or> k = 12 \<or> k = 13 \<or> k = 14 \<or> k = (15::nat)" by arith

lemma fromHex_toHex: "n < 16 \<Longrightarrow> fromHex (toHex n) = n"
  by (drule nibble_cases, clarify, drule small16)
    (elim disjE; hypsubst; simp add: fromHex_def toHex_def)

lemma nibble_bounds:
  fixes x :: byte
  shows "drop_bit 4 x < 16" "x AND 0x0F < 16"
proof -
  have "unat x < 256" using unsigned_less [of x, where 'a = nat] by simp
  then have "unat (drop_bit 4 x) < 16" by (simp add: drop_bit_eq_div unat_div)
  then show "drop_bit 4 x < 16" by (simp add: word_less_nat_alt)
  have "x AND 0x0F \<le> 0x0F" by (rule word_and_le1)
  then show "x AND 0x0F < 16" by (simp add: word_le_nat_alt word_less_nat_alt)
qed

lemma nibbles_join:
  fixes x :: byte
  shows "push_bit 4 (drop_bit 4 x) OR (x AND 0x0F) = x"
proof -
  have "x AND 0x0F = take_bit 4 x" by (simp add: take_bit_eq_mask mask_eq_exp_minus_1)
  then show ?thesis
    by (simp only:) (rule bit_word_eqI, auto simp: bit_push_bit_iff bit_drop_bit_eq bit_or_iff bit_take_bit_iff)
qed

lemma unreserved_plain: "is_unreserved c \<Longrightarrow> c \<noteq> CHR ''%'' \<and> c \<noteq> CHR ''+''"
  by (auto simp: is_unreserved_def is_alnum_def)

lemma urlDecode_plain:
  "c \<noteq> CHR ''%'' \<Longrightarrow> c \<noteq> CHR ''+'' \<Longrightarrow> urlDecode (c # cs) = c # urlDecode cs"
  by (auto split: list.splits)

lemma urlDecode_escape:
  "urlDecode (CHR ''%'' # byte_char (toHex (drop_bit 4 (uchar c)))
      # byte_char (toHex (uchar c AND 0x0F)) # cs) = c # urlDecode cs"
  by (simp add: fromHex_toHex nibble_bounds nibbles_join)

lemma urlDecode_space: "urlDecode (CHR ''%'' # CHR ''2'' # CHR ''0'' # cs) = CHR '' '' # urlDecode cs"
  by (simp add: fromHex_def byte_char_def char32)

text \<open>C40. Decoding an encoded byte string gives the string back, for every byte string.\<close>

theorem urlDecode_urlEncode: "urlDecode (urlEncode s) = s"
proof (induction s)
  case Nil
  then show ?case by simp
next
  case (Cons c cs)
  then show ?case
    using unreserved_plain [of c] urlDecode_plain [of c "urlEncode cs"]
      urlDecode_escape [of c "urlEncode cs"] urlDecode_space [of "urlEncode cs"]
    by (auto simp del: urlDecode.simps)
qed

definition url_safe :: "char \<Rightarrow> bool" where
  "url_safe c \<longleftrightarrow> is_unreserved c \<or> c = CHR ''%''"

lemma toHex_alnum: "n < 16 \<Longrightarrow> is_alnum (byte_char (toHex n))"
  by (drule nibble_cases, clarify, drule small16)
    (elim disjE; hypsubst; simp add: is_alnum_def toHex_def)

text \<open>Every character of an encoded text is unreserved or the escape character.\<close>

theorem urlEncode_safe: "list_all url_safe (urlEncode s)"
proof (induction s)
  case Nil
  then show ?case by simp
next
  case (Cons c cs)
  have "url_safe (byte_char (toHex (drop_bit 4 (uchar c))))"
    and "url_safe (byte_char (toHex (uchar c AND 0x0F)))"
    by (simp_all add: url_safe_def is_unreserved_def toHex_alnum nibble_bounds)
  with Cons show ?case
    by (auto simp: url_safe_def is_unreserved_def is_alnum_def)
qed

end
