(* ===== verification/ConnPool.thy ===== *)
theory ConnPool
  imports Utils
begin

text \<open>
  The contract shared by the four connection pools of the server (Redis, MySQL and the two RPC
  pools): a queue of idle connections and a stop flag; taking a connection waits while the
  queue is empty, gives nothing once the pool is stopped, and otherwise takes the front;
  giving one back appends it unless the pool is stopped. The clients' way of using a pool, a
  connection borrowed for one scope, is proved once against the contract.
\<close>

section \<open>Notifications\<close>

text \<open>
  What a section under a pool's mutex does to the condition variable the callers of
  \<open>getConnection\<close> wait on. The threads that wait are in the theory PoolThreads.
\<close>

datatype notice = WakeNone | WakeOne | WakeAll

section \<open>Borrowing a connection for a scope\<close>

text \<open>
  \<open>auto con = pool.getConnection(); if (con == nullptr) return none; Defer back(...); body\<close>
\<close>

definition with_conn ::
  "('c option, 'p) m \<Rightarrow> ('c \<Rightarrow> (unit, 'p) m) \<Rightarrow> ('a, 'p \<times> 'x) m \<Rightarrow>
   ('c \<Rightarrow> ('a, 'p \<times> 'x) m) \<Rightarrow> ('a, 'p \<times> 'x) m" where
  "with_conn acquire release none body =
    mbind (on_fst acquire) (\<lambda>oc. case oc of
        None \<Rightarrow> none
      | Some c \<Rightarrow> Defer (on_fst (release c)) (body c))"

section \<open>Code that leaves the pool alone\<close>

text \<open>
  \<open>pool_quiet f\<close>: \<open>f\<close> returns and leaves the pool as it is; \<open>pool_neutral f\<close>: it may instead
  throw a \<open>sql::SQLException\<close>, the pool untouched.
\<close>

definition pool_quiet :: "('a, 'p \<times> 'x) m \<Rightarrow> bool" where
  "pool_quiet f \<longleftrightarrow> (\<forall>p x. \<exists>a y. f (p, x) = Ret a (p, y))"

definition pool_neutral :: "('a, 'p \<times> 'x) m \<Rightarrow> bool" where
  "pool_neutral f \<longleftrightarrow>
    (\<forall>p x. (\<exists>a y. f (p, x) = Ret a (p, y)) \<or> (\<exists>y. f (p, x) = Throw SqlException (p, y)))"

named_theorems quiet "rules for pool_quiet and pool_neutral"

lemma quiet_neutral: "pool_quiet f \<Longrightarrow> pool_neutral f"
  by (auto simp: pool_quiet_def pool_neutral_def)

lemma quiet_mret [quiet]: "pool_quiet (mret a)"
  by (simp add: pool_quiet_def run_simps)

lemma quiet_ext_call [quiet]: "pool_quiet (ext_call f)"
  by (simp add: pool_quiet_def run_simps)

lemma neutral_mret [quiet]: "pool_neutral (mret a)"
  by (rule quiet_neutral) (rule quiet_mret)

lemma neutral_ext_call [quiet]: "pool_neutral (ext_call f)"
  by (rule quiet_neutral) (rule quiet_ext_call)

lemma neutral_mlift [quiet]: "pool_neutral (mlift SqlException v)"
  by (cases v) (simp_all add: pool_neutral_def run_simps)

lemma neutral_cases:
  assumes "pool_neutral f"
  obtains (ret) a y where "f (p, x) = Ret a (p, y)"
  | (sql) y where "f (p, x) = Throw SqlException (p, y)"
  using assms unfolding pool_neutral_def by blast

lemma quiet_cases:
  assumes "pool_quiet f"
  obtains a y where "f (p, x) = Ret a (p, y)"
  using assms unfolding pool_quiet_def by blast

lemma neutral_mbind [quiet]:
  assumes "pool_neutral f" and "\<And>a. pool_neutral (g a)"
  shows "pool_neutral (mbind f g)"
  unfolding pool_neutral_def
proof (intro allI)
  fix p x
  show "(\<exists>a y. mbind f g (p, x) = Ret a (p, y)) \<or> (\<exists>y. mbind f g (p, x) = Throw SqlException (p, y))"
  proof (cases rule: neutral_cases [OF assms(1), of p x])
    case (1 a y)
    then show ?thesis by (cases rule: neutral_cases [OF assms(2), of a p y]) (simp_all add: run_simps)
  next
    case (2 y)
    then show ?thesis by (simp add: run_simps)
  qed
qed

lemma quiet_mbind [quiet]:
  assumes "pool_quiet f" and "\<And>a. pool_quiet (g a)"
  shows "pool_quiet (mbind f g)"
  unfolding pool_quiet_def
proof (intro allI)
  fix p x
  obtain a y where f: "f (p, x) = Ret a (p, y)" by (rule quiet_cases [OF assms(1), of p x])
  obtain b z where "g a (p, y) = Ret b (p, z)" by (rule quiet_cases [OF assms(2), of a p y])
  with f show "\<exists>a y. mbind f g (p, x) = Ret a (p, y)" by (simp add: run_simps)
qed

lemma quiet_catch_sql [quiet]:
  assumes "pool_neutral f" and "pool_quiet h"
  shows "pool_quiet (catch_sql f h)"
  unfolding pool_quiet_def
proof (intro allI)
  fix p x
  show "\<exists>a y. catch_sql f h (p, x) = Ret a (p, y)"
  proof (cases rule: neutral_cases [OF assms(1), of p x])
    case (1 a y)
    then show ?thesis by (simp add: run_simps)
  next
    case (2 y)
    then show ?thesis by (rule_tac quiet_cases [OF assms(2), of p y]) (simp add: run_simps)
  qed
qed

section \<open>The contract\<close>

locale conn_pool =
  fixes avail :: "'p \<Rightarrow> 'c list"
    and stopped :: "'p \<Rightarrow> bool"
    and acquire :: "('c option, 'p) m"
    and release :: "'c \<Rightarrow> (unit, 'p) m"
  assumes acquire_stopped: "stopped p \<Longrightarrow> acquire p = Ret None p"
    and acquire_empty: "\<not> stopped p \<Longrightarrow> avail p = [] \<Longrightarrow> acquire p = Blocked p"
    and acquire_idle: "\<not> stopped p \<Longrightarrow> avail p = c # cs \<Longrightarrow>
          \<exists>q. acquire p = Ret (Some c) q \<and> avail q = cs \<and> \<not> stopped q"
    and release_stopped: "stopped p \<Longrightarrow> release c p = Ret () p"
    and release_open: "\<not> stopped p \<Longrightarrow>
          \<exists>q. release c p = Ret () q \<and> avail q = avail p @ [c] \<and> \<not> stopped q"
begin

lemma acquire_cases:
  obtains (stopped) "stopped p" "acquire p = Ret None p"
  | (empty) "\<not> stopped p" "avail p = []" "acquire p = Blocked p"
  | (idle) c cs q where "\<not> stopped p" "avail p = c # cs" "acquire p = Ret (Some c) q"
      "avail q = cs" "\<not> stopped q"
  using acquire_stopped acquire_empty acquire_idle by (cases "avail p") blast+

lemma acquire_defined: "defined (acquire p)"
  by (cases rule: acquire_cases [of p]) simp_all

text \<open>Taking and giving back at once moves the front connection to the end.\<close>

lemma acquire_release:
  assumes "\<not> stopped p" and "avail p \<noteq> []"
  shows "\<exists>c q r. acquire p = Ret (Some c) q \<and> release c q = Ret () r \<and>
    avail r = rotate1 (avail p) \<and> \<not> stopped r"
proof -
  from assms(2) obtain c cs where c: "avail p = c # cs" by (cases "avail p") auto
  from acquire_idle [OF assms(1) c] obtain q
    where q: "acquire p = Ret (Some c) q" "avail q = cs" "\<not> stopped q" by blast
  from release_open [OF q(3), of c] obtain r
    where "release c q = Ret () r" "avail r = avail q @ [c]" "\<not> stopped r" by blast
  with q c show ?thesis by auto
qed

text \<open>A body that leaves the pool as it finds it keeps every connection of the pool.\<close>

lemma with_conn_returns:
  assumes idle: "\<not> stopped p" "avail p \<noteq> []"
    and body: "\<And>c q. \<not> stopped q \<Longrightarrow> avail q = tl (avail p) \<Longrightarrow>
      wp (body c) (\<lambda>a (r, _). P a \<and> \<not> stopped r \<and> mset (avail r) = mset (avail q))
        (\<lambda>e (r, _). \<not> stopped r \<and> mset (avail r) = mset (avail q)) (q, x)"
  shows "wp (with_conn acquire release none body)
    (\<lambda>a (r, _). P a \<and> \<not> stopped r \<and> mset (avail r) = mset (avail p))
    (\<lambda>e (r, _). \<not> stopped r \<and> mset (avail r) = mset (avail p)) (p, x)"
proof -
  from idle(2) obtain c cs where c: "avail p = c # cs" by (cases "avail p") auto
  from acquire_idle [OF idle(1) c] obtain q
    where q: "acquire p = Ret (Some c) q" "avail q = cs" "\<not> stopped q" by blast
  have giveback: "wp (on_fst (release c))
      (\<lambda>_ (r', _). R \<and> \<not> stopped r' \<and> mset (avail r') = mset (avail p)) (\<lambda>_ _. True) (r, y)"
    if "R" "\<not> stopped r" "mset (avail r) = mset (avail q)" for R r and y :: 'd
  proof -
    from release_open [OF that(2), of c] obtain r'
      where "release c r = Ret () r'" "avail r' = avail r @ [c]" "\<not> stopped r'" by blast
    with that c q show ?thesis by (simp add: wp_def run_simps)
  qed
  have "wp (Defer (on_fst (release c)) (body c))
      (\<lambda>a (r, _). P a \<and> \<not> stopped r \<and> mset (avail r) = mset (avail p))
      (\<lambda>e (r, _). \<not> stopped r \<and> mset (avail r) = mset (avail p)) (q, x)"
    unfolding wp_Defer
    by (rule wp_weaken [OF body]) (use q c giveback [of True] giveback in \<open>auto split: prod.splits\<close>)
  then show ?thesis
    by (simp add: with_conn_def wp_mbind) (simp add: wp_def run_simps q(1))
qed

lemma with_conn_quiet:
  assumes "\<not> stopped p" and "avail p = c # cs" and "pool_quiet (body c)"
  shows "\<exists>a r y. with_conn acquire release none body (p, x) = Ret a (r, y) \<and>
    avail r = cs @ [c] \<and> \<not> stopped r"
proof -
  from acquire_idle [OF assms(1,2)] obtain q
    where q: "acquire p = Ret (Some c) q" "avail q = cs" "\<not> stopped q" by blast
  from assms(3) obtain a y where b: "body c (q, x) = Ret a (q, y)"
    by (rule quiet_cases)
  from release_open [OF q(3), of c] obtain r
    where "release c q = Ret () r" "avail r = avail q @ [c]" "\<not> stopped r" by blast
  with q b show ?thesis by (simp add: with_conn_def run_simps)
qed

lemma with_conn_stopped:
  "stopped p \<Longrightarrow> with_conn acquire release none body (p, x) = none (p, x)"
  by (simp add: with_conn_def run_simps acquire_stopped)

lemma with_conn_empty:
  "\<not> stopped p \<Longrightarrow> avail p = [] \<Longrightarrow> with_conn acquire release none body (p, x) = Blocked (p, x)"
  by (simp add: with_conn_def run_simps acquire_empty)

lemma with_conn_idle:
  assumes "\<not> stopped p" and "avail p = c # cs"
  shows "\<exists>q. acquire p = Ret (Some c) q \<and> avail q = cs \<and> \<not> stopped q \<and>
    with_conn acquire release none body (p, x) = Defer (on_fst (release c)) (body c) (q, x)"
  using acquire_idle [OF assms] by (auto simp: with_conn_def run_simps)

end

end
