(* ===== verification/RedisConPool.thy ===== *)
theory RedisConPool
  imports ConnPool
begin

text \<open>
  \<open>src/infra/redis/RedisConPool.cpp\<close>: the pool of Redis connections and its health check. The
  Redis server and the hiredis library are outside: the record \<open>redis_api\<close> holds the two calls
  the sources make, over an opaque state \<open>'x\<close> of the outside world. A connection is known by
  its handle. Every operation runs under the pool's mutex and is one atomic step here; which
  interleavings of them are possible is the subject of the theory PoolThreads.
\<close>

section \<open>hiredis\<close>

text \<open>A command with its format string and C-string arguments, or with counted arguments.\<close>

datatype redis_call =
    RedisCommand string "string list"
  | RedisCommandArgv "string list"

datatype redis_reply =
    RString string
  | RStatus string
  | RInteger int
  | RNil
  | RError string
  | RArray

text \<open>The member \<open>str\<close> of a reply; \<open>None\<close> is a null pointer.\<close>

fun reply_str :: "redis_reply \<Rightarrow> string option" where
  "reply_str (RString s) = Some s"
| "reply_str (RStatus s) = Some s"
| "reply_str (RError s) = Some s"
| "reply_str _ = None"

fun is_error :: "redis_reply \<Rightarrow> bool" where
  "is_error (RError _) = True"
| "is_error _ = False"

text \<open>
  \<open>r_connect host port\<close>: no context, or a context with its \<open>err\<close> member set or clear.
  \<open>r_command ctx call\<close>: the reply (\<open>None\<close> is a null reply) and the context's \<open>err\<close> afterwards.
\<close>

record 'x redis_api =
  r_connect :: "string \<Rightarrow> int32 \<Rightarrow> 'x \<Rightarrow> (nat \<times> bool) option \<times> 'x"
  r_command :: "nat \<Rightarrow> redis_call \<Rightarrow> 'x \<Rightarrow> (redis_reply option \<times> bool) \<times> 'x"

section \<open>The pool\<close>

text \<open>
  \<open>rp_in_check\<close> tells where the check thread is, as another thread finds it: inside a health check
  that will take the mutex once more before it ends. How it gets there is in PoolThreads.
\<close>

record redis_pool =
  rp_stop :: bool
  rp_size :: nat
  rp_host :: string
  rp_pwd :: string
  rp_port :: int32
  rp_conns :: "nat list"
  rp_fail :: int
  rp_counter :: int
  rp_in_check :: bool

text \<open>
  The constructor's loop. A null reply to AUTH is printed through its null pointer.
\<close>

fun connect_loop ::
  "'x redis_api \<Rightarrow> string \<Rightarrow> int32 \<Rightarrow> string \<Rightarrow> nat \<Rightarrow> nat list \<Rightarrow> (nat list, 'x) m" where
  "connect_loop R host port pwd 0 conns x = Ret conns x"
| "connect_loop R host port pwd (Suc n) conns x =
    (case r_connect R host port x of
       (None, x1) \<Rightarrow> connect_loop R host port pwd n conns x1
     | (Some (ctx, err), x1) \<Rightarrow>
         if err then connect_loop R host port pwd n conns x1
         else (case r_command R ctx (RedisCommand ''AUTH %s'' [pwd]) x1 of
             ((None, _), x2) \<Rightarrow> Undef
           | ((Some reply, _), x2) \<Rightarrow>
               if is_error reply then connect_loop R host port pwd n conns x2
               else connect_loop R host port pwd n (conns @ [ctx]) x2))"

definition RedisConPool_new ::
  "'x redis_api \<Rightarrow> nat \<Rightarrow> string \<Rightarrow> int32 \<Rightarrow> string \<Rightarrow> (redis_pool, 'x) m" where
  "RedisConPool_new R poolSize host port pwd =
    mbind (connect_loop R host port pwd poolSize []) (\<lambda>conns.
      mret \<lparr>rp_stop = False, rp_size = poolSize, rp_host = host, rp_pwd = pwd, rp_port = port,
            rp_conns = conns, rp_fail = 0, rp_counter = 0, rp_in_check = False\<rparr>)"

definition rp_clearConnections :: "(unit, redis_pool) m" where
  "rp_clearConnections = mmodify (\<lambda>p. p\<lparr>rp_conns := []\<rparr>)"

definition rp_getConnection :: "(nat option, redis_pool) m" where
  "rp_getConnection = (\<lambda>p.
    if rp_stop p then Ret None p
    else case rp_conns p of
        [] \<Rightarrow> Blocked p
      | context # rest \<Rightarrow> Ret (Some context) (p\<lparr>rp_conns := rest\<rparr>))"

definition rp_getConNonBlock :: "(nat option, redis_pool) m" where
  "rp_getConNonBlock = (\<lambda>p.
    if rp_stop p then Ret None p
    else case rp_conns p of
        [] \<Rightarrow> Ret None p
      | context # rest \<Rightarrow> Ret (Some context) (p\<lparr>rp_conns := rest\<rparr>))"

text \<open>The sections under the mutex that change the queue or the flag, with their notification.\<close>

definition rp_return_section :: "nat \<Rightarrow> redis_pool \<Rightarrow> redis_pool \<times> notice" where
  "rp_return_section context p =
    (if rp_stop p then (p, WakeNone) else (p\<lparr>rp_conns := rp_conns p @ [context]\<rparr>, WakeOne))"

definition rp_returnConnection :: "nat \<Rightarrow> (unit, redis_pool) m" where
  "rp_returnConnection context = (\<lambda>p. Ret () (fst (rp_return_section context p)))"

definition rp_stop_section :: "redis_pool \<Rightarrow> redis_pool \<times> notice" where
  "rp_stop_section p = (p\<lparr>rp_stop := True\<rparr>, WakeAll)"

definition rp_push_section :: "nat \<Rightarrow> redis_pool \<Rightarrow> redis_pool \<times> notice" where
  "rp_push_section context p = (p\<lparr>rp_conns := rp_conns p @ [context]\<rparr>, WakeNone)"

lemma rp_returnConnection_run:
  "rp_returnConnection context p =
    (if rp_stop p then Ret () p else Ret () (p\<lparr>rp_conns := rp_conns p @ [context]\<rparr>))"
  by (simp add: rp_returnConnection_def rp_return_section_def)

text \<open>
  \<open>close\<close> joins the check thread while it holds the mutex: it does not return when that thread
  still needs the mutex.
\<close>

definition rp_close :: "(unit, redis_pool) m" where
  "rp_close = (\<lambda>p. if rp_in_check p then Blocked (fst (rp_stop_section p)) else Ret () (fst (rp_stop_section p)))"

definition rp_destroy :: "(unit, redis_pool) m" where
  "rp_destroy = mseq rp_close rp_clearConnections"

definition rp_reconnect :: "'x redis_api \<Rightarrow> (bool, redis_pool \<times> 'x) m" where
  "rp_reconnect R = (\<lambda>(p, x).
    case r_connect R (cstr (rp_host p)) (rp_port p) x of
      (None, x1) \<Rightarrow> Ret False (p, x1)
    | (Some (ctx, err), x1) \<Rightarrow>
        if err then Ret False (p, x1)
        else (case r_command R ctx (RedisCommand ''AUTH %s'' [cstr (rp_pwd p)]) x1 of
            ((None, _), x2) \<Rightarrow> Ret False (p, x2)
          | ((Some reply, _), x2) \<Rightarrow>
              if is_error reply then Ret False (p, x2)
              else Ret True (fst (rp_push_section ctx p), x2)))"

text \<open>
  The health check pings as many connections as were idle at its start; a connection that does
  not answer is freed and counted. \<open>n\<close> is the number of rounds left.
\<close>

definition rp_ping :: "'x redis_api \<Rightarrow> nat \<Rightarrow> (bool, redis_pool \<times> 'x) m" where
  "rp_ping R context = (\<lambda>(p, x).
    case r_command R context (RedisCommand ''PING'' []) x of
      ((reply, err), x1) \<Rightarrow>
        Ret (\<not> err \<and> (case reply of None \<Rightarrow> False | Some r \<Rightarrow> \<not> is_error r)) (p, x1))"

fun ping_loop :: "'x redis_api \<Rightarrow> nat \<Rightarrow> (unit, redis_pool \<times> 'x) m" where
  "ping_loop R 0 = mret ()"
| "ping_loop R (Suc n) = (\<lambda>(p, x).
    if rp_stop p then Ret () (p, x)
    else mbind (on_fst rp_getConNonBlock) (\<lambda>oc. case oc of
        None \<Rightarrow> mret ()
      | Some context \<Rightarrow> mbind (rp_ping R context) (\<lambda>alive.
          if alive
          then mseq (on_fst (rp_returnConnection context)) (ping_loop R n)
          else mseq (on_fst (mmodify (\<lambda>q. q\<lparr>rp_fail := rp_fail q + 1\<rparr>))) (ping_loop R n))) (p, x))"

text \<open>\<open>while (_fail_count > 0) if (reconnect()) _fail_count--; else break;\<close>\<close>

fun reconnect_loop :: "'x redis_api \<Rightarrow> nat \<Rightarrow> (unit, redis_pool \<times> 'x) m" where
  "reconnect_loop R 0 = mret ()"
| "reconnect_loop R (Suc n) = (\<lambda>(p, x).
    if rp_fail p > 0
    then mbind (rp_reconnect R) (\<lambda>ok.
        if ok
        then mseq (on_fst (mmodify (\<lambda>q. q\<lparr>rp_fail := rp_fail q - 1\<rparr>))) (reconnect_loop R n)
        else mret ()) (p, x)
    else Ret () (p, x))"

definition rp_checkThreadPro :: "'x redis_api \<Rightarrow> (unit, redis_pool \<times> 'x) m" where
  "rp_checkThreadPro R =
    mbind (on_fst (mget (\<lambda>p. length (rp_conns p)))) (\<lambda>poolSize.
      mseq (ping_loop R poolSize)
        (mbind (on_fst (mget (\<lambda>p. nat (rp_fail p)))) (\<lambda>rounds. reconnect_loop R rounds)))"

text \<open>One second of the check thread.\<close>

definition rp_check_tick :: "'x redis_api \<Rightarrow> (unit, redis_pool \<times> 'x) m" where
  "rp_check_tick R = (\<lambda>(p, x).
    if rp_stop p then Ret () (p, x)
    else (let p1 = p\<lparr>rp_counter := rp_counter p + 1\<rparr>
          in if rp_counter p1 \<ge> 60
             then mseq (rp_checkThreadPro R)
                    (on_fst (mmodify (\<lambda>q. q\<lparr>rp_counter := 0\<rparr>))) (p1, x)
             else Ret () (p1, x)))"

section \<open>The pool meets the contract\<close>

interpretation rp: conn_pool rp_conns rp_stop rp_getConnection rp_returnConnection
  by unfold_locales (auto simp: rp_getConnection_def rp_returnConnection_run)

lemmas rp_sections = rp_return_section_def rp_stop_section_def rp_push_section_def

section \<open>The health check keeps the books\<close>

text \<open>
  What the pool owns: the idle connections and the ones counted as failed, which the check will
  replace.
\<close>

definition rp_owned :: "redis_pool \<Rightarrow> int" where
  "rp_owned p = int (length (rp_conns p)) + rp_fail p"

lemma rp_reconnect_owned:
  "\<exists>ok q y. rp_reconnect R (p, x) = Ret ok (q, y) \<and> rp_stop q = rp_stop p \<and> rp_fail q = rp_fail p \<and>
     int (length (rp_conns q)) = int (length (rp_conns p)) + (if ok then 1 else 0)"
  by (auto simp: rp_reconnect_def rp_push_section_def split: prod.splits option.splits)

lemma rp_ping_run: "\<exists>alive y. rp_ping R c (p, x) = Ret alive (p, y)"
  by (cases "r_command R c (RedisCommand ''PING'' []) x") (auto simp: rp_ping_def split: prod.splits)

definition rp_healthy :: "redis_pool \<Rightarrow> bool" where
  "rp_healthy p \<longleftrightarrow> \<not> rp_stop p \<and> 0 \<le> rp_fail p"

lemma ping_loop_owned:
  "rp_healthy p \<Longrightarrow>
   \<exists>q y. ping_loop R n (p, x) = Ret () (q, y) \<and> rp_healthy q \<and> rp_owned q = rp_owned p"
proof (induction n arbitrary: p x)
  case 0
  then show ?case by (simp add: run_simps)
next
  case (Suc n)
  show ?case
  proof (cases "rp_conns p")
    case Nil
    with Suc.prems show ?thesis
      by (simp add: run_simps rp_getConNonBlock_def rp_healthy_def)
  next
    case (Cons c cs)
    let ?q = "p\<lparr>rp_conns := cs\<rparr>"
    have alive_eq: "rp_owned (?q\<lparr>rp_conns := cs @ [c]\<rparr>) = rp_owned p"
      and dead_eq: "rp_owned (?q\<lparr>rp_fail := rp_fail p + 1\<rparr>) = rp_owned p"
      using Cons by (simp_all add: rp_owned_def)
    from rp_ping_run [of R c ?q x] obtain alive x1 where ping: "rp_ping R c (?q, x) = Ret alive (?q, x1)"
      by blast
    show ?thesis
    proof (cases alive)
      case True
      with Suc.IH [of "?q\<lparr>rp_conns := cs @ [c]\<rparr>" x1] Suc.prems alive_eq show ?thesis
        by (simp add: run_simps rp_getConNonBlock_def rp_returnConnection_run rp_healthy_def Cons ping)
    next
      case False
      with Suc.IH [of "?q\<lparr>rp_fail := rp_fail p + 1\<rparr>" x1] Suc.prems dead_eq show ?thesis
        by (simp add: run_simps rp_getConNonBlock_def rp_healthy_def Cons ping)
    qed
  qed
qed

lemma reconnect_loop_owned:
  "rp_healthy p \<Longrightarrow>
   \<exists>q y. reconnect_loop R n (p, x) = Ret () (q, y) \<and> rp_healthy q \<and> rp_owned q = rp_owned p"
proof (induction n arbitrary: p x)
  case 0
  then show ?case by (simp add: run_simps)
next
  case (Suc n)
  from rp_reconnect_owned [of R p x] obtain ok q y where
    rc: "rp_reconnect R (p, x) = Ret ok (q, y)" "rp_stop q = rp_stop p" "rp_fail q = rp_fail p"
      "int (length (rp_conns q)) = int (length (rp_conns p)) + (if ok then 1 else 0)" by blast
  from rc Suc.prems Suc.IH [of "q\<lparr>rp_fail := rp_fail q - 1\<rparr>" y] show ?case
    by (auto simp: run_simps rp_healthy_def rp_owned_def)
qed

text \<open>
  The health check of a running Redis pool always comes to its end, and it never loses track
  of a connection: afterwards as many connections are idle or counted as failed as before.
\<close>

theorem rp_checkThreadPro_owned:
  assumes "\<not> rp_stop p" and "0 \<le> rp_fail p"
  shows "\<exists>q y. rp_checkThreadPro R (p, x) = Ret () (q, y) \<and> \<not> rp_stop q \<and> 0 \<le> rp_fail q \<and>
    int (length (rp_conns q)) + rp_fail q = int (length (rp_conns p)) + rp_fail p"
proof -
  from assms have h: "rp_healthy p" by (simp add: rp_healthy_def)
  from ping_loop_owned [OF h, of R "length (rp_conns p)" x] obtain q y where
    q: "ping_loop R (length (rp_conns p)) (p, x) = Ret () (q, y)" "rp_healthy q"
      "rp_owned q = rp_owned p" by blast
  from reconnect_loop_owned [OF q(2), of R "nat (rp_fail q)" y] obtain r z where
    r: "reconnect_loop R (nat (rp_fail q)) (q, y) = Ret () (r, z)" "rp_healthy r"
      "rp_owned r = rp_owned q" by blast
  from q r show ?thesis
    by (simp add: rp_checkThreadPro_def run_simps rp_healthy_def rp_owned_def)
qed

text \<open>
  A Redis server that accepts the connection but does not answer the authentication takes the
  constructor of the pool into undefined behaviour (it prints the text of the null reply), where
  the reconnection of the same pool only reports a failure.
\<close>

theorem RedisConPool_new_null_auth:
  assumes "r_connect R host port x = (Some (ctx, False), x1)"
    and "r_command R ctx (RedisCommand ''AUTH %s'' [pwd]) x1 = ((None, err), x2)"
    and "0 < n" and "cstr host = host" and "cstr pwd = pwd"
  shows "RedisConPool_new R n host port pwd x = Undef \<and>
    rp_reconnect R (\<lparr>rp_stop = False, rp_size = n, rp_host = host, rp_pwd = pwd, rp_port = port,
        rp_conns = cs, rp_fail = f, rp_counter = k, rp_in_check = b\<rparr>, x)
      = Ret False (\<lparr>rp_stop = False, rp_size = n, rp_host = host, rp_pwd = pwd, rp_port = port,
        rp_conns = cs, rp_fail = f, rp_counter = k, rp_in_check = b\<rparr>, x2)"
  using assms by (cases n) (simp_all add: RedisConPool_new_def run_simps rp_reconnect_def)

end
