(* ===== verification/Domain.thy ===== *)
theory Domain
  imports Prelude
begin

text \<open>
  The vocabulary of the server: error codes, message ids, protocol limits and Redis key
  prefixes (\<open>src/domain/const.h\<close>), the user and application records (\<open>src/domain/data.h\<close>) and the
  messages of the RPC interface (\<open>proto/message.proto\<close>).
\<close>

section \<open>Constants (const.h)\<close>

datatype ErrorCodes =
    SUCCESS
  | ERROR_JSON
  | RPCFAILED
  | VERIFY_EXPIRED
  | VERIFY_CODE_ERROR
  | USER_EXIST
  | PASSWD_ERROR
  | EMAIL_NOT_MATCH
  | PASSWD_UP_FAILED
  | PASSWD_INVALID
  | PASSWD_NOT_MATCH
  | UID_INVALID
  | TOKEN_INVALID

fun error_code :: "ErrorCodes \<Rightarrow> int32" where
  "error_code SUCCESS = 0"
| "error_code ERROR_JSON = 1001"
| "error_code RPCFAILED = 1002"
| "error_code VERIFY_EXPIRED = 1003"
| "error_code VERIFY_CODE_ERROR = 1004"
| "error_code USER_EXIST = 1005"
| "error_code PASSWD_ERROR = 1006"
| "error_code EMAIL_NOT_MATCH = 1007"
| "error_code PASSWD_UP_FAILED = 1008"
| "error_code PASSWD_INVALID = 1009"
| "error_code PASSWD_NOT_MATCH = 1010"
| "error_code UID_INVALID = 1011"
| "error_code TOKEN_INVALID = 1012"

definition MAX_LENGTH :: int where "MAX_LENGTH = 1024 * 2"
definition HEAD_TOTAL_LEN :: int where "HEAD_TOTAL_LEN = 4"
definition HEAD_ID_LEN :: int where "HEAD_ID_LEN = 2"
definition HEAD_DATA_LEN :: int where "HEAD_DATA_LEN = 2"
definition MAX_RECVQUE :: int where "MAX_RECVQUE = 10000"
definition MAX_SENDQUE :: int where "MAX_SENDQUE = 1000"

lemmas limit_defs = MAX_LENGTH_def HEAD_TOTAL_LEN_def HEAD_ID_LEN_def HEAD_DATA_LEN_def
  MAX_RECVQUE_def MAX_SENDQUE_def

datatype MSG_IDS =
    MSG_CHAT_LOGIN
  | MSG_CHAT_LOGIN_RSP
  | MSG_SEARCH_USER_REQ
  | MSG_SEARCH_USER_RSP
  | MSG_ADD_FRIEND_REQ
  | MSG_ADD_FRIEND_RSP
  | MSG_NOTIFY_ADDFRIEND_REQ
  | MSG_AUTH_FRIEND_REQ
  | MSG_AUTH_FRIEND_RSP
  | MSG_NOTIFY_AUTH_FRIEND_REQ
  | MSG_TEXT_CHAT_MSG_REQ
  | MSG_TEXT_CHAT_MSG_RSP
  | MSG_NOTIFY_TEXT_CHAT_MSG_REQ

fun msg_id :: "MSG_IDS \<Rightarrow> int16" where
  "msg_id MSG_CHAT_LOGIN = 2001"
| "msg_id MSG_CHAT_LOGIN_RSP = 2002"
| "msg_id MSG_SEARCH_USER_REQ = 2003"
| "msg_id MSG_SEARCH_USER_RSP = 2004"
| "msg_id MSG_ADD_FRIEND_REQ = 2005"
| "msg_id MSG_ADD_FRIEND_RSP = 2006"
| "msg_id MSG_NOTIFY_ADDFRIEND_REQ = 2007"
| "msg_id MSG_AUTH_FRIEND_REQ = 2008"
| "msg_id MSG_AUTH_FRIEND_RSP = 2009"
| "msg_id MSG_NOTIFY_AUTH_FRIEND_REQ = 2010"
| "msg_id MSG_TEXT_CHAT_MSG_REQ = 2011"
| "msg_id MSG_TEXT_CHAT_MSG_RSP = 2012"
| "msg_id MSG_NOTIFY_TEXT_CHAT_MSG_REQ = 2013"

lemma msg_id_inject: "msg_id a = msg_id b \<longleftrightarrow> a = b"
  by (cases a; cases b) simp_all

lemma error_code_inject: "error_code a = error_code b \<longleftrightarrow> a = b"
  by (cases a; cases b) simp_all

text \<open>The enumerators are ordered by their codes, as C++ compares them.\<close>

instantiation ErrorCodes :: linorder
begin

definition less_eq_ErrorCodes :: "ErrorCodes \<Rightarrow> ErrorCodes \<Rightarrow> bool" where
  "less_eq_ErrorCodes a b \<longleftrightarrow> error_code a \<le> error_code b"

definition less_ErrorCodes :: "ErrorCodes \<Rightarrow> ErrorCodes \<Rightarrow> bool" where
  "less_ErrorCodes a b \<longleftrightarrow> error_code a < error_code b"

instance
proof
  fix x y z :: ErrorCodes
  show "x < y \<longleftrightarrow> x \<le> y \<and> \<not> y \<le> x"
    by (auto simp: less_eq_ErrorCodes_def less_ErrorCodes_def)
  show "x \<le> x" by (simp add: less_eq_ErrorCodes_def)
  show "x \<le> y \<Longrightarrow> y \<le> z \<Longrightarrow> x \<le> z" by (simp add: less_eq_ErrorCodes_def)
  show "x \<le> y \<Longrightarrow> y \<le> x \<Longrightarrow> x = y"
    by (simp add: less_eq_ErrorCodes_def error_code_inject [symmetric])
  show "x \<le> y \<or> y \<le> x" by (auto simp: less_eq_ErrorCodes_def)
qed

end

definition CODE :: string where "CODE = ''code_''"
definition USERIPPREFIX :: string where "USERIPPREFIX = ''uip_''"
definition USERTOKENPREFIX :: string where "USERTOKENPREFIX = ''utoken_''"
definition IPCOUNTPREFIX :: string where "IPCOUNTPREFIX = ''ipcount_''"
definition USER_BASE_INFO :: string where "USER_BASE_INFO = ''ubaseinfo_''"
definition USER_NAME_INFO :: string where "USER_NAME_INFO = ''unameinfo_''"
definition LOGIN_COUNT :: string where "LOGIN_COUNT = ''logincount''"

lemmas prefix_defs = CODE_def USERIPPREFIX_def USERTOKENPREFIX_def IPCOUNTPREFIX_def
  USER_BASE_INFO_def USER_NAME_INFO_def LOGIN_COUNT_def

section \<open>Records (data.h)\<close>

record UserInfo =
  ui_name :: string
  ui_pwd :: string
  ui_uid :: int32
  ui_email :: string
  ui_nick :: string
  ui_desc :: string
  ui_sex :: int32
  ui_icon :: string
  ui_back :: string
  ui_alias_name :: string

definition new_UserInfo :: UserInfo where
  "new_UserInfo =
    \<lparr>ui_name = [], ui_pwd = [], ui_uid = 0, ui_email = [], ui_nick = [], ui_desc = [], ui_sex = 0,
     ui_icon = [], ui_back = [], ui_alias_name = []\<rparr>"

record ApplyInfo =
  ai_uid :: int32
  ai_name :: string
  ai_desc :: string
  ai_icon :: string
  ai_nick :: string
  ai_sex :: int32
  ai_status :: int32
  ai_alias_name :: string

definition new_ApplyInfo ::
  "int32 \<Rightarrow> string \<Rightarrow> string \<Rightarrow> string \<Rightarrow> string \<Rightarrow> int32 \<Rightarrow> int32 \<Rightarrow> string \<Rightarrow> ApplyInfo" where
  "new_ApplyInfo uid name desc icon nick sex status alias_name =
    \<lparr>ai_uid = uid, ai_name = name, ai_desc = desc, ai_icon = icon, ai_nick = nick, ai_sex = sex,
     ai_status = status, ai_alias_name = alias_name\<rparr>"

section \<open>RPC messages (message.proto)\<close>

record AddFriendReq =
  afq_applyuid :: int32
  afq_name :: string
  afq_desc :: string
  afq_touid :: int32
  afq_icon :: string
  afq_sex :: int32
  afq_nick :: string
  afq_alias_name :: string

definition new_AddFriendReq :: AddFriendReq where
  "new_AddFriendReq =
    \<lparr>afq_applyuid = 0, afq_name = [], afq_desc = [], afq_touid = 0, afq_icon = [], afq_sex = 0,
     afq_nick = [], afq_alias_name = []\<rparr>"

record AddFriendRsp =
  afr_error :: int32
  afr_applyuid :: int32
  afr_touid :: int32

definition new_AddFriendRsp :: AddFriendRsp where
  "new_AddFriendRsp = \<lparr>afr_error = 0, afr_applyuid = 0, afr_touid = 0\<rparr>"

record AuthFriendReq =
  auq_fromuid :: int32
  auq_touid :: int32

definition new_AuthFriendReq :: AuthFriendReq where
  "new_AuthFriendReq = \<lparr>auq_fromuid = 0, auq_touid = 0\<rparr>"

record AuthFriendRsp =
  aur_error :: int32
  aur_fromuid :: int32
  aur_touid :: int32

definition new_AuthFriendRsp :: AuthFriendRsp where
  "new_AuthFriendRsp = \<lparr>aur_error = 0, aur_fromuid = 0, aur_touid = 0\<rparr>"

record TextChatData =
  tcd_msgid :: string
  tcd_msgcontent :: string

record TextChatMsgReq =
  tcq_fromuid :: int32
  tcq_touid :: int32
  tcq_textmsgs :: "TextChatData list"

definition new_TextChatMsgReq :: TextChatMsgReq where
  "new_TextChatMsgReq = \<lparr>tcq_fromuid = 0, tcq_touid = 0, tcq_textmsgs = []\<rparr>"

record TextChatMsgRsp =
  tcr_error :: int32
  tcr_fromuid :: int32
  tcr_touid :: int32
  tcr_textmsgs :: "TextChatData list"

definition new_TextChatMsgRsp :: TextChatMsgRsp where
  "new_TextChatMsgRsp = \<lparr>tcr_error = 0, tcr_fromuid = 0, tcr_touid = 0, tcr_textmsgs = []\<rparr>"

record LoginReq =
  lq_uid :: int32
  lq_token :: string

record LoginRsp =
  lr_error :: int32
  lr_uid :: int32
  lr_token :: string

definition new_LoginRsp :: LoginRsp where
  "new_LoginRsp = \<lparr>lr_error = 0, lr_uid = 0, lr_token = []\<rparr>"

record GetChatServerReq =
  gq_uid :: int32

record GetChatServerRsp =
  gr_error :: int32
  gr_host :: string
  gr_port :: string
  gr_token :: string

definition new_GetChatServerRsp :: GetChatServerRsp where
  "new_GetChatServerRsp = \<lparr>gr_error = 0, gr_host = [], gr_port = [], gr_token = []\<rparr>"

end
