(* ===== verification/JsonLib.thy ===== *)
theory JsonLib
  imports Domain
begin

text \<open>
  The server reads and writes JSON through jsoncpp, a third-party library. The library is a
  parameter: the record \<open>json_api\<close> has one field per entry point the sources call, over an
  opaque type \<open>'j\<close> of parsed values; \<open>None\<close> stands for a thrown \<open>Json::LogicError\<close>. The values
  the server itself puts together (replies, notifications, cache entries) are the data type
  \<open>'j doc\<close>: what the code assigned, member by member; the library turns a document into text.
\<close>

section \<open>Documents the server builds\<close>

datatype 'j doc =
    DNull
  | DInt int32
  | DStr string
  | DVal 'j
  | DArr "'j doc list"
  | DObj "(string \<times> 'j doc) list"

fun put_member :: "string \<Rightarrow> 'j doc \<Rightarrow> (string \<times> 'j doc) list \<Rightarrow> (string \<times> 'j doc) list" where
  "put_member k v [] = [(k, v)]"
| "put_member k v ((k', v') # kvs) = (if k = k' then (k, v) # kvs else (k', v') # put_member k v kvs)"

text \<open>\<open>value[k] = v\<close> on a null value or an object (the sources assign to nothing else).\<close>

fun jset :: "string \<Rightarrow> 'j doc \<Rightarrow> 'j doc \<Rightarrow> 'j doc" where
  "jset k v (DObj kvs) = DObj (put_member k v kvs)"
| "jset k v _ = DObj [(k, v)]"

fun jget :: "string \<Rightarrow> 'j doc \<Rightarrow> 'j doc option" where
  "jget k (DObj kvs) = map_of kvs k"
| "jget k _ = None"

text \<open>\<open>value.append(v)\<close> on a null value or an array, and \<open>value[k].append(v)\<close>.\<close>

fun jappend :: "'j doc \<Rightarrow> 'j doc \<Rightarrow> 'j doc" where
  "jappend v (DArr vs) = DArr (vs @ [v])"
| "jappend v _ = DArr [v]"

definition jappend_at :: "string \<Rightarrow> 'j doc \<Rightarrow> 'j doc \<Rightarrow> 'j doc" where
  "jappend_at k v d = jset k (jappend v (case jget k d of None \<Rightarrow> DNull | Some w \<Rightarrow> w)) d"

lemma map_of_put_member: "map_of (put_member k v kvs) k' = (if k = k' then Some v else map_of kvs k')"
  by (induction kvs) auto

lemma jget_jset [simp]: "jget k' (jset k v d) = (if k = k' then Some v else jget k' d)"
  by (cases d) (auto simp: map_of_put_member)

lemma jget_jappend_at:
  "jget k' (jappend_at k v d) =
    (if k = k' then Some (jappend v (case jget k d of None \<Rightarrow> DNull | Some w \<Rightarrow> w)) else jget k' d)"
  by (simp add: jappend_at_def)

text \<open>A run of assignments, in the order of the statements.\<close>

definition jset_all :: "(string \<times> 'j doc) list \<Rightarrow> 'j doc \<Rightarrow> 'j doc" where
  "jset_all kvs d = fold (\<lambda>(k, v). jset k v) kvs d"

lemma jset_all_simps [simp]:
  "jset_all [] d = d"
  "jset_all ((k, v) # kvs) d = jset_all kvs (jset k v d)"
  by (simp_all add: jset_all_def)

definition jerror :: "ErrorCodes \<Rightarrow> 'j doc" where
  "jerror e = DInt (error_code e)"

section \<open>The library\<close>

record 'j json_api =
  j_parse :: "string \<Rightarrow> bool \<times> 'j"
  j_member :: "'j \<Rightarrow> string \<Rightarrow> 'j option"
  j_as_int :: "'j \<Rightarrow> int32 option"
  j_as_string :: "'j \<Rightarrow> string option"
  j_is_member :: "'j \<Rightarrow> string \<Rightarrow> bool option"
  j_is_int :: "'j \<Rightarrow> bool"
  j_is_null :: "'j \<Rightarrow> bool"
  j_is_empty :: "'j \<Rightarrow> bool"
  j_is_object :: "'j \<Rightarrow> bool"
  j_member_names :: "'j \<Rightarrow> string list option"
  j_elements :: "'j \<Rightarrow> 'j list"
  j_styled :: "'j doc \<Rightarrow> string"
  j_fast :: "'j doc \<Rightarrow> string"

definition get_member :: "'j json_api \<Rightarrow> 'j \<Rightarrow> string \<Rightarrow> ('j, 's) m" where
  "get_member J v k = mlift JsonLogicError (j_member J v k)"

definition get_int :: "'j json_api \<Rightarrow> 'j \<Rightarrow> string \<Rightarrow> (int32, 's) m" where
  "get_int J v k = mbind (get_member J v k) (\<lambda>w. mlift JsonLogicError (j_as_int J w))"

definition get_str :: "'j json_api \<Rightarrow> 'j \<Rightarrow> string \<Rightarrow> (string, 's) m" where
  "get_str J v k = mbind (get_member J v k) (\<lambda>w. mlift JsonLogicError (j_as_string J w))"

text \<open>
  Documented behaviour of the library that the cache relies on: the text of a document of plain
  members parses back, and its members read back as the integers and strings assigned.
\<close>

definition reads_as :: "'j json_api \<Rightarrow> 'j \<Rightarrow> 'j doc \<Rightarrow> bool" where
  "reads_as J w d = (case d of
      DInt i \<Rightarrow> j_as_int J w = Some i
    | DStr s \<Rightarrow> j_as_string J w = Some s
    | _ \<Rightarrow> True)"

definition reads_back :: "'j json_api \<Rightarrow> string \<Rightarrow> 'j doc \<Rightarrow> bool" where
  "reads_back J txt d \<longleftrightarrow>
    (\<forall>k v. jget k d = Some v \<longrightarrow>
      (case j_member J (snd (j_parse J txt)) k of None \<Rightarrow> False | Some w \<Rightarrow> reads_as J w v))"

definition writers_ok :: "'j json_api \<Rightarrow> 'j doc \<Rightarrow> bool" where
  "writers_ok J d \<longleftrightarrow> reads_back J (j_styled J d) d \<and> reads_back J (j_fast J d) d"

lemma reads_back_int:
  assumes "reads_back J txt d" and "jget k d = Some (DInt i)"
  shows "get_int J (snd (j_parse J txt)) k s = Ret i s"
proof -
  from assms have "case j_member J (snd (j_parse J txt)) k of None \<Rightarrow> False
      | Some w \<Rightarrow> reads_as J w (DInt i)"
    by (auto simp: reads_back_def)
  then show ?thesis
    by (auto simp: get_int_def get_member_def reads_as_def run_simps split: option.splits)
qed

lemma reads_back_str:
  assumes "reads_back J txt d" and "jget k d = Some (DStr t)"
  shows "get_str J (snd (j_parse J txt)) k s = Ret t s"
proof -
  from assms have "case j_member J (snd (j_parse J txt)) k of None \<Rightarrow> False
      | Some w \<Rightarrow> reads_as J w (DStr t)"
    by (auto simp: reads_back_def)
  then show ?thesis
    by (auto simp: get_str_def get_member_def reads_as_def run_simps split: option.splits)
qed

section \<open>Frame rules\<close>

lemma wp_get_member [wp_rules]:
  "wp (get_member J v k) Q E s =
    (case j_member J v k of None \<Rightarrow> E JsonLogicError s | Some w \<Rightarrow> Q w s)"
  by (simp add: get_member_def wp_rules)

lemma wp_get_int:
  "(\<And>i. Q i s) \<Longrightarrow> E JsonLogicError s \<Longrightarrow> wp (get_int J v k) Q E s"
  by (auto simp: get_int_def wp_rules split: option.splits)

lemma wp_get_str:
  "(\<And>i. Q i s) \<Longrightarrow> E JsonLogicError s \<Longrightarrow> wp (get_str J v k) Q E s"
  by (auto simp: get_str_def wp_rules split: option.splits)

end
