(* ===== verification/ConfigMgr.thy ===== *)
theory ConfigMgr
  imports JsonLib
begin

text \<open>
  \<open>src/infra/config/ConfigMgr.cpp\<close>: the configuration is read once from \<open>config.json\<close>, a map from
  section names to maps from keys to texts. A section or key that is missing reads as the empty
  text; sections that are no objects are skipped. The file system is outside: the argument of
  the constructor is the content of the file, if it could be opened.
\<close>

type_synonym SectionInfo = "string \<rightharpoonup> string"
type_synonym config = "string \<rightharpoonup> SectionInfo"

definition SectionInfo_new :: SectionInfo where
  "SectionInfo_new = Map.empty"

definition section_at :: "SectionInfo \<Rightarrow> string \<Rightarrow> string" where
  "section_at sec key = (case sec key of None \<Rightarrow> [] | Some v \<Rightarrow> v)"

definition config_at :: "config \<Rightarrow> string \<Rightarrow> SectionInfo" where
  "config_at cfg name = (case cfg name of None \<Rightarrow> SectionInfo_new | Some sec \<Rightarrow> sec)"

definition cfg_get :: "config \<Rightarrow> string \<Rightarrow> string \<Rightarrow> string" where
  "cfg_get cfg name key = section_at (config_at cfg name) key"

definition load_key :: "'j json_api \<Rightarrow> 'j \<Rightarrow> string \<Rightarrow> SectionInfo \<Rightarrow> (SectionInfo, 's) m" where
  "load_key J v key sec = mbind (get_str J v key) (\<lambda>t. mret (sec(key \<mapsto> t)))"

definition load_section :: "'j json_api \<Rightarrow> 'j \<Rightarrow> (SectionInfo, 's) m" where
  "load_section J v =
    mbind (mlift JsonLogicError (j_member_names J v)) (\<lambda>keys.
      mfold (load_key J v) keys SectionInfo_new)"

definition load_member :: "'j json_api \<Rightarrow> 'j \<Rightarrow> string \<Rightarrow> config \<Rightarrow> (config, 's) m" where
  "load_member J root name cfg =
    mbind (get_member J root name) (\<lambda>v.
      if j_is_object J v
      then mbind (load_section J v) (\<lambda>sec. mret (cfg(name \<mapsto> sec)))
      else mret cfg)"

definition load_root :: "'j json_api \<Rightarrow> 'j \<Rightarrow> (config, 's) m" where
  "load_root J root =
    mbind (mlift JsonLogicError (j_member_names J root)) (\<lambda>names.
      mfold (load_member J root) names Map.empty)"

definition ConfigMgr_new :: "'j json_api \<Rightarrow> string option \<Rightarrow> (config, 's) m" where
  "ConfigMgr_new J file = (case file of
      None \<Rightarrow> mret Map.empty
    | Some text \<Rightarrow>
        (case j_parse J text of
          (ok, root) \<Rightarrow> if \<not> ok then mret Map.empty else load_root J root))"

section \<open>Reading the configuration\<close>

lemma cfg_get_cases:
  "cfg_get cfg name key = (case cfg name of
      None \<Rightarrow> [] | Some sec \<Rightarrow> (case sec key of None \<Rightarrow> [] | Some v \<Rightarrow> v))"
  by (simp add: cfg_get_def config_at_def section_at_def SectionInfo_new_def split: option.splits)

lemma cfg_get_empty [simp]: "cfg_get Map.empty name key = []"
  by (simp add: cfg_get_cases)

text \<open>What a JSON object holds under a key, as text: the specification of the loader.\<close>

definition member_text :: "'j json_api \<Rightarrow> 'j \<Rightarrow> string \<Rightarrow> string option" where
  "member_text J v key = Option.bind (j_member J v key) (j_as_string J)"

lemma load_section_fold:
  assumes "\<forall>k \<in> set keys. member_text J v k \<noteq> None"
  shows "mfold (load_key J v) keys sec s
       = Ret (\<lambda>k. if k \<in> set keys then member_text J v k else sec k) s"
  using assms
proof (induction keys arbitrary: sec)
  case Nil
  then show ?case by (simp add: run_simps)
next
  case (Cons key keys)
  then obtain w t where w: "j_member J v key = Some w" "j_as_string J w = Some t"
    by (auto simp: member_text_def bind_eq_Some_conv)
  then have "load_key J v key sec s = Ret (sec(key \<mapsto> t)) s"
    by (simp add: load_key_def get_str_def get_member_def run_simps)
  then have "mfold (load_key J v) (key # keys) sec s
      = mfold (load_key J v) keys (sec(key \<mapsto> t)) s"
    by (simp add: run_simps)
  also have "\<dots> = Ret (\<lambda>k. if k \<in> set keys then member_text J v k else (sec(key \<mapsto> t)) k) s"
    using Cons by simp
  also have "(\<lambda>k. if k \<in> set keys then member_text J v k else (sec(key \<mapsto> t)) k)
      = (\<lambda>k. if k \<in> set (key # keys) then member_text J v k else sec k)"
    using w by (auto simp: member_text_def)
  finally show ?case .
qed

text \<open>
  A JSON value is well formed as a configuration section when every member it lists has a text,
  and as a configuration when every member that is an object is a section.
\<close>

definition section_ok :: "'j json_api \<Rightarrow> 'j \<Rightarrow> bool" where
  "section_ok J v \<longleftrightarrow> (case j_member_names J v of None \<Rightarrow> False
    | Some keys \<Rightarrow> \<forall>k \<in> set keys. member_text J v k \<noteq> None)"

definition section_of :: "'j json_api \<Rightarrow> 'j \<Rightarrow> SectionInfo" where
  "section_of J v = (case j_member_names J v of None \<Rightarrow> Map.empty
    | Some keys \<Rightarrow> (\<lambda>k. if k \<in> set keys then member_text J v k else None))"

lemma load_section_ok: "section_ok J v \<Longrightarrow> load_section J v s = Ret (section_of J v) s"
  by (auto simp: section_ok_def section_of_def load_section_def load_section_fold
      SectionInfo_new_def run_simps split: option.splits)

definition config_ok :: "'j json_api \<Rightarrow> 'j \<Rightarrow> bool" where
  "config_ok J root \<longleftrightarrow> (case j_member_names J root of None \<Rightarrow> False
    | Some names \<Rightarrow> \<forall>n \<in> set names. case j_member J root n of None \<Rightarrow> False
        | Some v \<Rightarrow> j_is_object J v \<longrightarrow> section_ok J v)"

definition config_of :: "'j json_api \<Rightarrow> 'j \<Rightarrow> string list \<Rightarrow> config" where
  "config_of J root names = (\<lambda>n. if n \<in> set names
     then (case j_member J root n of None \<Rightarrow> None
       | Some v \<Rightarrow> if j_is_object J v then Some (section_of J v) else None)
     else None)"

lemma load_root_fold:
  assumes "\<forall>n \<in> set names. case j_member J root n of None \<Rightarrow> False
        | Some v \<Rightarrow> j_is_object J v \<longrightarrow> section_ok J v"
  shows "mfold (load_member J root) names cfg s
       = Ret (\<lambda>n. case config_of J root names n of None \<Rightarrow> cfg n | Some sec \<Rightarrow> Some sec) s"
  using assms
proof (induction names arbitrary: cfg)
  case Nil
  then show ?case by (simp add: run_simps config_of_def)
next
  case (Cons name names)
  then obtain v where v: "j_member J root name = Some v" "j_is_object J v \<longrightarrow> section_ok J v"
    by (auto split: option.splits)
  define cfg' where "cfg' = (if j_is_object J v then cfg(name \<mapsto> section_of J v) else cfg)"
  have "load_member J root name cfg s = Ret cfg' s"
    using v by (simp add: load_member_def cfg'_def get_member_def run_simps load_section_ok)
  then have "mfold (load_member J root) (name # names) cfg s = mfold (load_member J root) names cfg' s"
    by (simp add: run_simps)
  also have "\<dots> = Ret (\<lambda>n. case config_of J root names n of None \<Rightarrow> cfg' n | Some sec \<Rightarrow> Some sec) s"
    using Cons by simp
  also have "(\<lambda>n. case config_of J root names n of None \<Rightarrow> cfg' n | Some sec \<Rightarrow> Some sec)
      = (\<lambda>n. case config_of J root (name # names) n of None \<Rightarrow> cfg n | Some sec \<Rightarrow> Some sec)"
    using v by (auto simp: config_of_def cfg'_def fun_eq_iff split: option.splits)
  finally show ?case .
qed

lemma load_root_ok:
  assumes "config_ok J root"
  shows "load_root J root s = Ret (config_of J root (the (j_member_names J root))) s"
proof -
  from assms obtain names where n: "j_member_names J root = Some names"
    and ok: "\<forall>n \<in> set names. case j_member J root n of None \<Rightarrow> False
        | Some v \<Rightarrow> j_is_object J v \<longrightarrow> section_ok J v"
    by (auto simp: config_ok_def split: option.splits)
  have "(\<lambda>n. case config_of J root names n of None \<Rightarrow> None | Some sec \<Rightarrow> Some sec)
      = config_of J root names"
    by (auto simp: fun_eq_iff split: option.splits)
  with n load_root_fold [OF ok, of Map.empty s] show ?thesis
    by (simp add: load_root_def run_simps)
qed

text \<open>
  Loading a well-formed configuration file gives, under every section and key, exactly the
  text the file has there, and the empty text where the file has none, without an exception.
\<close>

theorem ConfigMgr_new_reads_file:
  assumes "j_parse J text = (True, root)" and "config_ok J root"
    and "j_member_names J root = Some names"
  shows "\<exists>cfg. ConfigMgr_new J (Some text) s = Ret cfg s \<and>
    cfg_get cfg sec key =
      (if sec \<in> set names then
         (case j_member J root sec of None \<Rightarrow> []
          | Some v \<Rightarrow> if j_is_object J v
              then (case section_of J v key of None \<Rightarrow> [] | Some t \<Rightarrow> t) else [])
       else [])"
  using assms
  by (auto simp: ConfigMgr_new_def load_root_ok cfg_get_cases config_of_def split: option.splits)

end
