(* ===== verification/RedisMgr.thy ===== *)
theory RedisMgr
  imports RedisConPool ConfigMgr
begin

text \<open>
  \<open>src/infra/redis/RedisMgr.cpp\<close>: the commands of the server on Redis. Each borrows a connection
  of the pool, runs one command, judges the reply and gives the connection back on every
  branch. An out-parameter with a success flag is an \<open>option\<close>.
\<close>

type_synonym 'x redis_state = "redis_pool \<times> 'x"

definition redis_run :: "'x redis_api \<Rightarrow> nat \<Rightarrow> redis_call \<Rightarrow> (redis_reply option, 'x redis_state) m" where
  "redis_run R connect call = ext_call (\<lambda>x. case r_command R connect call x of ((reply, _), y) \<Rightarrow> (reply, y))"

definition give_back :: "nat \<Rightarrow> 'a \<Rightarrow> ('a, 'x redis_state) m" where
  "give_back connect r = mseq (on_fst (rp_returnConnection connect)) (mret r)"

definition RedisMgr_new :: "'x redis_api \<Rightarrow> config \<Rightarrow> (redis_pool, 'x) m" where
  "RedisMgr_new R cfg =
    mbind (atoi (cstr (cfg_get cfg ''Redis'' ''Port''))) (\<lambda>port.
      RedisConPool_new R 5 (cstr (cfg_get cfg ''Redis'' ''Host'')) port
        (cstr (cfg_get cfg ''Redis'' ''Passwd'')))"

definition redis_get :: "'x redis_api \<Rightarrow> string \<Rightarrow> (string option, 'x redis_state) m" where
  "redis_get R key =
    mbind (on_fst rp_getConnection) (\<lambda>oc. case oc of
        None \<Rightarrow> mret None
      | Some connect \<Rightarrow>
          mbind (redis_run R connect (RedisCommand ''GET %s'' [cstr key])) (\<lambda>reply. case reply of
              None \<Rightarrow> give_back connect None
            | Some (RString str) \<Rightarrow> give_back connect (Some (cstr str))
            | Some _ \<Rightarrow> give_back connect None))"

definition redis_set :: "'x redis_api \<Rightarrow> string \<Rightarrow> string \<Rightarrow> (bool, 'x redis_state) m" where
  "redis_set R key value =
    mbind (on_fst rp_getConnection) (\<lambda>oc. case oc of
        None \<Rightarrow> mret False
      | Some connect \<Rightarrow>
          mbind (redis_run R connect (RedisCommand ''SET %s %s'' [cstr key, cstr value])) (\<lambda>reply.
            case reply of
              None \<Rightarrow> give_back connect False
            | Some (RStatus str) \<Rightarrow> give_back connect (cstr str = ''OK'' \<or> cstr str = ''ok'')
            | Some _ \<Rightarrow> give_back connect False))"

text \<open>\<open>hSet\<close> with C strings and the length of the value, and its \<open>std::string\<close> overload.\<close>

definition redis_hSet_raw ::
  "'x redis_api \<Rightarrow> string \<Rightarrow> string \<Rightarrow> string \<Rightarrow> nat \<Rightarrow> (bool, 'x redis_state) m" where
  "redis_hSet_raw R key hkey hvalue hvaluelen =
    mbind (on_fst rp_getConnection) (\<lambda>oc. case oc of
        None \<Rightarrow> mret False
      | Some connect \<Rightarrow>
          mbind (redis_run R connect
              (RedisCommandArgv [''HSET'', cstr key, cstr hkey, take hvaluelen hvalue])) (\<lambda>reply.
            case reply of
              Some (RInteger _) \<Rightarrow> give_back connect True
            | _ \<Rightarrow> give_back connect False))"

definition redis_hSet :: "'x redis_api \<Rightarrow> string \<Rightarrow> string \<Rightarrow> string \<Rightarrow> (bool, 'x redis_state) m" where
  "redis_hSet R key hkey value = redis_hSet_raw R (cstr key) (cstr hkey) value (length value)"

text \<open>A reply that is neither nil nor an error is read through \<open>str\<close>, null or not.\<close>

definition redis_hGet :: "'x redis_api \<Rightarrow> string \<Rightarrow> string \<Rightarrow> (string, 'x redis_state) m" where
  "redis_hGet R key hkey =
    mbind (on_fst rp_getConnection) (\<lambda>oc. case oc of
        None \<Rightarrow> mret []
      | Some connect \<Rightarrow>
          mbind (redis_run R connect (RedisCommandArgv [''HGET'', key, hkey])) (\<lambda>reply.
            case reply of
              None \<Rightarrow> give_back connect []
            | Some RNil \<Rightarrow> give_back connect []
            | Some (RError _) \<Rightarrow> give_back connect []
            | Some r \<Rightarrow> (case reply_str r of
                None \<Rightarrow> mundef
              | Some str \<Rightarrow> give_back connect (cstr str))))"

definition redis_hDel :: "'x redis_api \<Rightarrow> string \<Rightarrow> string \<Rightarrow> (bool, 'x redis_state) m" where
  "redis_hDel R key filed =
    with_conn rp_getConnection rp_returnConnection (mret False) (\<lambda>connect.
      mbind (redis_run R connect (RedisCommand ''HDEL %s %s'' [cstr key, cstr filed])) (\<lambda>reply.
        case reply of
          None \<Rightarrow> mret False
        | Some (RInteger i) \<Rightarrow> mret (i > 0)
        | Some _ \<Rightarrow> mret False))"

definition RedisMgr_close :: "(unit, 'x redis_state) m" where
  "RedisMgr_close = on_fst rp_close"

lemmas redis_op_defs = redis_get_def redis_set_def redis_hSet_def redis_hSet_raw_def redis_hGet_def

section \<open>Every command gives its connection back\<close>

lemma redis_run_run:
  "redis_run R c call (p, x) = Ret (fst (fst (r_command R c call x))) (p, snd (r_command R c call x))"
  by (simp add: redis_run_def run_simps split: prod.splits)

lemma give_back_run:
  "give_back c r (p, x) = Ret r (if rp_stop p then p else p\<lparr>rp_conns := rp_conns p @ [c]\<rparr>, x)"
  by (simp add: give_back_def run_simps rp_returnConnection_run)

text \<open>
  The result of an operation on a pool with an idle connection: it returns, and the connections
  of the pool are the same, the borrowed one moved to the end.
\<close>

definition rotates :: "redis_pool \<Rightarrow> ('a, 'x redis_state) outcome \<Rightarrow> bool" where
  "rotates p r \<longleftrightarrow> (\<exists>a y. r = Ret a (p\<lparr>rp_conns := rotate1 (rp_conns p)\<rparr>, y))"

lemma rotates_Ret: "rotates p (Ret a (q, y)) \<longleftrightarrow> q = p\<lparr>rp_conns := rotate1 (rp_conns p)\<rparr>"
  by (simp add: rotates_def)

lemma redis_hDel_idle:
  assumes "\<not> rp_stop p" and "rp_conns p \<noteq> []"
  shows "rotates p (redis_hDel R key filed (p, x))"
proof -
  from assms(2) obtain c cs where c: "rp_conns p = c # cs" by (cases "rp_conns p") auto
  show ?thesis
    using assms(1)
    by (auto simp: redis_hDel_def with_conn_def run_simps rp_getConnection_def c redis_run_run
        rp_returnConnection_run rotates_Ret split: option.splits redis_reply.splits)
qed

lemma redis_get_idle:
  assumes "\<not> rp_stop p" and "rp_conns p \<noteq> []"
  shows "rotates p (redis_get R key (p, x))"
  using assms
  by (cases "rp_conns p") (auto simp: redis_get_def run_simps rp_getConnection_def redis_run_run
      give_back_run rotates_Ret split: option.splits redis_reply.splits)

lemma redis_set_idle:
  assumes "\<not> rp_stop p" and "rp_conns p \<noteq> []"
  shows "rotates p (redis_set R key v (p, x))"
  using assms
  by (cases "rp_conns p") (auto simp: redis_set_def run_simps rp_getConnection_def redis_run_run
      give_back_run rotates_Ret split: option.splits redis_reply.splits)

lemma redis_hSet_idle:
  assumes "\<not> rp_stop p" and "rp_conns p \<noteq> []"
  shows "rotates p (redis_hSet_raw R key hkey v n (p, x))"
  using assms
  by (cases "rp_conns p") (auto simp: redis_hSet_raw_def run_simps rp_getConnection_def redis_run_run
      give_back_run rotates_Ret split: option.splits redis_reply.splits)

lemma redis_hGet_idle:
  assumes "\<not> rp_stop p" and "rp_conns p \<noteq> []"
  shows "rotates p (redis_hGet R key hkey (p, x)) \<or> redis_hGet R key hkey (p, x) = Undef"
  using assms
  by (cases "rp_conns p") (auto simp: redis_hGet_def run_simps rp_getConnection_def redis_run_run
      give_back_run rotates_Ret split: option.splits redis_reply.splits)

text \<open>
  On a running Redis pool with an idle connection the commands GET, SET, HSET and HDEL return,
  whatever the server answers, and give the connection back: the pool holds exactly the
  connections it held before, the borrowed one at the end of the queue.
\<close>

theorem redis_commands_give_back:
  assumes "\<not> rp_stop p" and "rp_conns p \<noteq> []"
  shows "rotates p (redis_get R key (p, x)) \<and> rotates p (redis_set R key v (p, x)) \<and>
    rotates p (redis_hSet R key hkey v (p, x)) \<and> rotates p (redis_hDel R key hkey (p, x))"
  using assms
  by (simp add: redis_get_idle redis_set_idle redis_hSet_idle redis_hDel_idle redis_hSet_def)

text \<open>
  HGET gives its connection back too, except for a reply that carries no text (an integer
  where the key holds something else): that reply is read through a null pointer.
\<close>

theorem redis_hGet_null_text:
  assumes "\<not> rp_stop p" and "rp_conns p = c # cs"
    and "r_command R c (RedisCommandArgv [''HGET'', key, hkey]) x = ((reply, err), y)"
  shows "redis_hGet R key hkey (p, x) =
    (if \<exists>i. reply = Some (RInteger i) \<or> reply = Some RArray then Undef
     else Ret (case reply of Some (RString s) \<Rightarrow> cstr s | Some (RStatus s) \<Rightarrow> cstr s | _ \<Rightarrow> [])
       (p\<lparr>rp_conns := cs @ [c]\<rparr>, y))"
  using assms
  by (auto simp: redis_hGet_def run_simps rp_getConnection_def redis_run_run give_back_run
      split: option.splits redis_reply.splits)

section \<open>A server that answers as documented\<close>

text \<open>
  \<open>redis_view\<close> reads the strings and hashes a server holds, a key that holds the one having no value
  of the other kind; \<open>redis_serves\<close> is the documented behaviour of GET, SET, HGET, HSET and HDEL on them, for a
  server that answers every command. SET overwrites a value of either kind; the others answer a key
  of the wrong kind with an error.
\<close>

record 'x redis_view =
  kv :: "'x \<Rightarrow> string \<Rightarrow> string option"
  hkv :: "'x \<Rightarrow> string \<Rightarrow> string \<Rightarrow> string option"

definition redis_serves :: "'x redis_api \<Rightarrow> 'x redis_view \<Rightarrow> bool" where
  "redis_serves R V \<longleftrightarrow>
    (\<forall>x k. kv V x k = None \<or> hkv V x k = Map.empty) \<and>
    (\<forall>c x k. \<exists>e. r_command R c (RedisCommand ''GET %s'' [k]) x = ((Some (case kv V x k of
         Some v \<Rightarrow> RString v
       | None \<Rightarrow> if hkv V x k = Map.empty then RNil else RError e), False), x)) \<and>
    (\<forall>c x k v. \<exists>y. r_command R c (RedisCommand ''SET %s %s'' [k, v]) x = ((Some (RStatus ''OK''), False), y) \<and>
       kv V y = (kv V x)(k \<mapsto> v) \<and> hkv V y = (hkv V x)(k := Map.empty)) \<and>
    (\<forall>c x k h. \<exists>e. r_command R c (RedisCommandArgv [''HGET'', k, h]) x = ((Some (case hkv V x k h of
         Some v \<Rightarrow> RString v
       | None \<Rightarrow> if kv V x k = None then RNil else RError e), False), x)) \<and>
    (\<forall>c x k h v. kv V x k = None \<longrightarrow>
       (\<exists>y n. r_command R c (RedisCommandArgv [''HSET'', k, h, v]) x = ((Some (RInteger n), False), y) \<and>
         hkv V y = (hkv V x)(k := (hkv V x k)(h \<mapsto> v)) \<and> kv V y = kv V x)) \<and>
    (\<forall>c x k h v. kv V x k \<noteq> None \<longrightarrow>
       (\<exists>e. r_command R c (RedisCommandArgv [''HSET'', k, h, v]) x = ((Some (RError e), False), x))) \<and>
    (\<forall>c x k h. kv V x k = None \<longrightarrow>
       (\<exists>y. r_command R c (RedisCommand ''HDEL %s %s'' [k, h]) x =
         ((Some (RInteger (if hkv V x k h = None then 0 else 1)), False), y) \<and>
         hkv V y = (hkv V x)(k := (hkv V x k)(h := None)) \<and> kv V y = kv V x)) \<and>
    (\<forall>c x k h. kv V x k \<noteq> None \<longrightarrow>
       (\<exists>e. r_command R c (RedisCommand ''HDEL %s %s'' [k, h]) x = ((Some (RError e), False), x)))"

lemma redis_serves_kinds: "redis_serves R V \<Longrightarrow> kv V x k = None \<or> hkv V x k = Map.empty"
  by (rule redis_serves_def [THEN iffD1, THEN conjunct1, rule_format])

lemma redis_serves_get: "redis_serves R V \<Longrightarrow> \<exists>e. r_command R c (RedisCommand ''GET %s'' [k]) x =
    ((Some (case kv V x k of
         Some v \<Rightarrow> RString v
       | None \<Rightarrow> if hkv V x k = Map.empty then RNil else RError e), False), x)"
  by (rule redis_serves_def [THEN iffD1, THEN conjunct2, THEN conjunct1, rule_format])

lemma redis_serves_hget: "redis_serves R V \<Longrightarrow> \<exists>e. r_command R c (RedisCommandArgv [''HGET'', k, h]) x =
    ((Some (case hkv V x k h of
         Some v \<Rightarrow> RString v
       | None \<Rightarrow> if kv V x k = None then RNil else RError e), False), x)"
  by (rule redis_serves_def [THEN iffD1, THEN conjunct2, THEN conjunct2, THEN conjunct2, THEN conjunct1, rule_format])

lemma redis_serves_set: "redis_serves R V \<Longrightarrow>
    \<exists>y. r_command R c (RedisCommand ''SET %s %s'' [k, v]) x = ((Some (RStatus ''OK''), False), y) \<and>
       kv V y = (kv V x)(k \<mapsto> v) \<and> hkv V y = (hkv V x)(k := Map.empty)"
  by (rule redis_serves_def [THEN iffD1, THEN conjunct2, THEN conjunct2, THEN conjunct1, rule_format])

lemma redis_serves_hset: "redis_serves R V \<Longrightarrow> kv V x k = None \<Longrightarrow>
    \<exists>y n. r_command R c (RedisCommandArgv [''HSET'', k, h, v]) x = ((Some (RInteger n), False), y) \<and>
       hkv V y = (hkv V x)(k := (hkv V x k)(h \<mapsto> v)) \<and> kv V y = kv V x"
  by (rule redis_serves_def [THEN iffD1, THEN conjunct2, THEN conjunct2, THEN conjunct2, THEN conjunct2, THEN conjunct1, rule_format])

lemma redis_serves_hset_wrong: "redis_serves R V \<Longrightarrow> kv V x k \<noteq> None \<Longrightarrow>
    \<exists>e. r_command R c (RedisCommandArgv [''HSET'', k, h, v]) x = ((Some (RError e), False), x)"
  by (rule redis_serves_def [THEN iffD1, THEN conjunct2, THEN conjunct2, THEN conjunct2, THEN conjunct2, THEN conjunct2, THEN conjunct1, rule_format])

lemma redis_serves_hdel: "redis_serves R V \<Longrightarrow>
    \<exists>reply y. r_command R c (RedisCommand ''HDEL %s %s'' [k, h]) x = ((Some reply, False), y) \<and>
       (case reply of RInteger i \<Rightarrow> i > 0 | _ \<Rightarrow> False) = (hkv V x k h \<noteq> None) \<and>
       hkv V y = (hkv V x)(k := (hkv V x k)(h := None)) \<and> kv V y = kv V x"
proof (cases "kv V x k = None")
  case True
  assume "redis_serves R V"
  with True obtain y where "r_command R c (RedisCommand ''HDEL %s %s'' [k, h]) x =
         ((Some (RInteger (if hkv V x k h = None then 0 else 1)), False), y)"
     "hkv V y = (hkv V x)(k := (hkv V x k)(h := None))" "kv V y = kv V x"
    using redis_serves_def [THEN iffD1, THEN conjunct2, THEN conjunct2, THEN conjunct2, THEN conjunct2, THEN conjunct2, THEN conjunct2, THEN conjunct1, rule_format, OF \<open>redis_serves R V\<close> True] by blast
  then show ?thesis by (intro exI [of _ "RInteger (if hkv V x k h = None then 0 else 1)"] exI [of _ y]) simp
next
  case False
  assume s: "redis_serves R V"
  with False obtain e where "r_command R c (RedisCommand ''HDEL %s %s'' [k, h]) x = ((Some (RError e), False), x)"
    using redis_serves_def [THEN iffD1, THEN conjunct2, THEN conjunct2, THEN conjunct2, THEN conjunct2, THEN conjunct2, THEN conjunct2, THEN conjunct2, rule_format, OF s False] by blast
  moreover have "hkv V x k = Map.empty" using redis_serves_kinds [OF s, of x k] False by simp
  moreover from this have "(hkv V x)(k := (hkv V x k)(h := None)) = hkv V x" by (simp add: fun_upd_idem)
  ultimately show ?thesis by (intro exI [of _ "RError e"] exI [of _ x]) simp
qed

abbreviation spin :: "redis_pool \<Rightarrow> redis_pool" where
  "spin p \<equiv> p\<lparr>rp_conns := rotate1 (rp_conns p)\<rparr>"

definition rp_ready :: "redis_pool \<Rightarrow> bool" where
  "rp_ready p \<longleftrightarrow> \<not> rp_stop p \<and> rp_conns p \<noteq> []"

lemma rp_ready_spin [simp]: "rp_ready (spin p) = rp_ready p"
  by (simp add: rp_ready_def)

lemma redis_get_serves:
  assumes "redis_serves R V" and "rp_ready p"
  shows "redis_get R k (p, x) = Ret (map_option cstr (kv V x (cstr k))) (spin p, x)"
proof -
  from assms obtain c cs where c: "rp_conns p = c # cs" "\<not> rp_stop p"
    by (cases "rp_conns p") (auto simp: rp_ready_def)
  from redis_serves_get [OF assms(1), of c "cstr k" x] obtain e where
    "r_command R c (RedisCommand ''GET %s'' [cstr k]) x = ((Some (case kv V x (cstr k) of
         Some v \<Rightarrow> RString v
       | None \<Rightarrow> if hkv V x (cstr k) = Map.empty then RNil else RError e), False), x)" by blast
  with c show ?thesis
    by (simp add: redis_get_def run_simps rp_getConnection_def redis_run_run give_back_run split: option.splits)
qed

lemma redis_set_serves:
  assumes "redis_serves R V" and "rp_ready p"
  shows "\<exists>y. redis_set R k v (p, x) = Ret True (spin p, y) \<and>
    kv V y = (kv V x)(cstr k \<mapsto> cstr v) \<and> hkv V y = (hkv V x)(cstr k := Map.empty)"
proof -
  from assms obtain c cs where c: "rp_conns p = c # cs" "\<not> rp_stop p"
    by (cases "rp_conns p") (auto simp: rp_ready_def)
  from redis_serves_set [OF assms(1), of c "cstr k" "cstr v" x] obtain y where
    "r_command R c (RedisCommand ''SET %s %s'' [cstr k, cstr v]) x = ((Some (RStatus ''OK''), False), y)"
    "kv V y = (kv V x)(cstr k \<mapsto> cstr v)" "hkv V y = (hkv V x)(cstr k := Map.empty)"
    by auto
  moreover have "cstr ''OK'' = ''OK''" by (simp add: cstr_def)
  ultimately show ?thesis
    using c by (simp add: redis_set_def run_simps rp_getConnection_def redis_run_run give_back_run)
qed

lemma redis_hGet_serves:
  assumes "redis_serves R V" and "rp_ready p"
  shows "redis_hGet R k h (p, x) =
    Ret (case hkv V x k h of None \<Rightarrow> [] | Some v \<Rightarrow> cstr v) (spin p, x)"
proof -
  from assms obtain c cs where c: "rp_conns p = c # cs" "\<not> rp_stop p"
    by (cases "rp_conns p") (auto simp: rp_ready_def)
  from redis_serves_hget [OF assms(1), of c k h x] obtain e where
    "r_command R c (RedisCommandArgv [''HGET'', k, h]) x = ((Some (case hkv V x k h of
         Some v \<Rightarrow> RString v
       | None \<Rightarrow> if kv V x k = None then RNil else RError e), False), x)" by blast
  with c show ?thesis
    by (simp add: redis_hGet_def run_simps rp_getConnection_def redis_run_run give_back_run split: option.splits)
qed

lemma redis_hSet_raw_serves:
  assumes "redis_serves R V" and "rp_ready p" and "kv V x (cstr k) = None"
  shows "\<exists>y. redis_hSet_raw R k h v n (p, x) = Ret True (spin p, y) \<and>
    hkv V y = (hkv V x)(cstr k := (hkv V x (cstr k))(cstr h \<mapsto> take n v)) \<and> kv V y = kv V x"
proof -
  from assms obtain c cs where c: "rp_conns p = c # cs" "\<not> rp_stop p"
    by (cases "rp_conns p") (auto simp: rp_ready_def)
  from redis_serves_hset [OF assms(1,3), of c "cstr h" "take n v"] obtain y i where
    "r_command R c (RedisCommandArgv [''HSET'', cstr k, cstr h, take n v]) x = ((Some (RInteger i), False), y)"
    "hkv V y = (hkv V x)(cstr k := (hkv V x (cstr k))(cstr h \<mapsto> take n v))" "kv V y = kv V x"
    by auto
  then show ?thesis
    using c by (simp add: redis_hSet_raw_def run_simps rp_getConnection_def redis_run_run give_back_run)
qed

lemma redis_hSet_raw_wrong:
  assumes "redis_serves R V" and "rp_ready p" and "kv V x (cstr k) \<noteq> None"
  shows "redis_hSet_raw R k h v n (p, x) = Ret False (spin p, x)"
proof -
  from assms obtain c cs where c: "rp_conns p = c # cs" "\<not> rp_stop p"
    by (cases "rp_conns p") (auto simp: rp_ready_def)
  from redis_serves_hset_wrong [OF assms(1,3), of c "cstr h" "take n v"] obtain e where
    "r_command R c (RedisCommandArgv [''HSET'', cstr k, cstr h, take n v]) x = ((Some (RError e), False), x)"
    by blast
  then show ?thesis
    using c by (simp add: redis_hSet_raw_def run_simps rp_getConnection_def redis_run_run give_back_run)
qed

lemma redis_hDel_serves:
  assumes "redis_serves R V" and "rp_ready p"
  shows "\<exists>y. redis_hDel R k h (p, x) = Ret (hkv V x (cstr k) (cstr h) \<noteq> None) (spin p, y) \<and>
    hkv V y = (hkv V x)(cstr k := (hkv V x (cstr k))(cstr h := None)) \<and> kv V y = kv V x"
proof -
  from assms obtain c cs where c: "rp_conns p = c # cs" "\<not> rp_stop p"
    by (cases "rp_conns p") (auto simp: rp_ready_def)
  from redis_serves_hdel [OF assms(1), of c "cstr k" "cstr h" x] obtain reply y where
    "r_command R c (RedisCommand ''HDEL %s %s'' [cstr k, cstr h]) x = ((Some reply, False), y)"
    "(case reply of RInteger i \<Rightarrow> i > 0 | _ \<Rightarrow> False) = (hkv V x (cstr k) (cstr h) \<noteq> None)"
    "hkv V y = (hkv V x)(cstr k := (hkv V x (cstr k))(cstr h := None))" "kv V y = kv V x"
    by auto
  then show ?thesis
    using c by (cases reply) (auto simp: redis_hDel_def with_conn_def run_simps rp_getConnection_def redis_run_run
        rp_returnConnection_run)
qed

text \<open>
  C32. Against a server that answers as documented, for keys, fields and values without NUL
  characters: what SET stored is what GET reads, whatever the key held before; what HSET stored
  under a field is what HGET reads, unless the key holds a string: then HSET reports a failure, stores
  nothing, and HGET reads the empty text.
\<close>

theorem redis_set_then_get:
  assumes "redis_serves R V" and "rp_ready p" and "cstr k = k" and "cstr h = h" and "cstr v = v"
  shows "(\<exists>y. redis_set R k v (p, x) = Ret True (spin p, y) \<and>
      redis_get R k (spin p, y) = Ret (Some v) (spin (spin p), y)) \<and>
    (if kv V x k = None
     then \<exists>z. redis_hSet R k h v (p, x) = Ret True (spin p, z) \<and>
       redis_hGet R k h (spin p, z) = Ret v (spin (spin p), z)
     else redis_hSet R k h v (p, x) = Ret False (spin p, x) \<and>
       redis_hGet R k h (spin p, x) = Ret [] (spin (spin p), x))"
proof (intro conjI)
  from assms(2) have r: "rp_ready (spin p)" by simp
  from redis_set_serves [OF assms(1,2), of k v x] obtain y where
    "redis_set R k v (p, x) = Ret True (spin p, y)" "kv V y = (kv V x)(cstr k \<mapsto> cstr v)" by blast
  with redis_get_serves [OF assms(1) r, of k y] assms(3-5) show "\<exists>y. redis_set R k v (p, x) = Ret True (spin p, y) \<and>
      redis_get R k (spin p, y) = Ret (Some v) (spin (spin p), y)" by auto
  show "if kv V x k = None
     then \<exists>z. redis_hSet R k h v (p, x) = Ret True (spin p, z) \<and>
       redis_hGet R k h (spin p, z) = Ret v (spin (spin p), z)
     else redis_hSet R k h v (p, x) = Ret False (spin p, x) \<and>
       redis_hGet R k h (spin p, x) = Ret [] (spin (spin p), x)"
  proof (cases "kv V x k = None")
    case True
    then have "kv V x (cstr k) = None" using assms(3) by simp
    from redis_hSet_raw_serves [OF assms(1,2) this, of h v "length v"] obtain z where
      "redis_hSet_raw R k h v (length v) (p, x) = Ret True (spin p, z)"
      "hkv V z = (hkv V x)(cstr k := (hkv V x (cstr k))(cstr h \<mapsto> take (length v) v))" by blast
    with redis_hGet_serves [OF assms(1) r, of k h z] assms(3-5) True show ?thesis
      by (auto simp: redis_hSet_def)
  next
    case False
    then have "kv V x (cstr k) \<noteq> None" using assms(3) by simp
    from redis_hSet_raw_wrong [OF assms(1,2) this] redis_hGet_serves [OF assms(1) r, of k h x] False
      redis_serves_kinds [OF assms(1), of x k] assms(3-5)
    show ?thesis by (auto simp: redis_hSet_def)
  qed
qed

end
