(* ===== verification/MySqlPool.thy ===== *)
theory MySqlPool
  imports ConnPool
begin

text \<open>
  \<open>src/infra/mysql/MySqlPool.cpp\<close>: the pool of database connections and its keep-alive check.
  The database server and its connector are outside: the record \<open>sql_api\<close> holds the calls the
  sources make over an opaque state \<open>'x\<close> and opaque result rows \<open>'row\<close>; \<open>None\<close> (or \<open>False\<close>)
  stands for a thrown \<open>sql::SQLException\<close>. A connection is known by its handle.
\<close>

section \<open>The connector\<close>

datatype sql_arg = SqlInt int32 | SqlString string

text \<open>
  \<open>s_query\<close> and \<open>s_update\<close> take the connection, the text of the prepared statement and the values
  bound to its parameters in order; a query gives the rows of its result, an update the number
  of affected rows. \<open>s_int\<close> and \<open>s_str\<close> read a column of a row.
\<close>

record ('x, 'row) sql_api =
  s_connect :: "string \<Rightarrow> string \<Rightarrow> string \<Rightarrow> 'x \<Rightarrow> nat option \<times> 'x"
  s_set_schema :: "nat \<Rightarrow> string \<Rightarrow> 'x \<Rightarrow> bool \<times> 'x"
  s_now :: "'x \<Rightarrow> int \<times> 'x"
  s_query :: "nat \<Rightarrow> string \<Rightarrow> sql_arg list \<Rightarrow> 'x \<Rightarrow> 'row list option \<times> 'x"
  s_update :: "nat \<Rightarrow> string \<Rightarrow> sql_arg list \<Rightarrow> 'x \<Rightarrow> int option \<times> 'x"
  s_int :: "'row \<Rightarrow> string \<Rightarrow> int32 option"
  s_str :: "'row \<Rightarrow> string \<Rightarrow> string option"

section \<open>The pool\<close>

record sql_connection =
  sc_con :: nat
  sc_last_oper_time :: int

record mysql_pool =
  mp_stop :: bool
  mp_url :: string
  mp_user :: string
  mp_pass :: string
  mp_schema :: string
  mp_size :: nat
  mp_conns :: "sql_connection list"
  mp_fail :: int
  mp_checking :: bool

text \<open>
  Opening one connection: \<open>None\<close> is an exception of \<open>connect\<close> or \<open>setSchema\<close>.
\<close>

definition open_con ::
  "('x, 'row) sql_api \<Rightarrow> string \<Rightarrow> string \<Rightarrow> string \<Rightarrow> string \<Rightarrow> 'x \<Rightarrow> nat option \<times> 'x" where
  "open_con S url user pass schema x =
    (case s_connect S url user pass x of
       (None, x1) \<Rightarrow> (None, x1)
     | (Some con, x1) \<Rightarrow> (case s_set_schema S con schema x1 of
           (ok, x2) \<Rightarrow> (if ok then Some con else None, x2)))"

text \<open>
  The constructor's loop: \<open>True\<close> when it ran to its end, \<open>False\<close> when an exception cut it short
  (the connections opened before it stay in the pool and the check thread is not started).
\<close>

fun fill_loop ::
  "('x, 'row) sql_api \<Rightarrow> string \<Rightarrow> string \<Rightarrow> string \<Rightarrow> string \<Rightarrow> nat \<Rightarrow> sql_connection list \<Rightarrow> 'x \<Rightarrow>
   (sql_connection list \<times> bool) \<times> 'x" where
  "fill_loop S url user pass schema 0 conns x = ((conns, True), x)"
| "fill_loop S url user pass schema (Suc n) conns x =
    (case open_con S url user pass schema x of
       (None, x1) \<Rightarrow> ((conns, False), x1)
     | (Some con, x1) \<Rightarrow> (case s_now S x1 of
           (timestamp, x2) \<Rightarrow>
             fill_loop S url user pass schema n
               (conns @ [\<lparr>sc_con = con, sc_last_oper_time = timestamp\<rparr>]) x2))"

definition MySqlPool_new ::
  "('x, 'row) sql_api \<Rightarrow> string \<Rightarrow> string \<Rightarrow> string \<Rightarrow> string \<Rightarrow> nat \<Rightarrow> (mysql_pool, 'x) m" where
  "MySqlPool_new S url user pass schema poolSize = (\<lambda>x.
    case fill_loop S url user pass schema poolSize [] x of
      ((conns, complete), y) \<Rightarrow>
        Ret \<lparr>mp_stop = False, mp_url = url, mp_user = user, mp_pass = pass, mp_schema = schema,
             mp_size = poolSize, mp_conns = conns, mp_fail = 0, mp_checking = complete\<rparr> y)"

definition mp_getConnection :: "(sql_connection option, mysql_pool) m" where
  "mp_getConnection = (\<lambda>p.
    if mp_stop p then Ret None p
    else case mp_conns p of
        [] \<Rightarrow> Blocked p
      | con # rest \<Rightarrow> Ret (Some con) (p\<lparr>mp_conns := rest\<rparr>))"

text \<open>
  The sections under the mutex that change the queue or the flag, with their notification. The check
  puts a connection back without looking at the flag.
\<close>

definition mp_return_section :: "sql_connection \<Rightarrow> mysql_pool \<Rightarrow> mysql_pool \<times> notice" where
  "mp_return_section con p =
    (if mp_stop p then (p, WakeNone) else (p\<lparr>mp_conns := mp_conns p @ [con]\<rparr>, WakeOne))"

definition mp_returnConnection :: "sql_connection \<Rightarrow> (unit, mysql_pool) m" where
  "mp_returnConnection con = (\<lambda>p. Ret () (fst (mp_return_section con p)))"

lemma mp_returnConnection_run:
  "mp_returnConnection con p =
    (if mp_stop p then Ret () p else Ret () (p\<lparr>mp_conns := mp_conns p @ [con]\<rparr>))"
  by (simp add: mp_returnConnection_def mp_return_section_def)

definition mp_stop_section :: "mysql_pool \<Rightarrow> mysql_pool \<times> notice" where
  "mp_stop_section p = (p\<lparr>mp_stop := True\<rparr>, WakeAll)"

definition mp_push_section :: "sql_connection \<Rightarrow> mysql_pool \<Rightarrow> mysql_pool \<times> notice" where
  "mp_push_section con p = (p\<lparr>mp_conns := mp_conns p @ [con]\<rparr>, WakeNone)"

definition mp_putback_section :: "sql_connection \<Rightarrow> mysql_pool \<Rightarrow> mysql_pool \<times> notice" where
  "mp_putback_section con p = (p\<lparr>mp_conns := mp_conns p @ [con]\<rparr>, WakeOne)"

definition mp_close :: "(unit, mysql_pool) m" where
  "mp_close = mmodify (\<lambda>p. fst (mp_stop_section p))"

definition mp_destroy :: "(unit, mysql_pool) m" where
  "mp_destroy = mseq mp_close (mmodify (\<lambda>p. p\<lparr>mp_conns := []\<rparr>))"

definition mp_reconnect :: "('x, 'row) sql_api \<Rightarrow> int \<Rightarrow> (bool, mysql_pool \<times> 'x) m" where
  "mp_reconnect S timestamp = (\<lambda>(p, x).
    case open_con S (mp_url p) (mp_user p) (mp_pass p) (mp_schema p) x of
      (None, x1) \<Rightarrow> Ret False (p, x1)
    | (Some con, x1) \<Rightarrow>
        Ret True (fst (mp_push_section \<lparr>sc_con = con, sc_last_oper_time = timestamp\<rparr> p), x1))"

text \<open>
  One round of the check on a connection taken from the pool: the scope guard puts it back when
  it is healthy (whether or not the pool was stopped in between); a failed ping counts it.
\<close>

definition mp_check_one :: "('x, 'row) sql_api \<Rightarrow> int \<Rightarrow> sql_connection \<Rightarrow> (unit, mysql_pool \<times> 'x) m" where
  "mp_check_one S timestamp con = (\<lambda>(p, x).
    if timestamp - sc_last_oper_time con \<ge> 5
    then (case s_query S (sc_con con) ''SELECT 1'' [] x of
        (Some _, x1) \<Rightarrow>
          Ret () (fst (mp_putback_section (con\<lparr>sc_last_oper_time := timestamp\<rparr>) p), x1)
      | (None, x1) \<Rightarrow> Ret () (p\<lparr>mp_fail := mp_fail p + 1\<rparr>, x1))
    else Ret () (fst (mp_putback_section con p), x))"

fun mp_check_loop :: "('x, 'row) sql_api \<Rightarrow> int \<Rightarrow> nat \<Rightarrow> (unit, mysql_pool \<times> 'x) m" where
  "mp_check_loop S timestamp 0 = mret ()"
| "mp_check_loop S timestamp (Suc n) = (\<lambda>(p, x).
    case mp_conns p of
      [] \<Rightarrow> Ret () (p, x)
    | con # rest \<Rightarrow>
        mseq (mp_check_one S timestamp con) (mp_check_loop S timestamp n) (p\<lparr>mp_conns := rest\<rparr>, x))"

fun mp_reconnect_loop :: "('x, 'row) sql_api \<Rightarrow> int \<Rightarrow> nat \<Rightarrow> (unit, mysql_pool \<times> 'x) m" where
  "mp_reconnect_loop S timestamp 0 = mret ()"
| "mp_reconnect_loop S timestamp (Suc n) = (\<lambda>(p, x).
    if mp_fail p > 0
    then mbind (mp_reconnect S timestamp) (\<lambda>ok.
        if ok
        then mseq (on_fst (mmodify (\<lambda>q. q\<lparr>mp_fail := mp_fail q - 1\<rparr>))) (mp_reconnect_loop S timestamp n)
        else mret ()) (p, x)
    else Ret () (p, x))"

definition mp_checkConnection :: "('x, 'row) sql_api \<Rightarrow> (unit, mysql_pool \<times> 'x) m" where
  "mp_checkConnection S =
    mbind (on_fst (mget (\<lambda>p. length (mp_conns p)))) (\<lambda>targetCount.
      mbind (ext_call (s_now S)) (\<lambda>timestamp.
        mseq (mp_check_loop S timestamp targetCount)
          (mbind (on_fst (mget (\<lambda>p. nat (mp_fail p)))) (mp_reconnect_loop S timestamp))))"

section \<open>The pool meets the contract\<close>

interpretation mp: conn_pool mp_conns mp_stop mp_getConnection mp_returnConnection
  by unfold_locales (auto simp: mp_getConnection_def mp_returnConnection_run)

lemmas mp_sections = mp_return_section_def mp_stop_section_def mp_push_section_def mp_putback_section_def

section \<open>The keep-alive check keeps the books\<close>

definition mp_handles :: "mysql_pool \<Rightarrow> nat list" where
  "mp_handles p = map sc_con (mp_conns p)"

definition mp_owned :: "mysql_pool \<Rightarrow> int" where
  "mp_owned p = int (length (mp_conns p)) + mp_fail p"

lemma mp_check_one_owned:
  "\<exists>q y. mp_check_one S ts c (p, x) = Ret () (q, y) \<and> mp_stop q = mp_stop p \<and>
     mp_fail p \<le> mp_fail q \<and> mp_owned q = mp_owned p + 1"
  by (auto simp: mp_check_one_def mp_putback_section_def mp_owned_def split: prod.splits option.splits)

lemma mp_check_loop_owned:
  "\<exists>q y. mp_check_loop S ts n (p, x) = Ret () (q, y) \<and> mp_stop q = mp_stop p \<and>
     mp_fail p \<le> mp_fail q \<and> mp_owned q = mp_owned p"
proof (induction n arbitrary: p x)
  case 0
  then show ?case by (simp add: run_simps)
next
  case (Suc n)
  show ?case
  proof (cases "mp_conns p")
    case Nil
    then show ?thesis by simp
  next
    case (Cons c cs)
    let ?q = "p\<lparr>mp_conns := cs\<rparr>"
    from mp_check_one_owned [of S ts c ?q x] obtain q y where
      q: "mp_check_one S ts c (?q, x) = Ret () (q, y)" "mp_stop q = mp_stop p"
        "mp_fail p \<le> mp_fail q" "mp_owned q = mp_owned ?q + 1" by auto
    from Cons have "mp_owned ?q + 1 = mp_owned p" by (simp add: mp_owned_def)
    with Suc.IH [of q y] q Cons show ?thesis by (auto simp: run_simps)
  qed
qed

lemma mp_reconnect_owned:
  "\<exists>ok q y. mp_reconnect S ts (p, x) = Ret ok (q, y) \<and> mp_stop q = mp_stop p \<and> mp_fail q = mp_fail p \<and>
     mp_owned q = mp_owned p + (if ok then 1 else 0)"
  by (auto simp: mp_reconnect_def mp_push_section_def mp_owned_def split: prod.splits option.splits)

lemma mp_reconnect_loop_owned:
  "0 \<le> mp_fail p \<Longrightarrow>
   \<exists>q y. mp_reconnect_loop S ts n (p, x) = Ret () (q, y) \<and> mp_stop q = mp_stop p \<and>
     0 \<le> mp_fail q \<and> mp_owned q = mp_owned p"
proof (induction n arbitrary: p x)
  case 0
  then show ?case by (simp add: run_simps)
next
  case (Suc n)
  from mp_reconnect_owned [of S ts p x] obtain ok q y where
    rc: "mp_reconnect S ts (p, x) = Ret ok (q, y)" "mp_stop q = mp_stop p" "mp_fail q = mp_fail p"
      "mp_owned q = mp_owned p + (if ok then 1 else 0)" by blast
  from rc Suc.prems Suc.IH [of "q\<lparr>mp_fail := mp_fail q - 1\<rparr>" y] show ?case
    by (auto simp: run_simps mp_owned_def)
qed

text \<open>
  C33. The keep-alive check of the database pool always comes to its end and loses no connection:
  afterwards as many are idle or counted for replacement as before, and it does not touch the
  stop flag.
\<close>

theorem mp_checkConnection_owned:
  assumes "0 \<le> mp_fail p"
  shows "\<exists>q y. mp_checkConnection S (p, x) = Ret () (q, y) \<and> mp_stop q = mp_stop p \<and> 0 \<le> mp_fail q \<and>
    int (length (mp_conns q)) + mp_fail q = int (length (mp_conns p)) + mp_fail p"
proof -
  let ?ts = "fst (s_now S x)" and ?x = "snd (s_now S x)"
  from mp_check_loop_owned [of S ?ts "length (mp_conns p)" p ?x] obtain q y where
    q: "mp_check_loop S ?ts (length (mp_conns p)) (p, ?x) = Ret () (q, y)" "mp_stop q = mp_stop p"
      "mp_fail p \<le> mp_fail q" "mp_owned q = mp_owned p" by blast
  with assms have "0 \<le> mp_fail q" by simp
  from mp_reconnect_loop_owned [OF this, of S ?ts "nat (mp_fail q)" y] obtain r z where
    r: "mp_reconnect_loop S ?ts (nat (mp_fail q)) (q, y) = Ret () (r, z)" "mp_stop r = mp_stop q"
      "0 \<le> mp_fail r" "mp_owned r = mp_owned q" by blast
  from q r show ?thesis
    by (simp add: mp_checkConnection_def run_simps mp_owned_def)
qed

text \<open>A server that answers every ping keeps every connection, in the same order.\<close>

definition pings_answered :: "('x, 'row) sql_api \<Rightarrow> bool" where
  "pings_answered S \<longleftrightarrow> (\<forall>c x. \<exists>rows y. s_query S c ''SELECT 1'' [] x = (Some rows, y))"

lemma mp_check_one_answered:
  assumes "pings_answered S"
  shows "\<exists>c' y. sc_con c' = sc_con c \<and>
     mp_check_one S ts c (p, x) = Ret () (p\<lparr>mp_conns := mp_conns p @ [c']\<rparr>, y)"
proof -
  from assms obtain rows y where "s_query S (sc_con c) ''SELECT 1'' [] x = (Some rows, y)"
    unfolding pings_answered_def by blast
  then show ?thesis
    by (cases "ts - sc_last_oper_time c \<ge> 5")
      (auto simp: mp_check_one_def mp_putback_section_def intro: exI [of _ "c\<lparr>sc_last_oper_time := ts\<rparr>"])
qed

lemma mp_check_loop_answered:
  assumes "pings_answered S"
  shows "n \<le> length (mp_conns p) \<Longrightarrow>
    \<exists>cs y. mp_check_loop S ts n (p, x) = Ret () (p\<lparr>mp_conns := cs\<rparr>, y) \<and>
      map sc_con cs = drop n (mp_handles p) @ take n (mp_handles p)"
proof (induction n arbitrary: p x)
  case 0
  then show ?case by (auto simp: run_simps mp_handles_def intro: exI [of _ "mp_conns p"])
next
  case (Suc n)
  then obtain c rest where c: "mp_conns p = c # rest" by (cases "mp_conns p") auto
  from mp_check_one_answered [OF assms, of c ts "p\<lparr>mp_conns := rest\<rparr>" x] obtain c' y where
    one: "sc_con c' = sc_con c"
      "mp_check_one S ts c (p\<lparr>mp_conns := rest\<rparr>, x) = Ret () (p\<lparr>mp_conns := rest @ [c']\<rparr>, y)"
    by auto
  from Suc.prems c have "n \<le> length (mp_conns (p\<lparr>mp_conns := rest @ [c']\<rparr>))" by simp
  from Suc.IH [OF this, of y] Suc.prems one c show ?case
    by (auto simp: run_simps mp_handles_def)
qed

text \<open>
  When the server answers every ping, the keep-alive check leaves the pool with the same
  connections in the same order, and with nothing to replace.
\<close>

theorem mp_checkConnection_healthy:
  assumes "pings_answered S" and "mp_fail p = 0"
  shows "\<exists>q y. mp_checkConnection S (p, x) = Ret () (q, y) \<and> mp_fail q = 0 \<and>
    map sc_con (mp_conns q) = map sc_con (mp_conns p)"
proof -
  let ?ts = "fst (s_now S x)" and ?x = "snd (s_now S x)"
  from mp_check_loop_answered [OF assms(1), of "length (mp_conns p)" p ?ts ?x] obtain cs y where
    "mp_check_loop S ?ts (length (mp_conns p)) (p, ?x) = Ret () (p\<lparr>mp_conns := cs\<rparr>, y)"
    "map sc_con cs = mp_handles p" by (auto simp: mp_handles_def)
  with assms(2) show ?thesis
    by (simp add: mp_checkConnection_def run_simps mp_handles_def)
qed

end
