(* ===== verification/MySqlDao.thy ===== *)
theory MySqlDao
  imports MySqlPool ConfigMgr
begin

text \<open>
  \<open>src/infra/mysql/MySqlDao.cpp\<close> and \<open>MySqlMgr.cpp\<close>: the statements the server runs on its
  database. Each operation borrows a connection for its scope, prepares and runs one statement
  (the text below is the source's), and turns a missing connection or an exception into a null
  result or \<open>false\<close>. The tables are the database server's: what a statement answers is a
  parameter. An out-parameter is a component of the result.
\<close>

type_synonym 'x dao_state = "mysql_pool \<times> 'x"

definition sql_query ::
  "('x, 'row) sql_api \<Rightarrow> sql_connection \<Rightarrow> string \<Rightarrow> sql_arg list \<Rightarrow> ('row list, 'x dao_state) m" where
  "sql_query S con stmt args =
    mbind (ext_call (s_query S (sc_con con) stmt args)) (mlift SqlException)"

definition sql_update ::
  "('x, 'row) sql_api \<Rightarrow> sql_connection \<Rightarrow> string \<Rightarrow> sql_arg list \<Rightarrow> (int, 'x dao_state) m" where
  "sql_update S con stmt args =
    mbind (ext_call (s_update S (sc_con con) stmt args)) (mlift SqlException)"

definition row_int :: "('x, 'row) sql_api \<Rightarrow> 'row \<Rightarrow> string \<Rightarrow> (int32, 's) m" where
  "row_int S row col = mlift SqlException (s_int S row col)"

definition row_str :: "('x, 'row) sql_api \<Rightarrow> 'row \<Rightarrow> string \<Rightarrow> (string, 's) m" where
  "row_str S row col = mlift SqlException (s_str S row col)"

definition MySqlDao_new :: "('x, 'row) sql_api \<Rightarrow> config \<Rightarrow> (mysql_pool, 'x) m" where
  "MySqlDao_new S cfg =
    MySqlPool_new S (cfg_get cfg ''MySql'' ''Host'' @ '':'' @ cfg_get cfg ''MySql'' ''Port'')
      (cfg_get cfg ''MySql'' ''User'') (cfg_get cfg ''MySql'' ''Passwd'')
      (cfg_get cfg ''MySql'' ''Schema'') 5"

definition MySqlDao_destroy :: "(unit, 'x dao_state) m" where
  "MySqlDao_destroy = on_fst mp_close"

section \<open>Users\<close>

text \<open>The body of the \<open>while (res->next())\<close> loop, left by its \<open>break\<close> after the first row.\<close>

definition read_user :: "('x, 'row) sql_api \<Rightarrow> 'row \<Rightarrow> (UserInfo, 's) m" where
  "read_user S row =
    mbind (row_int S row ''uid'') (\<lambda>uid.
    mbind (row_str S row ''pwd'') (\<lambda>pwd.
    mbind (row_str S row ''email'') (\<lambda>email.
    mbind (row_str S row ''name'') (\<lambda>name.
    mbind (row_str S row ''nick'') (\<lambda>nick.
    mbind (row_str S row ''desc'') (\<lambda>desc.
    mbind (row_int S row ''sex'') (\<lambda>sex.
    mbind (row_str S row ''icon'') (\<lambda>icon.
      mret (new_UserInfo\<lparr>ui_uid := uid, ui_pwd := pwd, ui_email := email, ui_name := name,
        ui_nick := (if nick = [] then name else nick), ui_desc := desc, ui_sex := sex,
        ui_icon := icon, ui_back := [], ui_alias_name := []\<rparr>)))))))))"

definition first_user :: "('x, 'row) sql_api \<Rightarrow> 'row list \<Rightarrow> (UserInfo option, 's) m" where
  "first_user S rows = (case rows of
      [] \<Rightarrow> mret None
    | row # _ \<Rightarrow> mbind (read_user S row) (\<lambda>u. mret (Some u)))"

definition dao_getUserInfo :: "('x, 'row) sql_api \<Rightarrow> int32 \<Rightarrow> (UserInfo option, 'x dao_state) m" where
  "dao_getUserInfo S uid =
    with_conn mp_getConnection mp_returnConnection (mret None) (\<lambda>con.
      catch_sql
        (mbind (sql_query S con
            ''SELECT uid, name, nick, `desc`, sex, icon, email, pwd FROM user WHERE uid = ?''
            [SqlInt uid]) (first_user S))
        (mret None))"

definition dao_getUserInfo_name ::
  "('x, 'row) sql_api \<Rightarrow> string \<Rightarrow> (UserInfo option, 'x dao_state) m" where
  "dao_getUserInfo_name S name =
    with_conn mp_getConnection mp_returnConnection (mret None) (\<lambda>con.
      catch_sql
        (mbind (sql_query S con
            ''SELECT uid, name, nick, `desc`, sex, icon, email, pwd FROM user WHERE name = ?''
            [SqlString name]) (first_user S))
        (mret None))"

section \<open>Friend applications\<close>

definition dao_addFriendApply ::
  "('x, 'row) sql_api \<Rightarrow> int32 \<Rightarrow> int32 \<Rightarrow> string \<Rightarrow> (bool, 'x dao_state) m" where
  "dao_addFriendApply S uid touid apply_alias_name =
    with_conn mp_getConnection mp_returnConnection (mret False) (\<lambda>con.
      catch_sql
        (mbind (sql_update S con
            (''INSERT INTO friend_apply (from_uid,to_uid,alias_name) VALUES (?,?,?)'' @
             '' ON DUPLICATE KEY UPDATE alias_name = VALUES(alias_name)'')
            [SqlInt uid, SqlInt touid, SqlString apply_alias_name])
          (\<lambda>row_affected. if row_affected < 0 then mret False else mret True))
        (mret False))"

text \<open>
  The rows of the application list: what was read before a row fails stays in the list.
\<close>

definition read_apply :: "('x, 'row) sql_api \<Rightarrow> 'row \<Rightarrow> ApplyInfo option" where
  "read_apply S row =
    Option.bind (s_int S row ''from_uid'') (\<lambda>from_uid.
    Option.bind (s_int S row ''status'') (\<lambda>status.
    Option.bind (s_str S row ''name'') (\<lambda>name.
    Option.bind (s_str S row ''nick'') (\<lambda>nick.
    Option.bind (s_int S row ''sex'') (\<lambda>sex.
    Option.bind (s_str S row ''alias_name'') (\<lambda>apply_alias.
      Some (new_ApplyInfo from_uid name [] [] (if nick = [] then name else nick) sex status
        apply_alias)))))))"

fun read_applies :: "('x, 'row) sql_api \<Rightarrow> 'row list \<Rightarrow> ApplyInfo list \<Rightarrow> bool \<times> ApplyInfo list" where
  "read_applies S [] list = (True, list)"
| "read_applies S (row # rows) list = (case read_apply S row of
      None \<Rightarrow> (False, list)
    | Some info \<Rightarrow> read_applies S rows (list @ [info]))"

definition dao_getApplyList ::
  "('x, 'row) sql_api \<Rightarrow> int32 \<Rightarrow> ApplyInfo list \<Rightarrow> int32 \<Rightarrow> int32 \<Rightarrow>
   (bool \<times> ApplyInfo list, 'x dao_state) m" where
  "dao_getApplyList S touid list begin_id limit =
    with_conn mp_getConnection mp_returnConnection (mret (False, list)) (\<lambda>con.
      catch_sql
        (mbind (sql_query S con
            (''SELECT apply.from_uid, apply.status, apply.alias_name, user.name, user.nick, user.sex '' @
             ''FROM friend_apply AS apply JOIN user ON apply.from_uid = user.uid '' @
             ''WHERE apply.to_uid = ? AND apply.id > ? ORDER BY apply.id ASC LIMIT ?'')
            [SqlInt touid, SqlInt begin_id, SqlInt limit])
          (\<lambda>rows. mret (read_applies S rows list)))
        (mret (False, list)))"

definition first_alias :: "('x, 'row) sql_api \<Rightarrow> 'row list \<Rightarrow> (bool \<times> string, 's) m" where
  "first_alias S rows = (case rows of
      [] \<Rightarrow> mret (False, [])
    | row # _ \<Rightarrow> mbind (row_str S row ''alias_name'') (\<lambda>out_alias. mret (True, out_alias)))"

definition dao_getFriendApplyAlias ::
  "('x, 'row) sql_api \<Rightarrow> int32 \<Rightarrow> int32 \<Rightarrow> (bool \<times> string, 'x dao_state) m" where
  "dao_getFriendApplyAlias S from_uid to_uid =
    with_conn mp_getConnection mp_returnConnection (mret (False, [])) (\<lambda>con.
      catch_sql
        (mbind (sql_query S con
            ''SELECT alias_name FROM friend_apply WHERE from_uid = ? AND to_uid = ? LIMIT 1''
            [SqlInt from_uid, SqlInt to_uid]) (first_alias S))
        (mret (False, [])))"

definition dao_getFriendAlias ::
  "('x, 'row) sql_api \<Rightarrow> int32 \<Rightarrow> int32 \<Rightarrow> (bool \<times> string, 'x dao_state) m" where
  "dao_getFriendAlias S self_id friend_id =
    with_conn mp_getConnection mp_returnConnection (mret (False, [])) (\<lambda>con.
      catch_sql
        (mbind (sql_query S con
            ''SELECT alias_name FROM friend WHERE self_id = ? AND friend_id = ? LIMIT 1''
            [SqlInt self_id, SqlInt friend_id]) (first_alias S))
        (mret (False, [])))"

definition dao_authFriendApply :: "('x, 'row) sql_api \<Rightarrow> int32 \<Rightarrow> int32 \<Rightarrow> (bool, 'x dao_state) m" where
  "dao_authFriendApply S uid touid =
    with_conn mp_getConnection mp_returnConnection (mret False) (\<lambda>con.
      catch_sql
        (mbind (sql_update S con
            (''UPDATE friend_apply SET status = 1 '' @ ''WHERE from_uid = ? AND to_uid = ?'')
            [SqlInt uid, SqlInt touid]) (\<lambda>row_affected. mret (row_affected > 0)))
        (mret False))"

section \<open>Friends\<close>

definition insert_friend_stmt :: string where
  "insert_friend_stmt =
    ''INSERT IGNORE INTO friend(self_id,friend_id,alias_name) '' @ ''values (?,?,?)''"

definition dao_addFriend ::
  "('x, 'row) sql_api \<Rightarrow> int32 \<Rightarrow> int32 \<Rightarrow> string \<Rightarrow> string \<Rightarrow> (bool, 'x dao_state) m" where
  "dao_addFriend S applicant_uid accepter_uid alias_applicant_for_accepter alias_accepter_for_applicant =
    with_conn mp_getConnection mp_returnConnection (mret False) (\<lambda>con.
      catch_sql
        (mbind (sql_update S con insert_friend_stmt
            [SqlInt applicant_uid, SqlInt accepter_uid, SqlString alias_applicant_for_accepter])
          (\<lambda>row_affected.
         mbind (sql_update S con insert_friend_stmt
            [SqlInt accepter_uid, SqlInt applicant_uid, SqlString alias_accepter_for_applicant])
          (\<lambda>row_affected2. mret (row_affected > 0 \<or> row_affected2 > 0))))
        (mret False))"

text \<open>
  Each row of the friend list asks for the friend's record, with a second connection of the pool
  while the first is still borrowed; a friend without a record is skipped, a row that cannot be
  read ends the list.
\<close>

fun friend_rows ::
  "('x, 'row) sql_api \<Rightarrow> 'row list \<Rightarrow> UserInfo list \<Rightarrow> (bool \<times> UserInfo list, 'x dao_state) m" where
  "friend_rows S [] list = mret (True, list)"
| "friend_rows S (row # rows) list = (case s_int S row ''friend_id'' of
      None \<Rightarrow> mret (False, list)
    | Some friend_id \<Rightarrow> (case s_str S row ''alias_name'' of
        None \<Rightarrow> mret (False, list)
      | Some row_alias \<Rightarrow> mbind (dao_getUserInfo S friend_id) (\<lambda>base. case base of
            None \<Rightarrow> friend_rows S rows list
          | Some b \<Rightarrow> friend_rows S rows (list @ [b\<lparr>ui_alias_name := row_alias\<rparr>]))))"

definition dao_getFriendList ::
  "('x, 'row) sql_api \<Rightarrow> int32 \<Rightarrow> UserInfo list \<Rightarrow> (bool \<times> UserInfo list, 'x dao_state) m" where
  "dao_getFriendList S uid list =
    with_conn mp_getConnection mp_returnConnection (mret (False, list)) (\<lambda>con.
      catch_sql
        (mbind (sql_query S con ''SELECT * FROM friend WHERE self_id = ?'' [SqlInt uid])
          (\<lambda>rows. friend_rows S rows list))
        (mret (False, list)))"

section \<open>MySqlMgr\<close>

definition mgr_getUserInfo where "mgr_getUserInfo S uid = dao_getUserInfo S uid"
definition mgr_getUserInfo_name where "mgr_getUserInfo_name S name = dao_getUserInfo_name S name"
definition mgr_addFriendApply where
  "mgr_addFriendApply S uid touid apply_alias_name = dao_addFriendApply S uid touid apply_alias_name"
definition mgr_getFriendAlias where
  "mgr_getFriendAlias S self_id friend_id = dao_getFriendAlias S self_id friend_id"
definition mgr_getFriendApplyAlias where
  "mgr_getFriendApplyAlias S from_uid to_uid = dao_getFriendApplyAlias S from_uid to_uid"
definition mgr_getApplyList where
  "mgr_getApplyList S touid list = dao_getApplyList S touid list 0 10"
definition mgr_authFriendApply where
  "mgr_authFriendApply S uid touid = dao_authFriendApply S uid touid"
definition mgr_addFriend where
  "mgr_addFriend S applicant_uid accepter_uid alias1 alias2 =
    dao_addFriend S applicant_uid accepter_uid alias1 alias2"
definition mgr_getFriendList where
  "mgr_getFriendList S uid list = dao_getFriendList S uid list"

lemmas mgr_defs = mgr_getUserInfo_def mgr_getUserInfo_name_def mgr_addFriendApply_def
  mgr_getFriendAlias_def mgr_getFriendApplyAlias_def mgr_getApplyList_def mgr_authFriendApply_def
  mgr_addFriend_def mgr_getFriendList_def

section \<open>Every operation gives its connection back\<close>

lemma neutral_sql_query [quiet]: "pool_neutral (sql_query S con stmt args)"
  unfolding sql_query_def by (intro quiet)

lemma neutral_sql_update [quiet]: "pool_neutral (sql_update S con stmt args)"
  unfolding sql_update_def by (intro quiet)

lemma neutral_row_int [quiet]: "pool_neutral (row_int S row col)"
  unfolding row_int_def by (intro quiet)

lemma neutral_row_str [quiet]: "pool_neutral (row_str S row col)"
  unfolding row_str_def by (intro quiet)

lemma neutral_read_user [quiet]: "pool_neutral (read_user S row)"
  unfolding read_user_def by (intro quiet)

lemma neutral_first_user [quiet]: "pool_neutral (first_user S rows)"
  unfolding first_user_def by (cases rows) (auto intro!: quiet)

lemma neutral_first_alias [quiet]: "pool_neutral (first_alias S rows)"
  unfolding first_alias_def by (cases rows) (auto intro!: quiet)

definition mrotates :: "mysql_pool \<Rightarrow> ('a, 'x dao_state) outcome \<Rightarrow> bool" where
  "mrotates p r \<longleftrightarrow> (\<exists>a q y. r = Ret a (q, y) \<and> \<not> mp_stop q \<and> mp_conns q = rotate1 (mp_conns p))"

lemma mrotates_quiet:
  assumes "\<not> mp_stop p" and "mp_conns p \<noteq> []" and "\<And>con. pool_quiet (body con)"
  shows "mrotates p (with_conn mp_getConnection mp_returnConnection none body (p, x))"
proof -
  from assms(2) obtain c cs where c: "mp_conns p = c # cs" by (cases "mp_conns p") auto
  from mp.with_conn_quiet [where body = body, OF assms(1) c assms(3), of none x] c
  show ?thesis by (auto simp: mrotates_def)
qed

text \<open>
  C35. On a running pool with an idle connection each single-statement operation of the database
  layer returns, whatever the database answers or throws, and gives its connection back.
\<close>

theorem dao_operations_give_back:
  assumes "\<not> mp_stop p" and "mp_conns p \<noteq> []"
  shows "mrotates p (dao_getUserInfo S uid (p, x)) \<and>
    mrotates p (dao_getUserInfo_name S name (p, x)) \<and>
    mrotates p (dao_addFriendApply S uid touid name (p, x)) \<and>
    mrotates p (dao_getApplyList S touid list b l (p, x)) \<and>
    mrotates p (dao_getFriendApplyAlias S uid touid (p, x)) \<and>
    mrotates p (dao_getFriendAlias S uid touid (p, x)) \<and>
    mrotates p (dao_authFriendApply S uid touid (p, x)) \<and>
    mrotates p (dao_addFriend S uid touid name alias (p, x))"
  unfolding dao_getUserInfo_def dao_getUserInfo_name_def dao_addFriendApply_def dao_getApplyList_def
    dao_getFriendApplyAlias_def dao_getFriendAlias_def dao_authFriendApply_def dao_addFriend_def
  by (intro conjI mrotates_quiet assms quiet) (auto intro!: quiet)

section \<open>What the user queries give\<close>

text \<open>The record of a row, if all its columns can be read.\<close>

definition row_user :: "('x, 'row) sql_api \<Rightarrow> 'row \<Rightarrow> UserInfo option" where
  "row_user S row =
    Option.bind (s_int S row ''uid'') (\<lambda>uid.
    Option.bind (s_str S row ''pwd'') (\<lambda>pwd.
    Option.bind (s_str S row ''email'') (\<lambda>email.
    Option.bind (s_str S row ''name'') (\<lambda>name.
    Option.bind (s_str S row ''nick'') (\<lambda>nick.
    Option.bind (s_str S row ''desc'') (\<lambda>desc.
    Option.bind (s_int S row ''sex'') (\<lambda>sex.
    Option.bind (s_str S row ''icon'') (\<lambda>icon.
      Some \<lparr>ui_name = name, ui_pwd = pwd, ui_uid = uid, ui_email = email,
        ui_nick = (if nick = [] then name else nick), ui_desc = desc, ui_sex = sex, ui_icon = icon,
        ui_back = [], ui_alias_name = []\<rparr>))))))))"

lemma read_user_run [run_simps]:
  "read_user S row s = (case row_user S row of None \<Rightarrow> Throw SqlException s | Some u \<Rightarrow> Ret u s)"
  by (auto simp: read_user_def row_user_def row_int_def row_str_def new_UserInfo_def run_simps
      mlift_def split: option.splits bind_splits)

lemma row_user_nick: "row_user S row = Some u \<Longrightarrow> ui_name u \<noteq> [] \<Longrightarrow> ui_nick u \<noteq> []"
  by (auto simp: row_user_def split: if_splits bind_splits)

definition result_user :: "('x, 'row) sql_api \<Rightarrow> 'row list option \<Rightarrow> UserInfo option" where
  "result_user S res = (case res of Some (row # _) \<Rightarrow> row_user S row | _ \<Rightarrow> None)"

abbreviation user_stmt :: string where
  "user_stmt \<equiv> ''SELECT uid, name, nick, `desc`, sex, icon, email, pwd FROM user WHERE uid = ?''"

lemma catch_first_user:
  "catch_sql (mbind (sql_query S con stmt args) (first_user S)) (mret None) (p, x) =
    Ret (result_user S (fst (s_query S (sc_con con) stmt args x)))
      (p, snd (s_query S (sc_con con) stmt args x))"
  by (cases "s_query S (sc_con con) stmt args x")
    (auto simp: sql_query_def first_user_def result_user_def run_simps mlift_def
      split: option.splits list.splits)

lemma dao_getUserInfo_run:
  assumes "\<not> mp_stop p" and "mp_conns p = c # cs"
  shows "dao_getUserInfo S uid (p, x) =
    Ret (result_user S (fst (s_query S (sc_con c) user_stmt [SqlInt uid] x)))
      (p\<lparr>mp_conns := cs @ [c]\<rparr>, snd (s_query S (sc_con c) user_stmt [SqlInt uid] x))"
  using assms
  by (simp add: dao_getUserInfo_def with_conn_def run_simps mp_getConnection_def catch_first_user
      mp_returnConnection_run del: catch_sql_run)

text \<open>
  Asking for a user gives the record of the first row of the answer, its nickname replaced by
  the name where it is empty, and nothing where the answer is empty, a column cannot be read or
  the database throws; the borrowed connection is back at the end of the queue.
\<close>

theorem dao_getUserInfo_result:
  assumes "\<not> mp_stop p" and "mp_conns p = c # cs"
  shows "dao_getUserInfo S uid (p, x) =
    Ret (result_user S (fst (s_query S (sc_con c) user_stmt [SqlInt uid] x)))
      (p\<lparr>mp_conns := cs @ [c]\<rparr>, snd (s_query S (sc_con c) user_stmt [SqlInt uid] x))"
  using assms by (rule dao_getUserInfo_run)

lemma dao_getUserInfo_idle:
  assumes "\<not> mp_stop p" and "mp_conns p \<noteq> []"
  shows "mrotates p (dao_getUserInfo S uid (p, x))"
  unfolding dao_getUserInfo_def by (intro mrotates_quiet assms quiet)

section \<open>The friend list needs two connections\<close>

lemma friend_rows_keep:
  "\<not> mp_stop p \<Longrightarrow> mp_conns p \<noteq> [] \<Longrightarrow>
   \<exists>r q y. friend_rows S rows list (p, x) = Ret r (q, y) \<and> \<not> mp_stop q \<and>
     mset (mp_conns q) = mset (mp_conns p)"
proof (induction rows arbitrary: list p x)
  case Nil
  then show ?case by (auto simp: run_simps intro: exI [of _ True])
next
  case (Cons row rows)
  show ?case
  proof (cases "s_int S row ''friend_id'' = None \<or> s_str S row ''alias_name'' = None")
    case True
    with Cons.prems show ?thesis
      by (auto simp: run_simps split: option.splits intro: exI [of _ True])
  next
    case False
    then obtain fid al where f: "s_int S row ''friend_id'' = Some fid" "s_str S row ''alias_name'' = Some al"
      by auto
    from dao_getUserInfo_idle [OF Cons.prems, of S fid x] obtain b q y where
      q: "dao_getUserInfo S fid (p, x) = Ret b (q, y)" "\<not> mp_stop q" "mp_conns q = rotate1 (mp_conns p)"
      unfolding mrotates_def by blast
    with Cons.prems have "mp_conns q \<noteq> []" by simp
    note ih = Cons.IH [OF q(2) this]
    show ?thesis
    proof (cases b)
      case None
      with f q ih [of list y] show ?thesis by (simp add: run_simps)
    next
      case (Some u)
      with f q ih [of "list @ [u\<lparr>ui_alias_name := al\<rparr>]" y] show ?thesis by (simp add: run_simps)
    qed
  qed
qed

text \<open>
  C31. With two idle connections or more the friend list is always answered and the pool keeps its
  connections; with a single one it waits for itself: it holds the connection it asks for, so a
  list with a readable friend never returns.
\<close>

theorem dao_getFriendList_connections:
  assumes "\<not> mp_stop p" and "mp_conns p = c # cs"
    and "s_query S (sc_con c) ''SELECT * FROM friend WHERE self_id = ?'' [SqlInt uid] x = (Some (row # rows), x1)"
    and "s_int S row ''friend_id'' = Some fid" and "s_str S row ''alias_name'' = Some al"
  shows "(cs \<noteq> [] \<longrightarrow> (\<exists>r q y. dao_getFriendList S uid list (p, x) = Ret r (q, y) \<and>
            mset (mp_conns q) = mset (mp_conns p))) \<and>
    (cs = [] \<longrightarrow> dao_getFriendList S uid list (p, x) = Blocked (p\<lparr>mp_conns := []\<rparr>, x1))"
proof (intro conjI impI)
  assume "cs \<noteq> []"
  with assms(1) friend_rows_keep [of "p\<lparr>mp_conns := cs\<rparr>" S "row # rows" list x1] obtain r q y where
    q: "friend_rows S (row # rows) list (p\<lparr>mp_conns := cs\<rparr>, x1) = Ret r (q, y)" "\<not> mp_stop q"
      "mset (mp_conns q) = mset cs" by auto
  show "\<exists>r q y. dao_getFriendList S uid list (p, x) = Ret r (q, y) \<and>
      mset (mp_conns q) = mset (mp_conns p)"
    using assms(1-3) q
    by (simp add: dao_getFriendList_def with_conn_def run_simps mp_getConnection_def sql_query_def
        mp_returnConnection_run del: friend_rows.simps)
next
  assume "cs = []"
  with assms show "dao_getFriendList S uid list (p, x) = Blocked (p\<lparr>mp_conns := []\<rparr>, x1)"
    by (simp add: dao_getFriendList_def with_conn_def run_simps mp_getConnection_def sql_query_def
        dao_getUserInfo_def)
qed

section \<open>What the friend list holds\<close>

text \<open>
  \<open>reads_users\<close>: the database answers the user query from a table, on every connection and
  without a change of its state.
\<close>

definition reads_users :: "('x, 'row) sql_api \<Rightarrow> ('x \<Rightarrow> int32 \<Rightarrow> 'row list) \<Rightarrow> bool" where
  "reads_users S T \<longleftrightarrow> (\<forall>c uid x. s_query S c user_stmt [SqlInt uid] x = (Some (T x uid), x))"

definition friend_of ::
  "('x, 'row) sql_api \<Rightarrow> ('x \<Rightarrow> int32 \<Rightarrow> 'row list) \<Rightarrow> 'x \<Rightarrow> 'row \<Rightarrow> UserInfo list" where
  "friend_of S T x row =
    (case (s_int S row ''friend_id'', s_str S row ''alias_name'') of
      (Some fid, Some al) \<Rightarrow> (case result_user S (Some (T x fid)) of
          None \<Rightarrow> [] | Some u \<Rightarrow> [u\<lparr>ui_alias_name := al\<rparr>])
    | _ \<Rightarrow> [])"

definition row_readable :: "('x, 'row) sql_api \<Rightarrow> 'row \<Rightarrow> bool" where
  "row_readable S row \<longleftrightarrow> s_int S row ''friend_id'' \<noteq> None \<and> s_str S row ''alias_name'' \<noteq> None"

lemma friend_rows_list:
  assumes "reads_users S T"
  shows "\<not> mp_stop p \<Longrightarrow> mp_conns p \<noteq> [] \<Longrightarrow> list_all (row_readable S) rows \<Longrightarrow>
   \<exists>q. friend_rows S rows list (p, x) = Ret (True, list @ concat (map (friend_of S T x) rows)) (q, x)
     \<and> \<not> mp_stop q"
proof (induction rows arbitrary: list p)
  case Nil
  then show ?case by (simp add: run_simps)
next
  case (Cons row rows)
  then obtain fid al c cs where f: "s_int S row ''friend_id'' = Some fid" "s_str S row ''alias_name'' = Some al"
    "mp_conns p = c # cs"
    by (cases "mp_conns p") (auto simp: row_readable_def)
  let ?p = "p\<lparr>mp_conns := cs @ [c]\<rparr>"
  have g: "dao_getUserInfo S fid (p, x) = Ret (result_user S (Some (T x fid))) (?p, x)"
    using assms by (simp add: dao_getUserInfo_run [OF Cons.prems(1) f(3)] reads_users_def)
  show ?case
  proof (cases "result_user S (Some (T x fid))")
    case None
    with f g Cons.IH [of ?p list] Cons.prems show ?thesis by (simp add: run_simps friend_of_def)
  next
    case (Some u)
    with f g Cons.IH [of ?p "list @ [u\<lparr>ui_alias_name := al\<rparr>]"] Cons.prems show ?thesis
      by (simp add: run_simps friend_of_def)
  qed
qed

text \<open>
  The friend list of a user is, in the order of the rows of the friend table, the record of
  each friend that has one, with the alias of the row.
\<close>

theorem dao_getFriendList_result:
  assumes "\<not> mp_stop p" and "mp_conns p = c # d # cs" and "reads_users S T"
    and "s_query S (sc_con c) ''SELECT * FROM friend WHERE self_id = ?'' [SqlInt uid] x = (Some rows, x1)"
    and "list_all (row_readable S) rows"
  shows "\<exists>q. dao_getFriendList S uid [] (p, x) = Ret (True, concat (map (friend_of S T x1) rows)) (q, x1)"
proof -
  from friend_rows_list [OF assms(3), of "p\<lparr>mp_conns := d # cs\<rparr>" rows "[]" x1] assms(1,5) obtain q where
    q: "friend_rows S rows [] (p\<lparr>mp_conns := d # cs\<rparr>, x1) =
          Ret (True, concat (map (friend_of S T x1) rows)) (q, x1)" "\<not> mp_stop q" by auto
  then show ?thesis
    using assms(1,2,4)
    by (simp add: dao_getFriendList_def with_conn_def run_simps mp_getConnection_def sql_query_def
        mp_returnConnection_run)
qed

section \<open>Becoming friends is two separate insertions\<close>

text \<open>
  C34. Adding a friendship answers true exactly when both insertions run and one of them adds a
  row; when the second one throws, the answer is false although the first, one-sided row has been
  stored: nothing takes it back.
\<close>

theorem dao_addFriend_result:
  assumes "\<not> mp_stop p" and "mp_conns p = c # cs"
    and "s_update S (sc_con c) insert_friend_stmt
           [SqlInt applicant, SqlInt accepter, SqlString alias1] x = (r1, x1)"
    and "s_update S (sc_con c) insert_friend_stmt
           [SqlInt accepter, SqlInt applicant, SqlString alias2] x1 = (r2, x2)"
  shows "dao_addFriend S applicant accepter alias1 alias2 (p, x) =
    (case (r1, r2) of
       (None, _) \<Rightarrow> Ret False (p\<lparr>mp_conns := cs @ [c]\<rparr>, x1)
     | (Some n1, None) \<Rightarrow> Ret False (p\<lparr>mp_conns := cs @ [c]\<rparr>, x2)
     | (Some n1, Some n2) \<Rightarrow> Ret (n1 > 0 \<or> n2 > 0) (p\<lparr>mp_conns := cs @ [c]\<rparr>, x2))"
  using assms
  by (auto simp: dao_addFriend_def with_conn_def run_simps mp_getConnection_def sql_update_def
      mp_returnConnection_run mlift_def split: option.splits)

end
