(* ===== verification/UserMgr.thy ===== *)
theory UserMgr
  imports Prelude
begin

text \<open>
  \<open>src/application/UserMgr.cpp\<close>: which session a logged-in user has on this server. A session is
  known by a reference. The contract of such a table, an insertion that overwrites and an erasure
  of what need not be there, is a locale; the table of sessions by id that \<open>CServer\<close> keeps
  meets the same contract.
\<close>

section \<open>The contract of a table\<close>

locale registry =
  fixes find :: "'m \<Rightarrow> 'k \<Rightarrow> 'v option"
    and insert :: "'k \<Rightarrow> 'v \<Rightarrow> 'm \<Rightarrow> 'm"
    and erase :: "'k \<Rightarrow> 'm \<Rightarrow> 'm"
  assumes find_insert: "find (insert k v m) k' = (if k' = k then Some v else find m k')"
    and find_erase: "find (erase k m) k' = (if k' = k then None else find m k')"
begin

lemma find_inserted [simp]: "find (insert k v m) k = Some v"
  by (simp add: find_insert)

lemma find_erased [simp]: "find (erase k m) k = None"
  by (simp add: find_erase)

lemma erase_other: "k \<noteq> k' \<Longrightarrow> find (erase k m) k' = find m k'"
  by (simp add: find_erase)

text \<open>A later registration under the same key is lost with the erasure meant for an earlier one.\<close>

lemma erase_after_reinsert: "find (erase k (insert k w (insert k v m))) k = None"
  by simp

text \<open>What a run of registrations and erasures leaves under a key is up to the last one on it.\<close>

lemma find_run:
  "find (fold (\<lambda>(k, ov) m. case ov of None \<Rightarrow> erase k m | Some v \<Rightarrow> insert k v m) ops m) k =
    (case filter (\<lambda>(k', _). k' = k) (rev ops) of [] \<Rightarrow> find m k | (_, ov) # _ \<Rightarrow> ov)"
proof (induction ops arbitrary: m)
  case Nil
  then show ?case by simp
next
  case (Cons op ops)
  obtain k' ov where op: "op = (k', ov)" by (cases op)
  show ?case
    by (cases ov) (auto simp: op Cons find_insert find_erase split: list.splits)
qed

end

section \<open>UserMgr\<close>

type_synonym users = "int32 \<rightharpoonup> nat"

definition um_getSession :: "users \<Rightarrow> int32 \<Rightarrow> nat option" where
  "um_getSession um uid = um uid"

definition um_setUserSession :: "int32 \<Rightarrow> nat \<Rightarrow> users \<Rightarrow> users" where
  "um_setUserSession uid session um = um(uid \<mapsto> session)"

definition um_RemoveUserSession :: "int32 \<Rightarrow> users \<Rightarrow> users" where
  "um_RemoveUserSession uid um = um(uid := None)"

definition um_destroy :: "users \<Rightarrow> users" where
  "um_destroy um = Map.empty"

interpretation um: registry um_getSession um_setUserSession um_RemoveUserSession
  by unfold_locales (auto simp: um_getSession_def um_setUserSession_def um_RemoveUserSession_def)

end
