(* ===== verification/MsgNode.thy ===== *)
theory MsgNode
  imports Domain Utils
begin

text \<open>
  \<open>src/net/MsgNode.cpp\<close>: the buffers of received and sent messages and the packet format
  \<open>[2 bytes message id][2 bytes body length][body]\<close>, the numbers in network byte order. Lengths are
  \<open>short\<close>: a buffer of a negative length is an exception or undefined behaviour, and is modelled
  as such. The byte order of the host and the conversions \<open>host_to_network_short\<close> and
  \<open>network_to_host_short\<close> of the library are parameters.
\<close>

section \<open>Shorts in memory\<close>

datatype endian = Little | Big

record host =
  h_endian :: endian
  h_hton :: "int16 \<Rightarrow> int16"
  h_ntoh :: "int16 \<Rightarrow> int16"

definition lo_byte :: "int16 \<Rightarrow> char" where
  "lo_byte w = byte_char (ucast w)"

definition hi_byte :: "int16 \<Rightarrow> char" where
  "hi_byte w = byte_char (ucast (drop_bit 8 w))"

text \<open>\<open>memcpy\<close> of a \<open>short\<close> to and from a buffer.\<close>

definition store16 :: "endian \<Rightarrow> int16 \<Rightarrow> string" where
  "store16 e w = (case e of Little \<Rightarrow> [lo_byte w, hi_byte w] | Big \<Rightarrow> [hi_byte w, lo_byte w])"

definition join16 :: "char \<Rightarrow> char \<Rightarrow> int16" where
  "join16 hi lo = push_bit 8 (ucast (uchar hi)) OR ucast (uchar lo)"

definition load16 :: "endian \<Rightarrow> char \<Rightarrow> char \<Rightarrow> int16" where
  "load16 e a b = (case e of Little \<Rightarrow> join16 b a | Big \<Rightarrow> join16 a b)"

definition load16_at :: "endian \<Rightarrow> nat \<Rightarrow> string \<Rightarrow> int16 option" where
  "load16_at e off buf = (case take 2 (drop off buf) of [a, b] \<Rightarrow> Some (load16 e a b) | _ \<Rightarrow> None)"

definition swap16 :: "int16 \<Rightarrow> int16" where
  "swap16 w = join16 (lo_byte w) (hi_byte w)"

text \<open>The documented behaviour of the two conversions.\<close>

definition net_order :: "host \<Rightarrow> bool" where
  "net_order H \<longleftrightarrow>
    (\<forall>w. h_hton H w = (case h_endian H of Little \<Rightarrow> swap16 w | Big \<Rightarrow> w)) \<and>
    (\<forall>w. h_ntoh H w = (case h_endian H of Little \<Rightarrow> swap16 w | Big \<Rightarrow> w))"

section \<open>Nodes\<close>

record msg_node =
  mn_cur_len :: int16
  mn_total_len :: int16
  mn_data :: string

record recv_node = msg_node +
  rn_msg_id :: int16

record send_node = msg_node +
  sn_msg_id :: int16

text \<open>
  \<open>new char[total_len + 1]()\<close> throws for a negative size; \<open>_data[_total_len] = 0\<close> writes before an
  empty block.
\<close>

definition MsgNode_new :: "int16 \<Rightarrow> (msg_node, 's) m" where
  "MsgNode_new total_len =
    (if sint total_len + 1 < 0 then mthrow BadArrayNewLength
     else if sint total_len < 0 then mundef
     else mret \<lparr>mn_cur_len = 0, mn_total_len = total_len,
                mn_data = replicate (nat (sint total_len + 1)) (CHR 0x00)\<rparr>)"

definition mn_clear :: "msg_node \<Rightarrow> (msg_node, 's) m" where
  "mn_clear n =
    (if 0 \<le> sint (mn_total_len n) \<and> nat (sint (mn_total_len n)) \<le> length (mn_data n)
     then mret (n\<lparr>mn_data := replicate (nat (sint (mn_total_len n))) (CHR 0x00) @
                    drop (nat (sint (mn_total_len n))) (mn_data n), mn_cur_len := 0\<rparr>)
     else mundef)"

definition RecvNode_new :: "int16 \<Rightarrow> int16 \<Rightarrow> (recv_node, 's) m" where
  "RecvNode_new body_len msgid =
    mbind (MsgNode_new body_len) (\<lambda>n. mret (msg_node.extend n (recv_node.fields msgid)))"

text \<open>\<open>memcpy(_data + off, src, length src)\<close> on the buffer of a node.\<close>

definition mn_copy :: "nat \<Rightarrow> string \<Rightarrow> 'n msg_node_scheme \<Rightarrow> ('n msg_node_scheme, 's) m" where
  "mn_copy off src n = (case write_at off src (mn_data n) of
      None \<Rightarrow> mundef
    | Some d \<Rightarrow> mret (n\<lparr>mn_data := d\<rparr>))"

text \<open>\<open>body\<close> points at a text of which \<open>body_len\<close> bytes are read.\<close>

definition SendNode_new :: "host \<Rightarrow> string \<Rightarrow> int16 \<Rightarrow> int16 \<Rightarrow> (send_node, 's) m" where
  "SendNode_new H body body_len msgid =
    mbind (MsgNode_new (word_of_int (HEAD_TOTAL_LEN + sint body_len))) (\<lambda>n0.
    mbind (mn_copy 0 (store16 (h_endian H) (h_hton H msgid)) n0) (\<lambda>n1.
    mbind (mn_copy (nat HEAD_ID_LEN) (store16 (h_endian H) (h_hton H body_len)) n1) (\<lambda>n2.
    mguard (0 \<le> sint body_len \<and> nat (sint body_len) \<le> length body)
      (mbind (mn_copy (nat HEAD_TOTAL_LEN) (take (nat (sint body_len)) body) n2) (\<lambda>n3.
        mret (msg_node.extend (n3\<lparr>mn_cur_len := mn_total_len n3\<rparr>) (send_node.fields msgid)))))))"

text \<open>The bytes handed to \<open>async_write\<close>.\<close>

definition node_bytes :: "'n msg_node_scheme \<Rightarrow> string" where
  "node_bytes n = take (nat (sint (mn_total_len n))) (mn_data n)"

section \<open>Byte order\<close>

lemma ucast_byte_bits: "bit (ucast (b :: byte) :: int16) n = (n < 8 \<and> bit b n)"
  by (auto simp: bit_ucast_iff dest: bit_imp_le_length)

lemma join16_bytes [simp]: "join16 (hi_byte w) (lo_byte w) = w"
proof (rule bit_word_eqI)
  fix n assume "n < LENGTH(16)"
  then show "bit (join16 (hi_byte w) (lo_byte w)) n = bit w n"
    by (auto simp: join16_def hi_byte_def lo_byte_def bit_or_iff bit_push_bit_iff ucast_byte_bits
        bit_ucast_iff bit_drop_bit_eq)
qed

lemma hi_join16 [simp]: "hi_byte (join16 a b) = a"
proof -
  have "ucast (drop_bit 8 (join16 a b)) = uchar a"
    by (rule bit_word_eqI)
      (auto simp: join16_def bit_or_iff bit_push_bit_iff ucast_byte_bits bit_ucast_iff bit_drop_bit_eq)
  then show ?thesis by (simp add: hi_byte_def)
qed

lemma lo_join16 [simp]: "lo_byte (join16 a b) = b"
proof -
  have "ucast (join16 a b) = uchar b"
    by (rule bit_word_eqI)
      (auto simp: join16_def bit_or_iff bit_push_bit_iff ucast_byte_bits bit_ucast_iff)
  then show ?thesis by (simp add: lo_byte_def)
qed

definition be16 :: "int16 \<Rightarrow> string" where
  "be16 w = [hi_byte w, lo_byte w]"

lemma length_store16 [simp]: "length (store16 e w) = 2"
  by (cases e) (simp_all add: store16_def)

lemma length_be16 [simp]: "length (be16 w) = 2"
  by (simp add: be16_def)

text \<open>On either kind of host the converted short lies in memory with its high byte first.\<close>

lemma store16_hton: "net_order H \<Longrightarrow> store16 (h_endian H) (h_hton H w) = be16 w"
  by (cases "h_endian H") (simp_all add: net_order_def store16_def be16_def swap16_def)

lemma ntoh_load16: "net_order H \<Longrightarrow> h_ntoh H (load16 (h_endian H) a b) = join16 a b"
  by (cases "h_endian H") (simp_all add: net_order_def load16_def swap16_def)

section \<open>The packet format\<close>

definition packet :: "int16 \<Rightarrow> int16 \<Rightarrow> string \<Rightarrow> string" where
  "packet msgid body_len body = be16 msgid @ be16 body_len @ take (nat (sint body_len)) body"

lemma sint_word_of_int16: "- 32768 \<le> i \<Longrightarrow> i < 32768 \<Longrightarrow> sint (word_of_int i :: int16) = i"
  by (subst signed_of_int) (simp add: signed_take_bit_int_eq_self)
lemma SendNode_new_packet:
  assumes "net_order H" and "0 \<le> sint body_len" and "sint body_len \<le> 32763"
    and "nat (sint body_len) \<le> length body"
  shows "\<exists>n. SendNode_new H body body_len msgid s = Ret n s \<and>
    node_bytes n = packet msgid body_len body \<and> sn_msg_id n = msgid \<and>
    mn_cur_len n = mn_total_len n \<and> sint (mn_total_len n) = 4 + sint body_len"
proof -
  define k where "k = nat (sint body_len)"
  have k: "sint body_len = int k" "k \<le> 32763" "k \<le> length body"
    using assms(2-4) by (simp_all add: k_def)
  define total :: int16 where "total = word_of_int (4 + int k)"
  have t: "sint total = 4 + int k"
    unfolding total_def using k by (intro sint_word_of_int16) auto
  define buf where "buf = replicate (k + 1) (CHR 0x00)"
  have r: "replicate (nat (5 + int k)) (CHR 0x00) = CHR 0x00 # CHR 0x00 # CHR 0x00 # CHR 0x00 # buf"
  proof -
    have "nat (5 + int k) = Suc (Suc (Suc (Suc (k + 1))))" by simp
    then show ?thesis by (simp add: buf_def)
  qed
  have n0: "MsgNode_new total s = Ret \<lparr>mn_cur_len = 0, mn_total_len = total,
      mn_data = CHR 0x00 # CHR 0x00 # CHR 0x00 # CHR 0x00 # buf\<rparr> s" for s :: 's
    by (simp add: MsgNode_new_def run_simps t r[symmetric])
  have z: "drop k (CHR 0x00 # replicate k (CHR 0x00)) = [CHR 0x00]"
    by (induction k) simp_all
  have d: "drop (4 + k) (a # b # c # d # CHR 0x00 # replicate k (CHR 0x00)) = [CHR 0x00]"
    for a b c d :: char
    using z by (simp add: eval_nat_numeral)
  have n: "nat (4 + int k) = Suc (Suc (Suc (Suc k)))" by simp
  show ?thesis
    using k by (simp add: SendNode_new_def limit_defs run_simps total_def[symmetric] n0 mn_copy_def
        store16_hton [OF assms(1)] be16_def write_at_def buf_def d node_bytes_def packet_def
        msg_node.defs send_node.defs t n del: of_int_add)
qed

text \<open>
  C36. A message of at most 32763 bytes makes a node whose bytes on the wire are the message id,
  the body length and the body, the numbers high byte first whatever the byte order of the host;
  reading the two numbers back from the packet gives the id and the length.
\<close>

theorem SendNode_wire_format:
  assumes "net_order H" and "0 \<le> sint body_len" and "sint body_len \<le> 32763"
    and "nat (sint body_len) \<le> length body"
  shows "\<exists>n. SendNode_new H body body_len msgid s = Ret n s \<and>
    node_bytes n = be16 msgid @ be16 body_len @ take (nat (sint body_len)) body \<and>
    map_option (h_ntoh H) (load16_at (h_endian H) 0 (node_bytes n)) = Some msgid \<and>
    map_option (h_ntoh H) (load16_at (h_endian H) 2 (node_bytes n)) = Some body_len"
proof -
  from SendNode_new_packet [OF assms, of msgid s] obtain n where
    "SendNode_new H body body_len msgid s = Ret n s" "node_bytes n = packet msgid body_len body" by blast
  then show ?thesis
    by (simp add: packet_def be16_def load16_at_def ntoh_load16 [OF assms(1)] numeral_2_eq_2)
qed

lemma RecvNode_new_run:
  "RecvNode_new body_len msgid s =
    (if sint body_len < -1 then Throw BadArrayNewLength s
     else if sint body_len = -1 then Undef
     else Ret \<lparr>mn_cur_len = 0, mn_total_len = body_len,
               mn_data = replicate (nat (sint body_len + 1)) (CHR 0x00), rn_msg_id = msgid\<rparr> s)"
  by (simp add: RecvNode_new_def MsgNode_new_def run_simps msg_node.defs recv_node.defs)

text \<open>
  A buffer for a message of length minus one is written before its start, one of a smaller
  length is an exception, and every length from zero on is served.
\<close>

theorem RecvNode_new_lengths:
  "RecvNode_new body_len msgid s =
    (if sint body_len < -1 then Throw BadArrayNewLength s
     else if sint body_len = -1 then Undef
     else Ret \<lparr>mn_cur_len = 0, mn_total_len = body_len,
               mn_data = replicate (nat (sint body_len + 1)) (CHR 0x00), rn_msg_id = msgid\<rparr> s)"
  by (rule RecvNode_new_run)

end
