(* ===== verification/CSession.thy ===== *)
theory CSession
  imports MsgNode
begin

text \<open>
  The state of one client session (\<open>src/net/CSession.h\<close>) and its sending side
  (\<open>CSession::send\<close>, \<open>CSession::handleWrite\<close>): a bounded queue of packets of which the front one
  is being written. Starting \<open>async_write\<close> is recorded in \<open>cs_wire\<close>, the list of the buffers
  handed to the network, and in \<open>cs_writing\<close>; the completion of a write is the event that runs
  \<open>handleWrite\<close>. The receiving side needs the rest of the server and is in the theory SessionIO.
\<close>

section \<open>State\<close>

datatype read_kind = ReadHead | ReadBody

text \<open>A pending \<open>async_read_some\<close> of \<open>asyncReadLen\<close>: bytes read so far and bytes wanted.\<close>

record read_op =
  ro_kind :: read_kind
  ro_read_len :: nat
  ro_total_len :: nat

record csession =
  cs_id :: string
  cs_data :: string
  cs_b_close :: bool
  cs_send_que :: "send_node list"
  cs_recv_msg :: "recv_node option"
  cs_head :: msg_node
  cs_uid :: int32
  cs_open :: bool
  cs_read :: "read_op option"
  cs_writing :: bool
  cs_wire :: "string list"

text \<open>The constructor; the session id is a fresh UUID of the library.\<close>

definition CSession_new :: "string \<Rightarrow> (csession, 's) m" where
  "CSession_new uuid =
    mbind (MsgNode_new (word_of_int HEAD_TOTAL_LEN)) (\<lambda>head.
      mret \<lparr>cs_id = uuid, cs_data = replicate (nat MAX_LENGTH) (CHR 0x00), cs_b_close = False,
            cs_send_que = [], cs_recv_msg = None, cs_head = head, cs_uid = 0, cs_open = True,
            cs_read = None, cs_writing = False, cs_wire = []\<rparr>)"

definition cs_getSessionId :: "csession \<Rightarrow> string" where
  "cs_getSessionId s = cs_id s"

definition cs_setUserId :: "int32 \<Rightarrow> csession \<Rightarrow> csession" where
  "cs_setUserId user_uid s = s\<lparr>cs_uid := user_uid\<rparr>"

definition cs_getUserId :: "csession \<Rightarrow> int32" where
  "cs_getUserId s = cs_uid s"

section \<open>Sending\<close>

text \<open>\<open>async_write\<close> of the front of the queue.\<close>

definition cs_start_write :: "(unit, csession) m" where
  "cs_start_write = (\<lambda>s. case cs_send_que s of
      [] \<Rightarrow> Undef
    | msg_node # _ \<Rightarrow>
        Ret () (s\<lparr>cs_wire := cs_wire s @ [node_bytes msg_node], cs_writing := True\<rparr>))"

definition cs_send_raw :: "host \<Rightarrow> string \<Rightarrow> int16 \<Rightarrow> int16 \<Rightarrow> (unit, csession) m" where
  "cs_send_raw H msg body_len msgid = (\<lambda>s.
    if int (length (cs_send_que s)) \<ge> MAX_SENDQUE then Ret () s
    else if sint body_len \<le> 0 \<or> sint body_len > MAX_LENGTH then Ret () s
    else mbind (SendNode_new H msg body_len msgid) (\<lambda>node.
           mseq (mmodify (\<lambda>s. s\<lparr>cs_send_que := cs_send_que s @ [node]\<rparr>))
             (\<lambda>s. if length (cs_send_que s) > 1 then Ret () s else cs_start_write s)) s)"

definition cs_send :: "host \<Rightarrow> string \<Rightarrow> int16 \<Rightarrow> (unit, csession) m" where
  "cs_send H msg msgid =
    (if int (length msg) > 32767 then mret ()
     else cs_send_raw H msg (word_of_int (int (length msg))) msgid)"

text \<open>
  The completion of a write. On an error the handler does nothing: it neither takes the packet
  off the queue nor closes the session. (Its \<open>catch\<close> block would; nothing in it throws.)
\<close>

definition cs_handleWrite :: "bool \<Rightarrow> (unit, csession) m" where
  "cs_handleWrite ok = (\<lambda>s0. let s = s0\<lparr>cs_writing := False\<rparr> in
    if ok
    then (case cs_send_que s of
        [] \<Rightarrow> Undef
      | _ # rest \<Rightarrow>
          (let s' = s\<lparr>cs_send_que := rest\<rparr>
           in if rest \<noteq> [] then cs_start_write s' else Ret () s'))
    else Ret () s)"

section \<open>What a send does\<close>

text \<open>A message the session takes: its length is in bounds and there is room in the queue.\<close>

definition cs_accepts :: "string \<Rightarrow> csession \<Rightarrow> bool" where
  "cs_accepts msg s \<longleftrightarrow>
    msg \<noteq> [] \<and> int (length msg) \<le> MAX_LENGTH \<and> int (length (cs_send_que s)) < MAX_SENDQUE"

definition msg_packet :: "string \<Rightarrow> int16 \<Rightarrow> string" where
  "msg_packet msg msgid = be16 msgid @ be16 (word_of_int (int (length msg))) @ msg"

lemma sint_length16: "int (length msg) \<le> 32767 \<Longrightarrow>
    sint (word_of_int (int (length msg)) :: int16) = int (length msg)"
  by (rule sint_word_of_int16) auto

lemma cs_send_rejects: "\<not> cs_accepts msg s \<Longrightarrow> cs_send H msg msgid s = Ret () s"
proof (cases "int (length msg) \<le> 32767")
  case True
  assume "\<not> cs_accepts msg s"
  with True sint_length16 [OF True] show ?thesis
    by (auto simp: cs_send_def cs_send_raw_def cs_accepts_def simp del: of_int_of_nat_eq)
next
  case False
  then show ?thesis by (simp add: cs_send_def run_simps)
qed

lemma cs_send_accepts:
  assumes "net_order H" and "cs_accepts msg s"
  shows "\<exists>node. node_bytes node = msg_packet msg msgid \<and>
    cs_send H msg msgid s =
      (if cs_send_que s = []
       then Ret () (s\<lparr>cs_send_que := [node], cs_wire := cs_wire s @ [msg_packet msg msgid],
                     cs_writing := True\<rparr>)
       else Ret () (s\<lparr>cs_send_que := cs_send_que s @ [node]\<rparr>))"
proof -
  let ?len = "word_of_int (int (length msg)) :: int16"
  have a: "int (length msg) \<le> 2048" "msg \<noteq> []" "int (length (cs_send_que s)) < MAX_SENDQUE"
    using assms(2) by (simp_all add: cs_accepts_def limit_defs)
  then have l: "sint ?len = int (length msg)" by (intro sint_length16) simp
  with a SendNode_new_packet [OF assms(1), of ?len msg msgid s] obtain node where
    node: "SendNode_new H msg ?len msgid s = Ret node s" "node_bytes node = packet msgid ?len msg"
    by (auto simp del: of_int_of_nat_eq)
  have p: "packet msgid ?len msg = msg_packet msg msgid"
    using l by (simp add: packet_def msg_packet_def del: of_int_of_nat_eq)
  from a(2) have nz: "0 < int (length msg)" by simp
  show ?thesis
    using a l node p nz
    by (intro exI [of _ node])
      (auto simp: cs_send_def cs_send_raw_def run_simps cs_start_write_def limit_defs
        simp del: of_int_of_nat_eq)
qed

section \<open>Runs of the sending side\<close>

text \<open>
  A session seen from its sender: messages are sent, and a write in flight completes, well or
  with an error. \<open>cs_run H s es ps t\<close>: the events \<open>es\<close> lead from \<open>s\<close> to \<open>t\<close>, and \<open>ps\<close> are the
  packets of the messages the session took on the way.
\<close>

datatype send_event = Send string int16 | Written bool

inductive cs_step :: "host \<Rightarrow> csession \<Rightarrow> send_event \<Rightarrow> csession \<Rightarrow> bool" for H where
  send: "cs_send H msg msgid s = Ret () t \<Longrightarrow> cs_step H s (Send msg msgid) t"
| written: "cs_writing s \<Longrightarrow> cs_handleWrite ok s = Ret () t \<Longrightarrow> cs_step H s (Written ok) t"

inductive_cases cs_step_SendE: "cs_step H s (Send msg msgid) t"
inductive_cases cs_step_WrittenE: "cs_step H s (Written ok) t"

definition taken_packet :: "csession \<Rightarrow> send_event \<Rightarrow> string list" where
  "taken_packet s e = (case e of
      Send msg msgid \<Rightarrow> if cs_accepts msg s then [msg_packet msg msgid] else []
    | Written _ \<Rightarrow> [])"

inductive cs_run :: "host \<Rightarrow> csession \<Rightarrow> send_event list \<Rightarrow> string list \<Rightarrow> csession \<Rightarrow> bool" for H where
  stop: "cs_run H s [] [] s"
| step: "cs_step H s e t \<Longrightarrow> cs_run H t es ps u \<Longrightarrow> cs_run H s (e # es) (taken_packet s e @ ps) u"

text \<open>Everything handed to the network, then everything that still waits behind the front packet.\<close>

definition out_log :: "csession \<Rightarrow> string list" where
  "out_log s = cs_wire s @ map node_bytes (tl (cs_send_que s))"

lemma cs_step_out_log:
  assumes "net_order H" and "cs_step H s e t"
  shows "out_log t = out_log s @ taken_packet s e"
  using assms(2)
proof (cases rule: cs_step.cases)
  case (send msg msgid)
  show ?thesis
  proof (cases "cs_accepts msg s")
    case True
    from cs_send_accepts [OF assms(1) True, of msgid] send show ?thesis
      by (cases "cs_send_que s") (auto simp: out_log_def taken_packet_def True)
  next
    case False
    with send cs_send_rejects [OF False, of H msgid] show ?thesis by (simp add: taken_packet_def)
  qed
next
  case (written ok)
  then show ?thesis
    by (auto simp: cs_handleWrite_def cs_start_write_def out_log_def taken_packet_def Let_def
        split: if_splits list.splits)
qed

lemma cs_step_bound:
  assumes "net_order H" and "cs_step H s e t" and "length (cs_send_que s) \<le> 1000"
  shows "length (cs_send_que t) \<le> 1000"
  using assms(2)
proof (cases rule: cs_step.cases)
  case (send msg msgid)
  show ?thesis
  proof (cases "cs_accepts msg s")
    case True
    from cs_send_accepts [OF assms(1) True, of msgid] send True assms(3) show ?thesis
      by (auto simp: cs_accepts_def limit_defs split: if_splits)
  next
    case False
    with send cs_send_rejects [OF False, of H msgid] assms(3) show ?thesis by simp
  qed
next
  case (written ok)
  with assms(3) show ?thesis
    by (auto simp: cs_handleWrite_def cs_start_write_def Let_def split: if_splits list.splits)
qed

definition busy_iff_queued :: "csession \<Rightarrow> bool" where
  "busy_iff_queued s \<longleftrightarrow> (cs_writing s \<longleftrightarrow> cs_send_que s \<noteq> [])"

lemma cs_step_busy:
  assumes "net_order H" and "cs_step H s e t" and "busy_iff_queued s" and "e \<noteq> Written False"
  shows "busy_iff_queued t"
  using assms(2)
proof (cases rule: cs_step.cases)
  case (send msg msgid)
  show ?thesis
  proof (cases "cs_accepts msg s")
    case True
    from cs_send_accepts [OF assms(1) True, of msgid] send assms(3) show ?thesis
      by (cases "cs_send_que s") (auto simp: busy_iff_queued_def)
  next
    case False
    with send cs_send_rejects [OF False, of H msgid] assms(3) show ?thesis by simp
  qed
next
  case (written ok)
  with assms(3,4) show ?thesis
    by (auto simp: cs_handleWrite_def cs_start_write_def busy_iff_queued_def Let_def
        split: if_splits list.splits)
qed

lemma cs_run_out_log:
  assumes "net_order H"
  shows "cs_run H s es ps t \<Longrightarrow> out_log t = out_log s @ ps"
  by (induction rule: cs_run.induct) (simp_all add: cs_step_out_log [OF assms])

lemma cs_run_bound:
  assumes "net_order H"
  shows "cs_run H s es ps t \<Longrightarrow> length (cs_send_que s) \<le> 1000 \<Longrightarrow> length (cs_send_que t) \<le> 1000"
  by (induction rule: cs_run.induct) (simp_all add: cs_step_bound [OF assms])

lemma cs_run_busy:
  assumes "net_order H"
  shows "cs_run H s es ps t \<Longrightarrow> busy_iff_queued s \<Longrightarrow> Written False \<notin> set es \<Longrightarrow> busy_iff_queued t"
proof (induction rule: cs_run.induct)
  case (step s e t es ps u)
  then show ?case using cs_step_busy [OF assms, of s e t] by auto
qed simp

text \<open>
  C7. The sending side is a bounded queue: from an idle session, whatever is sent and however the
  writes complete, the buffers handed to the network followed by the packets still waiting are
  exactly the packets of the accepted messages, in the order they were sent; never more than
  1000 wait; and as long as no write failed, one write is in flight exactly when the queue holds
  something.
\<close>

theorem send_queue_fifo:
  assumes "net_order H" and "cs_run H s es ps t"
    and "cs_send_que s = []" and "\<not> cs_writing s" and "cs_wire s = []"
  shows "cs_wire t @ map node_bytes (tl (cs_send_que t)) = ps \<and>
    int (length (cs_send_que t)) \<le> MAX_SENDQUE \<and>
    (Written False \<notin> set es \<longrightarrow> (cs_writing t \<longleftrightarrow> cs_send_que t \<noteq> []))"
  using cs_run_out_log [OF assms(1,2)] cs_run_bound [OF assms(1,2)] cs_run_busy [OF assms(1,2)]
    assms(3-5)
  by (auto simp: out_log_def limit_defs busy_iff_queued_def)

text \<open>
  When the network completes every write, the queue drains: after as many completions as
  there are packets in it, everything accepted has been handed over and nothing waits.
\<close>

theorem send_queue_drains:
  assumes "busy_iff_queued s"
  shows "\<exists>t. cs_run H s (replicate (length (cs_send_que s)) (Written True)) [] t \<and>
    cs_send_que t = [] \<and> \<not> cs_writing t \<and> cs_wire t = out_log s"
  using assms
proof (induction "cs_send_que s" arbitrary: s)
  case Nil
  then show ?case
    by (auto intro!: exI [of _ s] cs_run.stop simp: out_log_def busy_iff_queued_def)
next
  case (Cons a rest)
  then have q: "cs_send_que s = a # rest" "cs_writing s" by (auto simp: busy_iff_queued_def)
  let ?t0 = "s\<lparr>cs_writing := False, cs_send_que := rest\<rparr>"
  define t where "t = (if rest = [] then ?t0
    else ?t0\<lparr>cs_wire := cs_wire s @ [node_bytes (hd rest)], cs_writing := True\<rparr>)"
  have h: "cs_handleWrite True s = Ret () t"
    using q by (cases rest) (simp_all add: cs_handleWrite_def cs_start_write_def t_def Let_def)
  have t: "cs_send_que t = rest" "busy_iff_queued t" "out_log t = out_log s"
    using q by (auto simp: t_def busy_iff_queued_def out_log_def) (cases rest; simp)
  from Cons.hyps(1) [OF t(1) [symmetric] t(2)] t obtain u where
    u: "cs_run H t (replicate (length rest) (Written True)) [] u" "cs_send_que u = []"
      "\<not> cs_writing u" "cs_wire u = out_log s" by auto
  have "cs_step H s (Written True) t" using q(2) h by (rule cs_step.written)
  from cs_run.step [OF this u(1)] u q show ?case
    by (auto simp: taken_packet_def)
qed

text \<open>
  C28. After a failed write the session is stuck: the packet stays at the front, no write is in
  flight, and nothing that is sent later ever reaches the network.
\<close>

theorem send_stalls_after_error:
  assumes "net_order H" and "cs_send_que s \<noteq> []" and "cs_handleWrite False s = Ret () t"
    and "cs_run H t es ps u"
  shows "cs_wire u = cs_wire s \<and> \<not> cs_writing u \<and> cs_send_que u \<noteq> []"
proof -
  from assms(2,3) have t: "cs_wire t = cs_wire s" "\<not> cs_writing t" "cs_send_que t \<noteq> []"
    by (auto simp: cs_handleWrite_def Let_def)
  from assms(4) t show ?thesis
  proof (induction rule: cs_run.induct)
    case (stop s)
    then show ?case by simp
  next
    case (step t e t' es ps u)
    from step.hyps(1) step.prems have "cs_wire t' = cs_wire t \<and> \<not> cs_writing t' \<and> cs_send_que t' \<noteq> []"
    proof (cases rule: cs_step.cases)
      case (send msg msgid)
      then show ?thesis
        using cs_send_accepts [OF assms(1), of msg t msgid] cs_send_rejects [of msg t H msgid] step.prems
        by (cases "cs_accepts msg t") auto
    next
      case (written ok)
      with step.prems show ?thesis by simp
    qed
    with step show ?case by simp
  qed
qed

end
