(* ===== verification/GrpcPools.thy ===== *)
theory GrpcPools
  imports ConnPool
begin

text \<open>
  \<open>src/infra/grpc/ChatConPool.cpp\<close> and \<open>StatusConPool.cpp\<close>: the pools of RPC stubs to another chat
  server and to the status server. A stub is known by the address its channel was made for and
  its number in the pool; making one neither connects nor fails.
\<close>

type_synonym stub = "string \<times> nat"

section \<open>ChatConPool\<close>

record chat_pool =
  cp_stop :: bool
  cp_size :: nat
  cp_host :: string
  cp_port :: string
  cp_conns :: "stub list"

definition ChatConPool_new :: "nat \<Rightarrow> string \<Rightarrow> string \<Rightarrow> chat_pool" where
  "ChatConPool_new pool_size host port =
    \<lparr>cp_stop = False, cp_size = pool_size, cp_host = host, cp_port = port,
     cp_conns = map (\<lambda>i. (host @ '':'' @ port, i)) [0..<pool_size]\<rparr>"

definition cp_close :: "(unit, chat_pool) m" where
  "cp_close = mmodify (\<lambda>p. p\<lparr>cp_stop := True\<rparr>)"

definition cp_destroy :: "(unit, chat_pool) m" where
  "cp_destroy = mseq cp_close (mmodify (\<lambda>p. p\<lparr>cp_conns := []\<rparr>))"

definition cp_getConnection :: "(stub option, chat_pool) m" where
  "cp_getConnection = (\<lambda>p.
    if \<not> cp_stop p \<and> cp_conns p = [] then Blocked p
    else if cp_stop p then Ret None p
    else case cp_conns p of
        [] \<Rightarrow> Ret None p
      | context # rest \<Rightarrow> Ret (Some context) (p\<lparr>cp_conns := rest\<rparr>))"

definition cp_returnConnection :: "stub \<Rightarrow> (unit, chat_pool) m" where
  "cp_returnConnection context = (\<lambda>p.
    if cp_stop p then Ret () p else Ret () (p\<lparr>cp_conns := cp_conns p @ [context]\<rparr>))"

interpretation cp: conn_pool cp_conns cp_stop cp_getConnection cp_returnConnection
  by unfold_locales (auto simp: cp_getConnection_def cp_returnConnection_def)

section \<open>StatusConPool\<close>

record status_pool =
  sp_stop :: bool
  sp_size :: nat
  sp_host :: string
  sp_port :: string
  sp_conns :: "stub list"

definition StatusConPool_new :: "nat \<Rightarrow> string \<Rightarrow> string \<Rightarrow> status_pool" where
  "StatusConPool_new pool_size host port =
    \<lparr>sp_stop = False, sp_size = pool_size, sp_host = host, sp_port = port,
     sp_conns = map (\<lambda>i. (host @ '':'' @ port, i)) [0..<pool_size]\<rparr>"

definition sp_getConnection :: "(stub option, status_pool) m" where
  "sp_getConnection = (\<lambda>p.
    if \<not> sp_stop p \<and> sp_conns p = [] then Blocked p
    else if sp_stop p then Ret None p
    else case sp_conns p of
        [] \<Rightarrow> Ret None p
      | context # rest \<Rightarrow> Ret (Some context) (p\<lparr>sp_conns := rest\<rparr>))"

definition sp_returnConnection :: "stub \<Rightarrow> (unit, status_pool) m" where
  "sp_returnConnection context = (\<lambda>p.
    if sp_stop p then Ret () p else Ret () (p\<lparr>sp_conns := sp_conns p @ [context]\<rparr>))"

definition sp_close :: "(unit, status_pool) m" where
  "sp_close = mmodify (\<lambda>p. p\<lparr>sp_stop := True\<rparr>)"

definition sp_destroy :: "(unit, status_pool) m" where
  "sp_destroy = mseq sp_close (mmodify (\<lambda>p. p\<lparr>sp_conns := []\<rparr>))"

interpretation sp: conn_pool sp_conns sp_stop sp_getConnection sp_returnConnection
  by unfold_locales (auto simp: sp_getConnection_def sp_returnConnection_def)

lemma ChatConPool_new_idle [simp]:
  "\<not> cp_stop (ChatConPool_new n host port)" "length (cp_conns (ChatConPool_new n host port)) = n"
  by (simp_all add: ChatConPool_new_def)

end
