(* ===== verification/GrpcClients.thy ===== *)
theory GrpcClients
  imports GrpcPools ConfigMgr
begin

text \<open>
  \<open>src/infra/grpc/ChatGrpcClient.cpp\<close> and \<open>StatusGrpcClient.cpp\<close>: calls to the other servers.
  The transport and the servers at the other end are outside: a field of \<open>rpc_api\<close> per remote
  procedure takes the stub, the request and the reply object as it is before the call, and gives
  whether the status is OK and the reply object afterwards.

  The functions return a local variable that scope guards still change after the \<open>return\<close>
  statement. Whether the caller sees those changes depends on the compiler constructing the
  variable in place of the result (which the language allows and does not demand): the flag
  \<open>nrvo\<close> says so. Calling through the null pointer a stopped pool gives is undefined.
\<close>

record 'x rpc_api =
  rpc_add :: "stub \<Rightarrow> AddFriendReq \<Rightarrow> AddFriendRsp \<Rightarrow> 'x \<Rightarrow> (bool \<times> AddFriendRsp) \<times> 'x"
  rpc_auth :: "stub \<Rightarrow> AuthFriendReq \<Rightarrow> AuthFriendRsp \<Rightarrow> 'x \<Rightarrow> (bool \<times> AuthFriendRsp) \<times> 'x"
  rpc_text :: "stub \<Rightarrow> TextChatMsgReq \<Rightarrow> TextChatMsgRsp \<Rightarrow> 'x \<Rightarrow> (bool \<times> TextChatMsgRsp) \<times> 'x"
  rpc_chat_server :: "stub \<Rightarrow> GetChatServerReq \<Rightarrow> GetChatServerRsp \<Rightarrow> 'x \<Rightarrow> (bool \<times> GetChatServerRsp) \<times> 'x"
  rpc_login :: "stub \<Rightarrow> LoginReq \<Rightarrow> LoginRsp \<Rightarrow> 'x \<Rightarrow> (bool \<times> LoginRsp) \<times> 'x"

section \<open>ChatGrpcClient\<close>

type_synonym chat_pools = "string \<rightharpoonup> chat_pool"

text \<open>\<open>std::getline(ss, word, ',')\<close> until the end of the text.\<close>

fun split_words :: "string \<Rightarrow> string \<Rightarrow> string list" where
  "split_words acc [] = (if acc = [] then [] else [acc])"
| "split_words acc (c # cs) =
    (if c = CHR '','' then acc # split_words [] cs else split_words (acc @ [c]) cs)"

definition add_peer :: "config \<Rightarrow> string \<Rightarrow> chat_pools \<Rightarrow> chat_pools" where
  "add_peer cfg word pools =
    (if cfg_get cfg word ''Name'' = [] then pools
     else pools(cfg_get cfg word ''Name'' \<mapsto>
       ChatConPool_new 5 (cfg_get cfg word ''Host'') (cfg_get cfg word ''Port'')))"

definition ChatGrpcClient_new :: "config \<Rightarrow> chat_pools" where
  "ChatGrpcClient_new cfg =
    fold (add_peer cfg) (split_words [] (cfg_get cfg ''PeerServer'' ''Servers'')) Map.empty"

text \<open>
  One call through the pool of a server. \<open>known\<close> is the result for a server that has none; \<open>call\<close>
  uses the stub, which is handed back when the scope ends.
\<close>

definition via_stub :: "chat_pool \<Rightarrow> (stub \<Rightarrow> 'x \<Rightarrow> 'a \<times> 'x) \<Rightarrow> 'x \<Rightarrow> ('a, chat_pool \<times> 'x) outcome" where
  "via_stub pool call x = mbind (on_fst cp_getConnection) (\<lambda>stub. case stub of
      None \<Rightarrow> mundef
    | Some c \<Rightarrow> mbind (ext_call (call c)) (\<lambda>r. mseq (on_fst (cp_returnConnection c)) (mret r))) (pool, x)"

definition call_peer ::
  "string \<Rightarrow> 'a \<Rightarrow> (stub \<Rightarrow> 'x \<Rightarrow> 'a \<times> 'x) \<Rightarrow> ('a, chat_pools \<times> 'x) m" where
  "call_peer server_ip unknown call = (\<lambda>(pools, x). case pools server_ip of
      None \<Rightarrow> Ret unknown (pools, x)
    | Some pool \<Rightarrow> map_state (\<lambda>(q, y). (pools(server_ip \<mapsto> q), y)) (via_stub pool call x))"

definition chat_NotifyAddFriend ::
  "'x rpc_api \<Rightarrow> bool \<Rightarrow> string \<Rightarrow> AddFriendReq \<Rightarrow> (AddFriendRsp, chat_pools \<times> 'x) m" where
  "chat_NotifyAddFriend P nrvo server_ip req =
    (let guard = (\<lambda>rsp. if nrvo
           then rsp\<lparr>afr_error := error_code SUCCESS, afr_applyuid := afq_applyuid req,
                    afr_touid := afq_touid req\<rparr>
           else rsp)
     in mbind (call_peer server_ip new_AddFriendRsp (\<lambda>stub x.
            case rpc_add P stub req new_AddFriendRsp x of
              ((ok, rsp), y) \<Rightarrow> (if ok then rsp else rsp\<lparr>afr_error := error_code RPCFAILED\<rparr>, y)))
          (\<lambda>rsp. mret (guard rsp)))"

definition chat_NotifyAuthFriend ::
  "'x rpc_api \<Rightarrow> bool \<Rightarrow> string \<Rightarrow> AuthFriendReq \<Rightarrow> (AuthFriendRsp, chat_pools \<times> 'x) m" where
  "chat_NotifyAuthFriend P nrvo server_ip req =
    (let rsp0 = new_AuthFriendRsp\<lparr>aur_error := error_code SUCCESS\<rparr>;
         guard = (\<lambda>rsp. if nrvo
           then rsp\<lparr>aur_fromuid := auq_fromuid req, aur_touid := auq_touid req\<rparr> else rsp)
     in mbind (call_peer server_ip rsp0 (\<lambda>stub x.
            case rpc_auth P stub req rsp0 x of
              ((ok, rsp), y) \<Rightarrow> (if ok then rsp else rsp\<lparr>aur_error := error_code RPCFAILED\<rparr>, y)))
          (\<lambda>rsp. mret (guard rsp)))"

definition chat_GetBaseInfo :: "string \<Rightarrow> int32 \<Rightarrow> UserInfo \<Rightarrow> bool \<times> UserInfo" where
  "chat_GetBaseInfo base_key uid user_info = (True, user_info)"

definition chat_NotifyTextChatMsg ::
  "'x rpc_api \<Rightarrow> bool \<Rightarrow> string \<Rightarrow> TextChatMsgReq \<Rightarrow> (TextChatMsgRsp, chat_pools \<times> 'x) m" where
  "chat_NotifyTextChatMsg P nrvo server_ip req =
    (let rsp0 = new_TextChatMsgRsp\<lparr>tcr_error := error_code SUCCESS\<rparr>;
         guard = (\<lambda>rsp. if nrvo
           then rsp\<lparr>tcr_fromuid := tcq_fromuid req, tcr_touid := tcq_touid req,
                    tcr_textmsgs := tcr_textmsgs rsp @ tcq_textmsgs req\<rparr> else rsp)
     in mbind (call_peer server_ip rsp0 (\<lambda>stub x.
            case rpc_text P stub req rsp0 x of
              ((ok, rsp), y) \<Rightarrow> (if ok then rsp else rsp\<lparr>tcr_error := error_code RPCFAILED\<rparr>, y)))
          (\<lambda>rsp. mret (guard rsp)))"

section \<open>StatusGrpcClient\<close>

definition StatusGrpcClient_new :: "config \<Rightarrow> status_pool" where
  "StatusGrpcClient_new cfg =
    StatusConPool_new 5 (cfg_get cfg ''StatusServer'' ''Host'') (cfg_get cfg ''StatusServer'' ''Port'')"

definition status_getChatServer ::
  "'x rpc_api \<Rightarrow> int32 \<Rightarrow> (GetChatServerRsp, status_pool \<times> 'x) m" where
  "status_getChatServer P uid =
    mbind (on_fst sp_getConnection) (\<lambda>stub. case stub of
        None \<Rightarrow> mundef
      | Some c \<Rightarrow> mbind (ext_call (rpc_chat_server P c \<lparr>gq_uid = uid\<rparr> new_GetChatServerRsp))
          (\<lambda>(ok, reply). mseq (on_fst (sp_returnConnection c))
            (mret (if ok then reply else reply\<lparr>gr_error := error_code RPCFAILED\<rparr>))))"

definition status_login ::
  "'x rpc_api \<Rightarrow> int32 \<Rightarrow> string \<Rightarrow> (LoginRsp, status_pool \<times> 'x) m" where
  "status_login P uid token =
    mbind (on_fst sp_getConnection) (\<lambda>stub. case stub of
        None \<Rightarrow> mret (new_LoginRsp\<lparr>lr_error := error_code RPCFAILED\<rparr>)
      | Some c \<Rightarrow> mbind (ext_call (rpc_login P c \<lparr>lq_uid = uid, lq_token = token\<rparr> new_LoginRsp))
          (\<lambda>(ok, reply). mseq (on_fst (sp_returnConnection c))
            (mret (if ok then reply else reply\<lparr>lr_error := error_code RPCFAILED\<rparr>))))"

section \<open>Which servers are known\<close>

lemma split_words_append:
  assumes "CHR '','' \<notin> set w"
  shows "split_words acc (w @ CHR '','' # rest) = (acc @ w) # split_words [] rest"
  using assms by (induction w arbitrary: acc) auto

lemma split_words_last:
  assumes "CHR '','' \<notin> set w"
  shows "split_words acc w = (if acc @ w = [] then [] else [acc @ w])"
  using assms by (induction w arbitrary: acc) auto

fun join_words :: "string list \<Rightarrow> string" where
  "join_words [] = []"
| "join_words [w] = w"
| "join_words (w # v # ws) = w @ CHR '','' # join_words (v # ws)"

text \<open>
  The list of peer servers in the configuration is read word by word: splitting the words
  joined with commas gives them back, for words that hold no comma, the last one not empty.
\<close>

theorem split_join_words:
  assumes "\<forall>w \<in> set ws. CHR '','' \<notin> set w" and "ws \<noteq> []" and "last ws \<noteq> []"
  shows "split_words [] (join_words ws) = ws"
  using assms
proof (induction ws rule: join_words.induct)
  case 1
  then show ?case by simp
next
  case (2 w)
  then show ?case by (simp add: split_words_last)
next
  case (3 w v ws)
  then show ?case by (simp add: split_words_append)
qed

lemma add_peer_fold:
  "fold (add_peer cfg) words pools name = (case filter (\<lambda>w. cfg_get cfg w ''Name'' = name) (rev words) of
      [] \<Rightarrow> pools name
    | w # _ \<Rightarrow> Some (ChatConPool_new 5 (cfg_get cfg w ''Host'') (cfg_get cfg w ''Port'')))"
  if "name \<noteq> []"
  using that
proof (induction words arbitrary: pools)
  case Nil
  then show ?case by simp
next
  case (Cons w words)
  then show ?case by (auto simp: add_peer_def split: list.splits)
qed

section \<open>What the caller learns\<close>

lemma via_stub_idle:
  assumes "\<not> cp_stop pool" and "cp_conns pool = c # cs"
  shows "via_stub pool call x =
    Ret (fst (call c x)) (pool\<lparr>cp_conns := cs @ [c]\<rparr>, snd (call c x))"
  using assms
  by (simp add: via_stub_def run_simps cp_getConnection_def cp_returnConnection_def)

lemma call_peer_idle:
  assumes "pools server = Some pool" and "\<not> cp_stop pool" and "cp_conns pool = c # cs"
  shows "call_peer server unknown call (pools, x) =
    Ret (fst (call c x)) (pools(server \<mapsto> pool\<lparr>cp_conns := cs @ [c]\<rparr>), snd (call c x))"
  using assms by (simp add: call_peer_def via_stub_idle)

text \<open>
  C39. A notification to another server gives its stub back, whether the call works or not. Where
  the result is built in place, a failed add-friend call is reported as success: the scope guard
  that fills in the reply overwrites the error; the two other notifications report the failure.
\<close>

theorem notify_failure_reported:
  assumes "pools server = Some pool" and "\<not> cp_stop pool" and "cp_conns pool = c # cs"
    and "rpc_add P c areq new_AddFriendRsp x = ((False, ar), x1)"
    and "rpc_auth P c ureq (new_AuthFriendRsp\<lparr>aur_error := error_code SUCCESS\<rparr>) x = ((False, ur), x2)"
    and "rpc_text P c treq (new_TextChatMsgRsp\<lparr>tcr_error := error_code SUCCESS\<rparr>) x = ((False, tr), x3)"
  shows "\<exists>a u t.
    chat_NotifyAddFriend P nrvo server areq (pools, x) =
      Ret a (pools(server \<mapsto> pool\<lparr>cp_conns := cs @ [c]\<rparr>), x1) \<and>
    chat_NotifyAuthFriend P nrvo server ureq (pools, x) =
      Ret u (pools(server \<mapsto> pool\<lparr>cp_conns := cs @ [c]\<rparr>), x2) \<and>
    chat_NotifyTextChatMsg P nrvo server treq (pools, x) =
      Ret t (pools(server \<mapsto> pool\<lparr>cp_conns := cs @ [c]\<rparr>), x3) \<and>
    afr_error a = error_code (if nrvo then SUCCESS else RPCFAILED) \<and>
    aur_error u = error_code RPCFAILED \<and> tcr_error t = error_code RPCFAILED"
  using assms
  by (simp add: chat_NotifyAddFriend_def chat_NotifyAuthFriend_def chat_NotifyTextChatMsg_def
      run_simps call_peer_idle Let_def)

text \<open>
  A call to the status server borrows one stub and gives it back; a failed call and, for the
  login, a stopped pool are answered with the RPC error, where asking a stopped pool for a chat
  server goes through a null stub.
\<close>

theorem status_calls:
  assumes "sp_conns p = c # cs"
    and "rpc_login P c \<lparr>lq_uid = uid, lq_token = token\<rparr> new_LoginRsp x = ((ok, reply), y)"
    and "rpc_chat_server P c \<lparr>gq_uid = uid\<rparr> new_GetChatServerRsp x = ((ok2, reply2), z)"
  shows "status_login P uid token (p, x) =
      (if sp_stop p then Ret (new_LoginRsp\<lparr>lr_error := error_code RPCFAILED\<rparr>) (p, x)
       else Ret (if ok then reply else reply\<lparr>lr_error := error_code RPCFAILED\<rparr>)
         (p\<lparr>sp_conns := cs @ [c]\<rparr>, y)) \<and>
    status_getChatServer P uid (p, x) =
      (if sp_stop p then Undef
       else Ret (if ok2 then reply2 else reply2\<lparr>gr_error := error_code RPCFAILED\<rparr>)
         (p\<lparr>sp_conns := cs @ [c]\<rparr>, z))"
  using assms
  by (simp add: status_login_def status_getChatServer_def run_simps sp_getConnection_def
      sp_returnConnection_def)

end
