(* ===== verification/World.thy ===== *)
theory World
  imports RedisMgr MySqlDao UserMgr CSession GrpcClients
begin

text \<open>
  The whole server: its singletons and sessions in one state, the parameters that stand for the
  libraries and services outside in one record, the ways to run a component's code on its part of
  the state, and the table of sessions \<open>CServer\<close> keeps (\<open>src/net/CServer.cpp\<close>). Sessions are
  shared objects, known by a reference into a store; the singletons and queues hold references.
\<close>

section \<open>Parameters\<close>

text \<open>
  \<open>e_close\<close> is closing a socket (\<open>False\<close> is a thrown \<open>boost::system::system_error\<close>), \<open>e_cfg\<close> the
  configuration as loaded.
\<close>

record ('x, 'row, 'j) env =
  e_redis :: "'x redis_api"
  e_sql :: "('x, 'row) sql_api"
  e_json :: "'j json_api"
  e_rpc :: "'x rpc_api"
  e_close :: "'x \<Rightarrow> bool \<times> 'x"
  e_cfg :: config
  e_host :: host
  e_nrvo :: bool

section \<open>State\<close>

record logic_node =
  ln_session :: nat
  ln_recv_node :: recv_node

record 'x world =
  w_ext :: 'x
  w_redis :: redis_pool
  w_mysql :: mysql_pool
  w_users :: users
  w_sess :: "nat \<Rightarrow> csession"
  w_sessions :: "string \<rightharpoonup> nat"
  w_accepting :: "nat option"
  w_peers :: chat_pools
  w_msg_que :: "logic_node list"

definition on_redis :: "('a, 'x redis_state) m \<Rightarrow> ('a, 'x world) m" where
  "on_redis f = zoom (\<lambda>w. (w_redis w, w_ext w)) (\<lambda>(p, x) w. w\<lparr>w_redis := p, w_ext := x\<rparr>) f"

definition on_mysql :: "('a, 'x dao_state) m \<Rightarrow> ('a, 'x world) m" where
  "on_mysql f = zoom (\<lambda>w. (w_mysql w, w_ext w)) (\<lambda>(p, x) w. w\<lparr>w_mysql := p, w_ext := x\<rparr>) f"

definition on_peers :: "('a, chat_pools \<times> 'x) m \<Rightarrow> ('a, 'x world) m" where
  "on_peers f = zoom (\<lambda>w. (w_peers w, w_ext w)) (\<lambda>(p, x) w. w\<lparr>w_peers := p, w_ext := x\<rparr>) f"

definition on_session :: "nat \<Rightarrow> ('a, csession) m \<Rightarrow> ('a, 'x world) m" where
  "on_session ref f = zoom (\<lambda>w. w_sess w ref) (\<lambda>s w. w\<lparr>w_sess := (w_sess w)(ref := s)\<rparr>) f"

definition on_users :: "(users \<Rightarrow> users) \<Rightarrow> (unit, 'x world) m" where
  "on_users f = mmodify (\<lambda>w. w\<lparr>w_users := f (w_users w)\<rparr>)"

definition on_ext :: "('x \<Rightarrow> 'a \<times> 'x) \<Rightarrow> ('a, 'x world) m" where
  "on_ext f = (\<lambda>w. case f (w_ext w) of (a, y) \<Rightarrow> Ret a (w\<lparr>w_ext := y\<rparr>))"

lemma on_redis_run [run_simps]:
  "on_redis f w = map_state (\<lambda>(p, x). w\<lparr>w_redis := p, w_ext := x\<rparr>) (f (w_redis w, w_ext w))"
  by (simp add: on_redis_def run_simps case_prod_unfold)

lemma on_mysql_run [run_simps]:
  "on_mysql f w = map_state (\<lambda>(p, x). w\<lparr>w_mysql := p, w_ext := x\<rparr>) (f (w_mysql w, w_ext w))"
  by (simp add: on_mysql_def run_simps case_prod_unfold)

lemma on_peers_run [run_simps]:
  "on_peers f w = map_state (\<lambda>(p, x). w\<lparr>w_peers := p, w_ext := x\<rparr>) (f (w_peers w, w_ext w))"
  by (simp add: on_peers_def run_simps case_prod_unfold)

lemma on_session_run [run_simps]:
  "on_session ref f w = map_state (\<lambda>s. w\<lparr>w_sess := (w_sess w)(ref := s)\<rparr>) (f (w_sess w ref))"
  by (simp add: on_session_def run_simps)

lemma on_users_run [run_simps]: "on_users f w = Ret () (w\<lparr>w_users := f (w_users w)\<rparr>)"
  by (simp add: on_users_def run_simps)

lemma on_ext_run [run_simps]:
  "on_ext f w = Ret (fst (f (w_ext w))) (w\<lparr>w_ext := snd (f (w_ext w))\<rparr>)"
  by (simp add: on_ext_def split: prod.splits)

section \<open>CServer's table of sessions\<close>

type_synonym sessions = "string \<rightharpoonup> nat"

definition sv_find :: "sessions \<Rightarrow> string \<Rightarrow> nat option" where
  "sv_find m uuid = m uuid"

definition sv_insert :: "string \<Rightarrow> nat \<Rightarrow> sessions \<Rightarrow> sessions" where
  "sv_insert uuid session m = m(uuid \<mapsto> session)"

definition sv_erase :: "string \<Rightarrow> sessions \<Rightarrow> sessions" where
  "sv_erase uuid m = m(uuid := None)"

interpretation sv: registry sv_find sv_insert sv_erase
  by unfold_locales (auto simp: sv_find_def sv_insert_def sv_erase_def)

definition sv_ClearSession :: "string \<Rightarrow> (unit, 'x world) m" where
  "sv_ClearSession uuid = mmodify (\<lambda>w. w\<lparr>w_sessions := sv_erase uuid (w_sessions w)\<rparr>)"

lemma sv_ClearSession_run [run_simps]:
  "sv_ClearSession uuid w = Ret () (w\<lparr>w_sessions := sv_erase uuid (w_sessions w)\<rparr>)"
  by (simp add: sv_ClearSession_def run_simps)

end
