(* ===== verification/SessionIO.thy ===== *)
theory SessionIO
  imports World
begin

text \<open>
  The receiving side and the end of a session (\<open>src/net/CSession.cpp\<close>) and the acceptor
  (\<open>src/net/CServer.cpp\<close>). A read in progress is \<open>cs_read\<close>; its completion, with an error code or
  with a chunk of at most the bytes asked for, is the event \<open>cs_read_some\<close>, which runs the code of
  the handlers up to the next read. A write outside the receive buffer is undefined.
\<close>

section \<open>Starting a read\<close>

text \<open>A signed length passed where a \<open>size_t\<close> is expected.\<close>

definition size_of_int :: "int \<Rightarrow> nat" where
  "size_of_int i = nat (i mod 2 ^ 64)"

definition cs_asyncReadLen :: "read_kind \<Rightarrow> nat \<Rightarrow> nat \<Rightarrow> csession \<Rightarrow> csession" where
  "cs_asyncReadLen kind read_len total_len s =
    s\<lparr>cs_read := Some \<lparr>ro_kind = kind, ro_read_len = read_len, ro_total_len = total_len\<rparr>\<rparr>"

definition cs_asyncReadFull :: "read_kind \<Rightarrow> nat \<Rightarrow> csession \<Rightarrow> csession" where
  "cs_asyncReadFull kind max_length s =
    cs_asyncReadLen kind 0 max_length (s\<lparr>cs_data := replicate (nat MAX_LENGTH) (CHR 0x00)\<rparr>)"

definition cs_AsyncReadHead :: "csession \<Rightarrow> csession" where
  "cs_AsyncReadHead s = cs_asyncReadFull ReadHead (nat HEAD_TOTAL_LEN) s"

definition cs_AsyncReadBody :: "int \<Rightarrow> csession \<Rightarrow> csession" where
  "cs_AsyncReadBody total_len s = cs_asyncReadFull ReadBody (size_of_int total_len) s"

definition cs_start :: "csession \<Rightarrow> csession" where
  "cs_start s = cs_AsyncReadHead s"

section \<open>The end of a session\<close>

definition self_name :: "('x, 'row, 'j) env \<Rightarrow> string" where
  "self_name E = cfg_get (e_cfg E) ''SelfServer'' ''Name''"

text \<open>The number of logins of this server as Redis has it; no text counts as zero.\<close>

definition read_count :: "('x, 'row, 'j) env \<Rightarrow> (int32, 'x world) m" where
  "read_count E =
    mbind (on_redis (redis_hGet (e_redis E) LOGIN_COUNT (self_name E))) (\<lambda>rd_res.
      if rd_res \<noteq> [] then stoi rd_res else mret 0)"

definition write_count :: "('x, 'row, 'j) env \<Rightarrow> int32 \<Rightarrow> (unit, 'x world) m" where
  "write_count E n =
    mseq (on_redis (redis_hSet_raw (e_redis E) LOGIN_COUNT (cstr (self_name E)) (to_string n)
            (length (to_string n))))
      (mret ())"

definition cs_logout :: "('x, 'row, 'j) env \<Rightarrow> nat \<Rightarrow> (unit, 'x world) m" where
  "cs_logout E ref =
    mbind (read_count E) (\<lambda>count.
    mseq (write_count E (if sint count > 0 then count - 1 else count))
      (mbind (mget (\<lambda>w. cs_uid (w_sess w ref))) (\<lambda>uid.
        mseq (on_users (um_RemoveUserSession uid))
          (on_session ref (mmodify (\<lambda>s. s\<lparr>cs_uid := 0\<rparr>))))))"

definition cs_close :: "('x, 'row, 'j) env \<Rightarrow> nat \<Rightarrow> (unit, 'x world) m" where
  "cs_close E ref = (\<lambda>w.
    if cs_b_close (w_sess w ref) then Ret () w
    else mseq (if sint (cs_uid (w_sess w ref)) > 0 then cs_logout E ref else mret ())
      (mbind (on_ext (e_close E)) (\<lambda>ok.
        mseq (on_session ref (mmodify (\<lambda>s. s\<lparr>cs_open := False\<rparr>)))
          (if ok then on_session ref (mmodify (\<lambda>s. s\<lparr>cs_b_close := True\<rparr>))
           else mthrow BoostSystemError))) w)"

definition cs_drop :: "('x, 'row, 'j) env \<Rightarrow> nat \<Rightarrow> (unit, 'x world) m" where
  "cs_drop E ref =
    mseq (cs_close E ref) (\<lambda>w. sv_ClearSession (cs_id (w_sess w ref)) w)"

section \<open>The handlers of completed reads\<close>

definition post_msg :: "logic_node \<Rightarrow> (unit, 'x world) m" where
  "post_msg node = mmodify (\<lambda>w. w\<lparr>w_msg_que := w_msg_que w @ [node]\<rparr>)"

text \<open>The session's code on its own fields, without a way to end it.\<close>

definition head_fields :: "host \<Rightarrow> nat \<Rightarrow> (int16 \<times> int16, csession) m" where
  "head_fields H bytes = (\<lambda>s.
    mbind (mn_clear (cs_head s)) (\<lambda>h0.
    mbind (mguard (bytes \<le> length (cs_data s)) (mn_copy 0 (take bytes (cs_data s)) h0)) (\<lambda>h.
    mseq (mmodify (\<lambda>s. s\<lparr>cs_head := h\<rparr>))
      (case (load16_at (h_endian H) 0 (mn_data h), load16_at (h_endian H) (nat HEAD_ID_LEN) (mn_data h)) of
         (Some msgid, Some len) \<Rightarrow> mret (h_ntoh H msgid, h_ntoh H len)
       | _ \<Rightarrow> mundef))) s)"

definition cs_on_head :: "('x, 'row, 'j) env \<Rightarrow> nat \<Rightarrow> bool \<Rightarrow> nat \<Rightarrow> (unit, 'x world) m" where
  "cs_on_head E ref ok bytes_transfered =
    catch_std
      (if \<not> ok then cs_drop E ref
       else if bytes_transfered < nat HEAD_TOTAL_LEN then cs_drop E ref
       else mbind (on_session ref (head_fields (e_host E) bytes_transfered)) (\<lambda>(msgid, msg_len).
         if sint msgid > MAX_LENGTH
         then (\<lambda>w. sv_ClearSession (cs_id (w_sess w ref)) w)
         else if sint msg_len > MAX_LENGTH
         then (\<lambda>w. sv_ClearSession (cs_id (w_sess w ref)) w)
         else mbind (RecvNode_new msg_len msgid) (\<lambda>node.
           on_session ref (mmodify (\<lambda>s. cs_AsyncReadBody (sint msg_len) (s\<lparr>cs_recv_msg := Some node\<rparr>))))))
      (\<lambda>_. mret ())"

text \<open>The received body goes from the receive buffer into the node, which ends with a NUL.\<close>

definition fill_node :: "nat \<Rightarrow> string \<Rightarrow> recv_node \<Rightarrow> (recv_node, 's) m" where
  "fill_node bytes buf node =
    mbind (mguard (bytes \<le> length buf) (mn_copy 0 (take bytes buf) node)) (\<lambda>n.
    let n1 = n\<lparr>mn_cur_len := word_of_int (int bytes + sint (mn_cur_len n))\<rparr>
    in mguard (0 \<le> sint (mn_total_len n1)) (mn_copy (nat (sint (mn_total_len n1))) [CHR 0x00] n1))"

definition cs_on_body :: "('x, 'row, 'j) env \<Rightarrow> nat \<Rightarrow> bool \<Rightarrow> nat \<Rightarrow> nat \<Rightarrow> (unit, 'x world) m" where
  "cs_on_body E ref ok bytes_transfered total_len =
    catch_std
      (if \<not> ok then cs_drop E ref
       else if bytes_transfered < total_len then cs_drop E ref
       else mbind (mget (\<lambda>w. w_sess w ref)) (\<lambda>s. case cs_recv_msg s of
           None \<Rightarrow> mundef
         | Some node \<Rightarrow>
             mbind (fill_node bytes_transfered (cs_data s) node) (\<lambda>n.
             mseq (on_session ref (mmodify (\<lambda>s. s\<lparr>cs_recv_msg := Some n\<rparr>)))
               (mseq (post_msg \<lparr>ln_session = ref, ln_recv_node = n\<rparr>)
                 (on_session ref (mmodify cs_AsyncReadHead))))))
      (\<lambda>_. mret ())"

text \<open>The completion handler of \<open>async_read_some\<close> in \<open>asyncReadLen\<close>.\<close>

definition cs_read_some :: "('x, 'row, 'j) env \<Rightarrow> nat \<Rightarrow> bool \<Rightarrow> string \<Rightarrow> (unit, 'x world) m" where
  "cs_read_some E ref ok chunk = (\<lambda>w. case cs_read (w_sess w ref) of
      None \<Rightarrow> Ret () w
    | Some rop \<Rightarrow> (case write_at (ro_read_len rop) chunk (cs_data (w_sess w ref)) of
        None \<Rightarrow> Undef
      | Some d \<Rightarrow>
          (let n = ro_read_len rop + length chunk;
               total = ro_total_len rop;
               w1 = w\<lparr>w_sess := (w_sess w)(ref := (w_sess w ref)\<lparr>cs_data := d, cs_read := None\<rparr>)\<rparr>
           in if \<not> ok \<or> n \<ge> total
              then (case ro_kind rop of
                  ReadHead \<Rightarrow> cs_on_head E ref ok n w1
                | ReadBody \<Rightarrow> cs_on_body E ref ok n total w1)
              else on_session ref (mmodify (cs_asyncReadLen (ro_kind rop) n total)) w1)))"

section \<open>The acceptor\<close>

text \<open>
  A new session object waits for the next connection; \<open>ref\<close> and \<open>uuid\<close> are its fresh reference
  and id. (The \<open>io_context\<close> taken from the pool is not used: every session runs on the acceptor's.)
\<close>

definition sv_StartAccept :: "nat \<Rightarrow> string \<Rightarrow> (unit, 'x world) m" where
  "sv_StartAccept ref uuid =
    mbind (CSession_new uuid) (\<lambda>s.
      mmodify (\<lambda>w. w\<lparr>w_sess := (w_sess w)(ref := s), w_accepting := Some ref\<rparr>))"

definition sv_HandleAccept :: "bool \<Rightarrow> nat \<Rightarrow> string \<Rightarrow> (unit, 'x world) m" where
  "sv_HandleAccept ok next_ref next_uuid = (\<lambda>w. case w_accepting w of
      None \<Rightarrow> Ret () w
    | Some ref \<Rightarrow>
        mseq (if ok
            then mseq (on_session ref (mmodify cs_start))
              (mmodify (\<lambda>w. w\<lparr>w_sessions := sv_insert (cs_id (w_sess w ref)) ref (w_sessions w)\<rparr>))
            else mret ())
          (sv_StartAccept next_ref next_uuid) w)"

end
