(* ===== verification/SessionFraming.thy ===== *)
theory SessionFraming
  imports SessionIO
begin

text \<open>
  What the receiving side of a session does with a stream of bytes: however the network cuts the
  stream into chunks, the messages posted to the logic queue are the packets of the stream, one
  by one and in order. Also here: which headers end a session, and how.
\<close>

section \<open>Delivering a stream\<close>

text \<open>
  The network completes each read with at most the bytes asked for and at most what has arrived;
  \<open>ks\<close> are the sizes it would deliver at most at each completion.
\<close>

definition cs_requested :: "csession \<Rightarrow> nat" where
  "cs_requested s = (case cs_read s of None \<Rightarrow> 0 | Some rop \<Rightarrow> ro_total_len rop - ro_read_len rop)"

fun feed :: "('x, 'row, 'j) env \<Rightarrow> nat \<Rightarrow> string \<Rightarrow> nat list \<Rightarrow> (unit, 'x world) m" where
  "feed E ref bs [] w = Ret () w"
| "feed E ref bs (k # ks) w =
    (if bs = [] then Ret () w
     else let n = min k (cs_requested (w_sess w ref))
          in mseq (cs_read_some E ref True (take n bs)) (feed E ref (drop n bs) ks) w)"

section \<open>Where a session stands in the stream\<close>

definition head_ok :: "csession \<Rightarrow> bool" where
  "head_ok s \<longleftrightarrow> mn_total_len (cs_head s) = 4 \<and> length (mn_data (cs_head s)) = 5"

definition holds :: "string \<Rightarrow> csession \<Rightarrow> bool" where
  "holds c s \<longleftrightarrow> length (cs_data s) = 2048 \<and> take (length c) (cs_data s) = c"

definition waits_head :: "string \<Rightarrow> csession \<Rightarrow> bool" where
  "waits_head c s \<longleftrightarrow>
    cs_read s = Some \<lparr>ro_kind = ReadHead, ro_read_len = length c, ro_total_len = 4\<rparr> \<and>
    holds c s \<and> length c < 4 \<and> head_ok s"

definition empty_node :: "int16 \<Rightarrow> int16 \<Rightarrow> recv_node" where
  "empty_node msgid len = \<lparr>mn_cur_len = 0, mn_total_len = len,
     mn_data = replicate (nat (sint len + 1)) (CHR 0x00), rn_msg_id = msgid\<rparr>"

definition full_node :: "int16 \<Rightarrow> string \<Rightarrow> recv_node" where
  "full_node msgid body =
    (let len = word_of_int (int (length body))
     in \<lparr>mn_cur_len = len, mn_total_len = len, mn_data = body @ [CHR 0x00], rn_msg_id = msgid\<rparr>)"

definition waits_body :: "int16 \<Rightarrow> nat \<Rightarrow> string \<Rightarrow> csession \<Rightarrow> bool" where
  "waits_body msgid len c s \<longleftrightarrow>
    cs_read s = Some \<lparr>ro_kind = ReadBody, ro_read_len = length c, ro_total_len = len\<rparr> \<and>
    holds c s \<and> length c < len \<and> len \<le> 2048 \<and> head_ok s \<and>
    cs_recv_msg s = Some (empty_node msgid (word_of_int (int len)))"

text \<open>A packet a session can receive: an id and a body length the header check lets through.\<close>

definition good_packet :: "int16 \<times> string \<Rightarrow> bool" where
  "good_packet p \<longleftrightarrow> sint (fst p) \<le> 2048 \<and> snd p \<noteq> [] \<and> length (snd p) \<le> 2048"

definition packet_bytes :: "int16 \<times> string \<Rightarrow> string" where
  "packet_bytes p = msg_packet (snd p) (fst p)"

definition node_for :: "nat \<Rightarrow> int16 \<times> string \<Rightarrow> logic_node" where
  "node_for ref p = \<lparr>ln_session = ref, ln_recv_node = full_node (fst p) (snd p)\<rparr>"

text \<open>
  \<open>rest\<close> is what is still to come of the stream, \<open>ps\<close> the packets whose message has not been
  posted yet.
\<close>

definition stands :: "string \<Rightarrow> (int16 \<times> string) list \<Rightarrow> csession \<Rightarrow> bool" where
  "stands rest ps s \<longleftrightarrow>
    (\<exists>c. waits_head c s \<and> c @ rest = concat (map packet_bytes ps)) \<or>
    (\<exists>c p qs. waits_body (fst p) (length (snd p)) c s \<and> ps = p # qs \<and>
       c @ rest = snd p @ concat (map packet_bytes qs))"

text \<open>Two states of a session that differ only in what the receiving side uses.\<close>

definition same_sender :: "csession \<Rightarrow> csession \<Rightarrow> bool" where
  "same_sender s t \<longleftrightarrow> cs_id t = cs_id s \<and> cs_b_close t = cs_b_close s \<and> cs_send_que t = cs_send_que s \<and>
    cs_uid t = cs_uid s \<and> cs_open t = cs_open s \<and> cs_writing t = cs_writing s \<and> cs_wire t = cs_wire s"

lemma same_sender_refl [simp]: "same_sender s s"
  by (simp add: same_sender_def)

lemma same_sender_trans: "same_sender s t \<Longrightarrow> same_sender t u \<Longrightarrow> same_sender s u"
  by (simp add: same_sender_def)

lemma holds_write:
  assumes "holds c s" and "length c + length ck \<le> 2048"
  shows "\<exists>d. write_at (length c) ck (cs_data s) = Some d \<and> length d = 2048 \<and>
    take (length c + length ck) d = c @ ck"
  using assms by (auto simp: holds_def write_at_def)

lemma size_of_int_nat: "size_of_int (int n) = n" if "n < 2 ^ 64"
  using that by (simp add: size_of_int_def)

lemma sint_nat16: "n \<le> 2048 \<Longrightarrow> sint (word_of_nat n :: int16) = int n"
  using sint_word_of_int16 [of "int n"] by simp

subsection \<open>One completed read\<close>

abbreviation put_sess :: "nat \<Rightarrow> csession \<Rightarrow> 'x world \<Rightarrow> 'x world" where
  "put_sess ref s w \<equiv> w\<lparr>w_sess := (w_sess w)(ref := s)\<rparr>"

lemma read_partial:
  assumes "cs_read (w_sess w ref) = Some \<lparr>ro_kind = k, ro_read_len = length c, ro_total_len = t\<rparr>"
    and "holds c (w_sess w ref)" and "length c + length ck < t" and "t \<le> 2048"
  shows "\<exists>s. cs_read_some E ref True ck w = Ret () (put_sess ref s w) \<and> holds (c @ ck) s \<and>
    cs_read s = Some \<lparr>ro_kind = k, ro_read_len = length (c @ ck), ro_total_len = t\<rparr> \<and>
    cs_head s = cs_head (w_sess w ref) \<and> cs_recv_msg s = cs_recv_msg (w_sess w ref) \<and>
    same_sender (w_sess w ref) s"
proof -
  from holds_write [OF assms(2), of ck] assms(3,4) obtain d where
    "write_at (length c) ck (cs_data (w_sess w ref)) = Some d" "length d = 2048"
      "take (length c + length ck) d = c @ ck" by auto
  with assms show ?thesis
    by (intro exI [of _ "cs_asyncReadLen k (length c + length ck) t
          ((w_sess w ref)\<lparr>cs_data := d, cs_read := None\<rparr>)"])
      (simp add: cs_read_some_def Let_def run_simps cs_asyncReadLen_def holds_def same_sender_def)
qed

lemma head_fields_run:
  assumes "net_order H" and "head_ok s" and "length d = 2048" and "take 4 d = [a, b, e, f]"
    and "cs_data s = d"
  shows "\<exists>h. mn_total_len h = 4 \<and> length (mn_data h) = 5 \<and>
    head_fields H 4 s = Ret (join16 a b, join16 e f) (s\<lparr>cs_head := h\<rparr>)"
proof -
  obtain z1 z2 z3 z4 z5 where z: "mn_data (cs_head s) = [z1, z2, z3, z4, z5]"
    using assms(2) by (auto simp: head_ok_def numeral_eq_Suc length_Suc_conv)
  define h where "h = (cs_head s)\<lparr>mn_cur_len := 0, mn_data := [a, b, e, f, z5]\<rparr>"
  have "head_fields H 4 s = Ret (join16 a b, join16 e f) (s\<lparr>cs_head := h\<rparr>)"
    using assms
    by (simp add: head_fields_def mn_clear_def run_simps head_ok_def z mn_copy_def write_at_def
        load16_at_def limit_defs ntoh_load16 h_def numeral_eq_Suc)
  moreover have "mn_total_len h = 4" "length (mn_data h) = 5"
    using assms(2) by (simp_all add: h_def head_ok_def)
  ultimately show ?thesis by blast
qed

lemma length4: "length c = 4 \<Longrightarrow> \<exists>a b e f. c = [a, b, e, f]"
  by (auto simp: numeral_eq_Suc length_Suc_conv)

lemma head_complete:
  assumes "net_order (e_host E)" and "waits_head c (w_sess w ref)"
    and "c @ ck = be16 msgid @ be16 (word_of_int (int len))"
    and "sint msgid \<le> 2048" and "0 < len" and "len \<le> 2048"
  shows "\<exists>s. cs_read_some E ref True ck w = Ret () (put_sess ref s w) \<and> waits_body msgid len [] s \<and>
    same_sender (w_sess w ref) s"
proof -
  let ?s = "w_sess w ref" and ?len = "word_of_nat len :: int16"
  have l: "length c + length ck = 4" using arg_cong [OF assms(3), of length] by simp
  from holds_write [of c ?s ck] assms(2) l obtain d where
    d: "write_at (length c) ck (cs_data ?s) = Some d" "length d = 2048" "take 4 d = c @ ck"
    by (auto simp: waits_head_def)
  let ?s1 = "?s\<lparr>cs_data := d, cs_read := None\<rparr>"
  have "head_ok ?s1" using assms(2) by (simp add: waits_head_def head_ok_def)
  from head_fields_run [OF assms(1) this d(2)] d(3) assms(3) obtain h where
    h: "mn_total_len h = 4" "length (mn_data h) = 5"
      "head_fields (e_host E) 4 ?s1 = Ret (msgid, ?len) (?s1\<lparr>cs_head := h\<rparr>)"
    by (force simp: be16_def)
  let ?s2 = "cs_AsyncReadBody (int len) (?s1\<lparr>cs_head := h, cs_recv_msg := Some (empty_node msgid ?len)\<rparr>)"
  have "cs_read_some E ref True ck w = Ret () (put_sess ref ?s2 w)"
    using assms(2,4-6) l d(1) h(3) sint_nat16 [OF assms(6)]
    by (simp add: cs_read_some_def waits_head_def Let_def cs_on_head_def run_simps limit_defs
        RecvNode_new_run empty_node_def)
  moreover have "waits_body msgid len [] ?s2"
    using assms(5,6) h(1,2)
    by (simp add: waits_body_def cs_AsyncReadBody_def cs_asyncReadFull_def cs_asyncReadLen_def
        holds_def head_ok_def limit_defs size_of_int_nat)
  moreover have "same_sender ?s ?s2"
    by (simp add: same_sender_def cs_AsyncReadBody_def cs_asyncReadFull_def cs_asyncReadLen_def)
  ultimately show ?thesis by blast
qed

lemma fill_node_run:
  assumes "length d = 2048" and "take (length body) d = body" and "length body \<le> 2048"
  shows "fill_node (length body) d (empty_node msgid (word_of_int (int (length body)))) s =
    Ret (full_node msgid body) s"
  using assms sint_nat16 [OF assms(3)]
  by (simp add: fill_node_def empty_node_def full_node_def run_simps mn_copy_def write_at_def Let_def
      nat_add_distrib replicate_append_same)

lemma body_complete:
  assumes "waits_body msgid (length body) c (w_sess w ref)" and "c @ ck = body"
  shows "\<exists>s. cs_read_some E ref True ck w =
      Ret () (put_sess ref s (w\<lparr>w_msg_que := w_msg_que w @ [node_for ref (msgid, body)]\<rparr>)) \<and>
    waits_head [] s \<and> same_sender (w_sess w ref) s"
proof -
  let ?s = "w_sess w ref"
  have l: "length c + length ck = length body" using arg_cong [OF assms(2), of length] by simp
  with holds_write [of c ?s ck] assms obtain d where
    d: "write_at (length c) ck (cs_data ?s) = Some d" "length d = 2048" "take (length body) d = body"
    by (auto simp: waits_body_def)
  from assms(1) have b: "length body \<le> 2048" by (simp add: waits_body_def)
  let ?s2 = "cs_AsyncReadHead (?s\<lparr>cs_data := d, cs_read := None,
      cs_recv_msg := Some (full_node msgid body)\<rparr>)"
  have f: "fill_node (length body) d (empty_node msgid (word_of_nat (length body))) v =
      Ret (full_node msgid body) v" for v :: "'a world"
    using fill_node_run [OF d(2,3) b] by simp
  have "cs_read_some E ref True ck w =
      Ret () (put_sess ref ?s2 (w\<lparr>w_msg_que := w_msg_que w @ [node_for ref (msgid, body)]\<rparr>))"
    using assms(1) l d(1)
    by (simp add: f cs_read_some_def waits_body_def Let_def cs_on_body_def run_simps post_msg_def
        node_for_def)
  moreover have "waits_head [] ?s2"
    using assms(1)
    by (simp add: waits_head_def waits_body_def cs_AsyncReadHead_def cs_asyncReadFull_def
        cs_asyncReadLen_def holds_def head_ok_def limit_defs)
  moreover have "same_sender ?s ?s2"
    by (simp add: same_sender_def cs_AsyncReadHead_def cs_asyncReadFull_def cs_asyncReadLen_def)
  ultimately show ?thesis by blast
qed

lemma packet_bytes_eq: "packet_bytes p =
    (be16 (fst p) @ be16 (word_of_int (int (length (snd p))))) @ snd p"
  by (simp add: packet_bytes_def msg_packet_def)

lemma stands_cases:
  assumes "stands rest ps s" and "\<forall>p \<in> set ps. good_packet p"
  obtains (finished) "ps = []" and "rest = []" and "waits_head [] s"
  | (head) c p qs where "ps = p # qs" and "good_packet p" and "waits_head c s"
      and "c @ rest = packet_bytes p @ concat (map packet_bytes qs)"
  | (body) c p qs where "ps = p # qs" and "good_packet p"
      and "waits_body (fst p) (length (snd p)) c s"
      and "c @ rest = snd p @ concat (map packet_bytes qs)"
  using assms by (cases ps) (auto simp: stands_def)

lemma stands_finished:
  assumes "stands [] ps s" and "\<forall>p \<in> set ps. good_packet p"
  shows "ps = [] \<and> waits_head [] s"
  using assms
proof (cases rule: stands_cases)
  case (head c p qs)
  then have "length c \<ge> 4"
    using arg_cong [OF head(4), of length] by (simp add: packet_bytes_eq)
  with head(3) show ?thesis by (simp add: waits_head_def)
next
  case (body c p qs)
  then have "length c \<ge> length (snd p)"
    using arg_cong [OF body(4), of length] by simp
  with body(3) show ?thesis by (simp add: waits_body_def)
qed auto

lemma take_to_boundary:
  assumes "c @ rest = h @ t" and "length c \<le> length h"
  shows "c @ take (length h - length c) rest = h \<and> drop (length h - length c) rest = t"
  using assms by (auto simp: append_eq_append_conv_if append_eq_conv_conj min_def)

lemma feed_step:
  assumes "net_order (e_host E)" and "stands rest ps (w_sess w ref)"
    and "\<forall>p \<in> set ps. good_packet p" and "rest \<noteq> []" and "0 < k"
    and n: "n = min k (cs_requested (w_sess w ref))"
  shows "0 < n \<and> (\<exists>s posted ps'. ps = posted @ ps' \<and> stands (drop n rest) ps' s \<and>
    same_sender (w_sess w ref) s \<and> cs_read_some E ref True (take n rest) w =
      Ret () (put_sess ref s (w\<lparr>w_msg_que := w_msg_que w @ map (node_for ref) posted\<rparr>)))"
  using assms(2,3)
proof (cases rule: stands_cases)
  case finished
  with assms(4) show ?thesis by simp
next
  case (head c p qs)
  let ?h = "be16 (fst p) @ be16 (word_of_int (int (length (snd p))))"
  have wc: "length c < 4" "cs_requested (w_sess w ref) = 4 - length c"
    using head(3) by (simp_all add: waits_head_def cs_requested_def)
  have cr: "c @ rest = ?h @ snd p @ concat (map packet_bytes qs)"
    using head(4) by (simp add: packet_bytes_eq)
  have n0: "0 < n" "n \<le> 4 - length c" using wc assms(5) n by simp_all
  show ?thesis
  proof (cases "length (c @ take n rest) < 4")
    case True
    with read_partial [of w ref ReadHead c 4 "take n rest" E] head(3) obtain s where
      s: "cs_read_some E ref True (take n rest) w = Ret () (put_sess ref s w)"
        "holds (c @ take n rest) s" "same_sender (w_sess w ref) s" "cs_head s = cs_head (w_sess w ref)"
        "cs_read s = Some \<lparr>ro_kind = ReadHead, ro_read_len = length (c @ take n rest), ro_total_len = 4\<rparr>"
      by (auto simp: waits_head_def)
    have "waits_head (c @ take n rest) s"
      using s True head(3) by (simp add: waits_head_def head_ok_def)
    then have "stands (drop n rest) ps s"
      using head(1,4) by (auto simp: stands_def intro!: exI [of _ "c @ take n rest"])
    with s n0(1) show ?thesis
      by (intro conjI exI [of _ s] exI [of _ "[]"] exI [of _ ps]) auto
  next
    case False
    then have n4: "n = length ?h - length c" using n0 by simp
    from take_to_boundary [OF cr] wc(1) have
      b: "c @ take n rest = ?h" "drop n rest = snd p @ concat (map packet_bytes qs)"
      unfolding n4 by simp_all
    from head_complete [OF assms(1) head(3) b(1)] head(2) obtain s where
      s: "cs_read_some E ref True (take n rest) w = Ret () (put_sess ref s w)"
        "waits_body (fst p) (length (snd p)) [] s" "same_sender (w_sess w ref) s"
      by (auto simp: good_packet_def)
    have "stands (drop n rest) ps s" unfolding stands_def
      using s(2) b(2) head(1) by (intro disjI2 exI [of _ "[]"] exI [of _ p] exI [of _ qs]) simp
    with s n0(1) show ?thesis
      by (intro conjI exI [of _ s] exI [of _ "[]"] exI [of _ ps]) auto
  qed
next
  case (body c p qs)
  let ?l = "length (snd p)"
  have wc: "length c < ?l" "cs_requested (w_sess w ref) = ?l - length c"
    using body(3) by (simp_all add: waits_body_def cs_requested_def)
  have n0: "0 < n" "n \<le> ?l - length c" using wc assms(5) n by simp_all
  show ?thesis
  proof (cases "length (c @ take n rest) < ?l")
    case True
    with read_partial [of w ref ReadBody c ?l "take n rest" E] body(3) obtain s where
      s: "cs_read_some E ref True (take n rest) w = Ret () (put_sess ref s w)"
        "holds (c @ take n rest) s" "same_sender (w_sess w ref) s" "cs_head s = cs_head (w_sess w ref)"
        "cs_recv_msg s = cs_recv_msg (w_sess w ref)"
        "cs_read s = Some \<lparr>ro_kind = ReadBody, ro_read_len = length (c @ take n rest), ro_total_len = ?l\<rparr>"
      by (auto simp: waits_body_def)
    have "waits_body (fst p) ?l (c @ take n rest) s"
      using s True body(3) by (simp add: waits_body_def head_ok_def)
    then have "stands (drop n rest) ps s" unfolding stands_def
      using body(1,4)
      by (intro disjI2 exI [of _ "c @ take n rest"] exI [of _ p] exI [of _ qs]) simp
    with s n0(1) show ?thesis
      by (intro conjI exI [of _ s] exI [of _ "[]"] exI [of _ ps]) auto
  next
    case False
    then have nl: "n = ?l - length c" using n0 by simp
    from take_to_boundary [OF body(4)] wc(1) have
      b: "c @ take n rest = snd p" "drop n rest = concat (map packet_bytes qs)"
      unfolding nl by simp_all
    from body_complete [OF body(3) b(1)] obtain s where
      s: "cs_read_some E ref True (take n rest) w =
        Ret () (put_sess ref s (w\<lparr>w_msg_que := w_msg_que w @ [node_for ref p]\<rparr>))" "waits_head [] s"
        "same_sender (w_sess w ref) s"
      by auto
    have "stands (drop n rest) qs s" using s(2) b(2) by (auto simp: stands_def)
    with s n0(1) body(1) show ?thesis by (intro conjI exI [of _ s] exI [of _ "[p]"] exI [of _ qs]) auto
  qed
qed

lemma feed_stands:
  assumes "net_order (e_host E)" and "stands rest ps (w_sess w ref)"
    and "\<forall>p \<in> set ps. good_packet p" and "\<forall>k \<in> set ks. 0 < k" and "length rest \<le> length ks"
  shows "\<exists>s. waits_head [] s \<and> same_sender (w_sess w ref) s \<and> feed E ref rest ks w =
    Ret () (put_sess ref s (w\<lparr>w_msg_que := w_msg_que w @ map (node_for ref) ps\<rparr>))"
  using assms(2-)
proof (induction ks arbitrary: rest ps w)
  case Nil
  then have "stands [] ps (w_sess w ref)" by simp
  from stands_finished [OF this Nil(2)] show ?case
    by (intro exI [of _ "w_sess w ref"]) (simp del: fun_upd_apply)
next
  case (Cons k ks)
  show ?case
  proof (cases "rest = []")
    case True
    with Cons.prems stands_finished [of ps "w_sess w ref"] show ?thesis
      by (intro exI [of _ "w_sess w ref"]) (simp del: fun_upd_apply)
  next
    case False
    define n where "n = min k (cs_requested (w_sess w ref))"
    from feed_step [OF assms(1) Cons.prems(1,2) False _ n_def] Cons.prems(3) obtain s posted ps' where
      st: "0 < n" "ps = posted @ ps'" "stands (drop n rest) ps' s"
        "same_sender (w_sess w ref) s" "cs_read_some E ref True (take n rest) w =
          Ret () (put_sess ref s (w\<lparr>w_msg_que := w_msg_que w @ map (node_for ref) posted\<rparr>))"
      by auto
    let ?w = "put_sess ref s (w\<lparr>w_msg_que := w_msg_que w @ map (node_for ref) posted\<rparr>)"
    have "length (drop n rest) \<le> length ks" using Cons.prems(4) st(1) by simp
    with Cons.IH [of "drop n rest" ps' ?w] Cons.prems(2,3) st(2,3) obtain s' where
      s': "waits_head [] s'" "same_sender s s'" "feed E ref (drop n rest) ks ?w =
        Ret () (put_sess ref s' (?w\<lparr>w_msg_que := w_msg_que ?w @ map (node_for ref) ps'\<rparr>))"
      by (auto simp del: fun_upd_apply simp: fun_upd_same)
    have "feed E ref rest (k # ks) w = feed E ref (drop n rest) ks ?w"
      using False st(5) by (simp add: run_simps n_def [symmetric] Let_def)
    with s' st(2) same_sender_trans [OF st(4) s'(2)] show ?thesis
      by (intro exI [of _ s']) (simp del: fun_upd_apply)
  qed
qed

lemma feed_run:
  assumes "net_order (e_host E)" and "waits_head [] (w_sess w ref)"
    and "\<forall>p \<in> set ps. good_packet p" and "\<forall>k \<in> set ks. 0 < k"
    and "length (concat (map packet_bytes ps)) \<le> length ks"
  shows "\<exists>s. waits_head [] s \<and> same_sender (w_sess w ref) s \<and>
    feed E ref (concat (map packet_bytes ps)) ks w =
    Ret () (w\<lparr>w_sess := (w_sess w)(ref := s), w_msg_que := w_msg_que w @ map (node_for ref) ps\<rparr>)"
proof -
  have "stands (concat (map packet_bytes ps)) ps (w_sess w ref)"
    using assms(2) by (auto simp: stands_def)
  from feed_stands [OF assms(1) this assms(3-5)] show ?thesis by auto
qed

section \<open>Properties\<close>

text \<open>
  C3. Framing. A session waiting for a header that receives the concatenation of packets with ids
  and lengths in bounds posts exactly these messages, in order, and waits for the next header,
  however the network cuts the stream: \<open>ks\<close> are the sizes of its chunks, at least one byte each and
  enough of them. The sending side of the session and the rest of the server do not change.
\<close>

theorem feed_posts_packets:
  assumes "net_order (e_host E)" and "waits_head [] (w_sess w ref)"
    and "\<forall>p \<in> set ps. good_packet p" and "\<forall>k \<in> set ks. 0 < k"
    and "length (concat (map packet_bytes ps)) \<le> length ks"
  shows "\<exists>s. waits_head [] s \<and> same_sender (w_sess w ref) s \<and>
    feed E ref (concat (map packet_bytes ps)) ks w =
    Ret () (w\<lparr>w_sess := (w_sess w)(ref := s), w_msg_que := w_msg_que w @ map (node_for ref) ps\<rparr>)"
  using assms by (rule feed_run)

end
