(* ===== verification/Demo.thy ===== *)
theory Demo
  imports SessionFraming
begin

text \<open>
  A concrete outside world: a Redis server and a database held in two tables, a JSON library over
  a data type of values with a table of known texts, peers that answer calls, and a host of
  either byte order. The theory Witnesses evaluates the properties in it, which shows that their
  hypotheses can hold together.
\<close>

section \<open>Hosts\<close>

definition demo_host :: host where
  "demo_host = \<lparr>h_endian = Little, h_hton = swap16, h_ntoh = swap16\<rparr>"

lemma net_order_demo: "net_order demo_host"
  by (simp add: net_order_def demo_host_def)

section \<open>The Redis server and the database\<close>

type_synonym demo_row = "(string \<times> sql_arg) list"

record demo_ext =
  dx_kv :: "string \<Rightarrow> string option"
  dx_hkv :: "string \<Rightarrow> string \<Rightarrow> string option"
  dx_users :: "int32 \<Rightarrow> demo_row list"
  dx_friends :: "int32 \<Rightarrow> demo_row list"

definition bulk :: "string option \<Rightarrow> redis_reply option \<times> bool" where
  "bulk v = (Some (case v of None \<Rightarrow> RNil | Some t \<Rightarrow> RString t), False)"

definition wrong_kind :: "redis_reply option \<times> bool" where
  "wrong_kind = (Some (RError ''WRONGTYPE''), False)"

text \<open>A key that holds a string holds no hash, whatever \<open>dx_hkv\<close> says.\<close>

definition held_hash :: "demo_ext \<Rightarrow> string \<Rightarrow> string \<Rightarrow> string option" where
  "held_hash x k = (if dx_kv x k = None then dx_hkv x k else Map.empty)"

fun demo_command :: "nat \<Rightarrow> redis_call \<Rightarrow> demo_ext \<Rightarrow> (redis_reply option \<times> bool) \<times> demo_ext" where
  "demo_command c (RedisCommand fmt args) x =
    (if fmt = ''GET %s''
     then (if dx_kv x (args ! 0) = None \<and> dx_hkv x (args ! 0) \<noteq> Map.empty then wrong_kind
           else bulk (dx_kv x (args ! 0)), x)
     else if fmt = ''SET %s %s''
     then ((Some (RStatus ''OK''), False), x\<lparr>dx_kv := (dx_kv x)(args ! 0 \<mapsto> args ! 1)\<rparr>)
     else if fmt = ''HDEL %s %s''
     then (if dx_kv x (args ! 0) \<noteq> None then (wrong_kind, x)
           else ((Some (RInteger (if dx_hkv x (args ! 0) (args ! 1) = None then 0 else 1)), False),
             x\<lparr>dx_hkv := (dx_hkv x)(args ! 0 := (dx_hkv x (args ! 0))(args ! 1 := None))\<rparr>))
     else ((Some (RStatus ''PONG''), False), x))"
| "demo_command c (RedisCommandArgv args) x =
    (if dx_kv x (args ! 1) \<noteq> None then (wrong_kind, x)
     else if args ! 0 = ''HGET'' then (bulk (dx_hkv x (args ! 1) (args ! 2)), x)
     else ((Some (RInteger 1), False),
           x\<lparr>dx_hkv := (dx_hkv x)(args ! 1 := (dx_hkv x (args ! 1))(args ! 2 \<mapsto> args ! 3))\<rparr>))"

definition demo_redis :: "demo_ext redis_api" where
  "demo_redis = \<lparr>r_connect = (\<lambda>host port x. (Some (7, False), x)), r_command = demo_command\<rparr>"

definition demo_view :: "demo_ext redis_view" where
  "demo_view = \<lparr>kv = dx_kv, hkv = held_hash\<rparr>"

lemma demo_redis_serves: "redis_serves demo_redis demo_view"
  unfolding redis_serves_def
  by (intro conjI allI)
    (auto simp: demo_redis_def demo_view_def bulk_def wrong_kind_def held_hash_def fun_eq_iff split: option.splits)

text \<open>A server that answers nothing.\<close>

definition mute_redis :: "unit redis_api" where
  "mute_redis = \<lparr>r_connect = (\<lambda>host port x. (Some (7, False), x)),
     r_command = (\<lambda>c call x. ((None, True), x))\<rparr>"

definition demo_pool :: redis_pool where
  "demo_pool = \<lparr>rp_stop = False, rp_size = 2, rp_host = ''h'', rp_pwd = ''p'', rp_port = 6379,
     rp_conns = [1, 2], rp_fail = 0, rp_counter = 0, rp_in_check = False\<rparr>"

lemma demo_pool_ready: "rp_ready demo_pool"
  by (simp add: rp_ready_def demo_pool_def)

definition demo_query ::
  "nat \<Rightarrow> string \<Rightarrow> sql_arg list \<Rightarrow> demo_ext \<Rightarrow> demo_row list option \<times> demo_ext" where
  "demo_query c stmt args x =
    (Some (case args of
       [SqlInt i] \<Rightarrow> if stmt = user_stmt then dx_users x i
         else if stmt = ''SELECT * FROM friend WHERE self_id = ?'' then dx_friends x i else []
     | _ \<Rightarrow> []), x)"

definition demo_update ::
  "nat \<Rightarrow> string \<Rightarrow> sql_arg list \<Rightarrow> demo_ext \<Rightarrow> int option \<times> demo_ext" where
  "demo_update c stmt args x = (Some 1, x)"

definition demo_sql :: "(demo_ext, demo_row) sql_api" where
  "demo_sql =
    \<lparr>s_connect = (\<lambda>url user pass x. (Some 9, x)), s_set_schema = (\<lambda>c schema x. (True, x)),
     s_now = (\<lambda>x. (100, x)), s_query = demo_query, s_update = demo_update,
     s_int = (\<lambda>row col. case map_of row col of Some (SqlInt i) \<Rightarrow> Some i | _ \<Rightarrow> None),
     s_str = (\<lambda>row col. case map_of row col of Some (SqlString t) \<Rightarrow> Some t | _ \<Rightarrow> None)\<rparr>"

lemma demo_reads_users: "reads_users demo_sql dx_users"
  by (simp add: reads_users_def demo_sql_def demo_query_def)

lemma demo_pings: "pings_answered demo_sql"
  by (simp add: pings_answered_def demo_sql_def demo_query_def)

definition demo_con :: "nat \<Rightarrow> sql_connection" where
  "demo_con c = \<lparr>sc_con = c, sc_last_oper_time = 0\<rparr>"

definition demo_mysql :: mysql_pool where
  "demo_mysql = \<lparr>mp_stop = False, mp_url = ''u'', mp_user = ''r'', mp_pass = ''p'', mp_schema = ''s'',
     mp_size = 2, mp_conns = [demo_con 1, demo_con 2], mp_fail = 0, mp_checking = True\<rparr>"

definition alice_row :: demo_row where
  "alice_row =
    [(''uid'', SqlInt 1), (''pwd'', SqlString ''a''), (''email'', SqlString ''e''),
     (''name'', SqlString ''alice''), (''nick'', SqlString []), (''desc'', SqlString ''d''),
     (''sex'', SqlInt 0), (''icon'', SqlString ''i'')]"

definition friend_row :: demo_row where
  "friend_row = [(''friend_id'', SqlInt 1), (''alias_name'', SqlString ''ally'')]"

text \<open>User 1 is Alice, whose login token is \<open>tok\<close>; user 2 has her as a friend.\<close>

definition demo_ext0 :: demo_ext where
  "demo_ext0 =
    \<lparr>dx_kv = [''utoken_1'' \<mapsto> ''tok''], dx_hkv = (\<lambda>_. Map.empty),
     dx_users = (\<lambda>uid. if uid = 1 then [alice_row] else []),
     dx_friends = (\<lambda>uid. if uid = 2 then [friend_row] else [])\<rparr>"

section \<open>JSON\<close>

datatype jval = JNull | JInt int32 | JStr string | JArr "jval list" | JObj "(string \<times> jval) list"

definition demo_texts :: "(string \<times> jval) list" where
  "demo_texts =
    [(''config'', JObj [(''SelfServer'', JObj [(''Name'', JStr ''s1''), (''Port'', JStr ''8090'')]),
                     (''Version'', JInt 3)])]"

definition demo_member :: "jval \<Rightarrow> string \<Rightarrow> jval option" where
  "demo_member v k = (case v of
      JObj kvs \<Rightarrow> Some (case map_of kvs k of None \<Rightarrow> JNull | Some w \<Rightarrow> w)
    | JNull \<Rightarrow> Some JNull
    | _ \<Rightarrow> None)"

definition demo_json :: "jval json_api" where
  "demo_json =
    \<lparr>j_parse = (\<lambda>t. case map_of demo_texts t of None \<Rightarrow> (False, JNull) | Some v \<Rightarrow> (True, v)),
     j_member = demo_member,
     j_as_int = (\<lambda>v. case v of JInt i \<Rightarrow> Some i | JNull \<Rightarrow> Some 0 | _ \<Rightarrow> None),
     j_as_string = (\<lambda>v. case v of JStr t \<Rightarrow> Some t | JInt i \<Rightarrow> Some (to_string i) | JNull \<Rightarrow> Some [] | _ \<Rightarrow> None),
     j_is_member = (\<lambda>v k. case v of JObj kvs \<Rightarrow> Some (map_of kvs k \<noteq> None) | JNull \<Rightarrow> Some False | _ \<Rightarrow> None),
     j_is_int = (\<lambda>v. case v of JInt _ \<Rightarrow> True | _ \<Rightarrow> False),
     j_is_null = (\<lambda>v. v = JNull),
     j_is_empty = (\<lambda>v. v = JNull \<or> v = JArr [] \<or> v = JObj []),
     j_is_object = (\<lambda>v. case v of JObj _ \<Rightarrow> True | JNull \<Rightarrow> True | _ \<Rightarrow> False),
     j_member_names = (\<lambda>v. case v of JObj kvs \<Rightarrow> Some (map fst kvs) | JNull \<Rightarrow> Some [] | _ \<Rightarrow> None),
     j_elements = (\<lambda>v. case v of JArr vs \<Rightarrow> vs | JObj kvs \<Rightarrow> map snd kvs | _ \<Rightarrow> []),
     j_styled = (\<lambda>d. ''{}''), j_fast = (\<lambda>d. ''{}'')\<rparr>"

section \<open>Other servers\<close>

text \<open>Peers that cannot be reached: every call fails and leaves the reply as it was.\<close>

definition down_rpc :: "demo_ext rpc_api" where
  "down_rpc =
    \<lparr>rpc_add = (\<lambda>c q r x. ((False, r), x)), rpc_auth = (\<lambda>c q r x. ((False, r), x)),
     rpc_text = (\<lambda>c q r x. ((False, r), x)), rpc_chat_server = (\<lambda>c q r x. ((False, r), x)),
     rpc_login = (\<lambda>c q r x. ((False, r), x))\<rparr>"

section \<open>A server\<close>

definition demo_cfg :: config where
  "demo_cfg = [''SelfServer'' \<mapsto> [''Name'' \<mapsto> ''s1'']]"

definition demo_env :: "(demo_ext, demo_row, jval) env" where
  "demo_env = \<lparr>e_redis = demo_redis, e_sql = demo_sql, e_json = demo_json, e_rpc = down_rpc,
     e_close = (\<lambda>x. (True, x)), e_cfg = demo_cfg, e_host = demo_host, e_nrvo = True\<rparr>"

definition demo_session :: csession where
  "demo_session =
    \<lparr>cs_id = ''a'', cs_data = replicate 2048 (CHR 0x00), cs_b_close = False, cs_send_que = [],
     cs_recv_msg = None,
     cs_head = \<lparr>mn_cur_len = 0, mn_total_len = 4, mn_data = replicate 5 (CHR 0x00)\<rparr>, cs_uid = 0,
     cs_open = True, cs_read = Some \<lparr>ro_kind = ReadHead, ro_read_len = 0, ro_total_len = 4\<rparr>,
     cs_writing = False, cs_wire = []\<rparr>"

definition demo_world :: "demo_ext world" where
  "demo_world =
    \<lparr>w_ext = demo_ext0, w_redis = demo_pool, w_mysql = demo_mysql, w_users = Map.empty,
     w_sess = (\<lambda>_. demo_session), w_sessions = [''a'' \<mapsto> 1], w_accepting = Some 2,
     w_peers = Map.empty, w_msg_que = []\<rparr>"

lemma demo_session_waits: "waits_head [] demo_session"
  by (simp add: waits_head_def holds_def head_ok_def demo_session_def)

end
