(* ===== verification/Witnesses.thy ===== *)
theory Witnesses
  imports Demo
begin

text \<open>
  Each property that has hypotheses, applied at one concrete input of the theory Demo where they
  hold.
\<close>

section \<open>Configuration\<close>

definition config_root :: jval where
  "config_root = snd (j_parse demo_json ''config'')"

lemma ConfigMgr_new_reads_file_witness:
  "\<exists>cfg. ConfigMgr_new demo_json (Some ''config'') () = Ret cfg () \<and>
    cfg_get cfg ''SelfServer'' ''Port'' = ''8090''"
  using ConfigMgr_new_reads_file [of demo_json "''config''" config_root "[''SelfServer'', ''Version'']"
      "()" "''SelfServer''" "''Port''"]
  by (simp add: config_root_def demo_json_def demo_texts_def config_ok_def demo_member_def
      section_ok_def section_of_def member_text_def)

section \<open>Redis\<close>

lemma rp_checkThreadPro_owned_witness:
  "\<exists>q y. rp_checkThreadPro demo_redis (demo_pool, demo_ext0) = Ret () (q, y) \<and> \<not> rp_stop q \<and>
    0 \<le> rp_fail q \<and> int (length (rp_conns q)) + rp_fail q = 2"
  using rp_checkThreadPro_owned [of demo_pool demo_redis demo_ext0] by (simp add: demo_pool_def)

lemma RedisConPool_new_null_auth_witness: "RedisConPool_new mute_redis 2 ''h'' 6379 ''p'' () = Undef"
  using RedisConPool_new_null_auth [of mute_redis "''h''" 6379 "()" 7 "()" "''p''" True "()" 2]
  by (simp add: mute_redis_def cstr_def)

lemma redis_commands_give_back_witness:
  "rotates demo_pool (redis_get demo_redis ''k'' (demo_pool, demo_ext0)) \<and>
   rotates demo_pool (redis_set demo_redis ''k'' ''v'' (demo_pool, demo_ext0))"
  using redis_commands_give_back [of demo_pool demo_redis "''k''" demo_ext0 "''v''"]
  by (simp add: demo_pool_def)

text \<open>A reply that is a number, from a server with another value under the key.\<close>

definition count_redis :: "unit redis_api" where
  "count_redis = \<lparr>r_connect = (\<lambda>host port x. (Some (7, False), x)),
     r_command = (\<lambda>c call x. ((Some (RInteger 5), False), x))\<rparr>"

lemma redis_hGet_null_text_witness: "redis_hGet count_redis ''k'' ''h'' (demo_pool, ()) = Undef"
  using redis_hGet_null_text [of demo_pool 1 "[2]" count_redis "''k''" "''h''" "()" "Some (RInteger 5)"
      False "()"]
  by (simp add: demo_pool_def count_redis_def)

lemma redis_set_then_get_witness:
  "\<exists>y. redis_set demo_redis ''k'' ''v'' (demo_pool, demo_ext0) = Ret True (spin demo_pool, y) \<and>
     redis_get demo_redis ''k'' (spin demo_pool, y) = Ret (Some ''v'') (spin (spin demo_pool), y)"
  using redis_set_then_get [OF demo_redis_serves demo_pool_ready, of "''k''" "''h''" "''v''" demo_ext0]
  by (auto simp: cstr_def)

section \<open>MySQL\<close>

lemma mp_checkConnection_owned_witness:
  "\<exists>q y. mp_checkConnection demo_sql (demo_mysql, demo_ext0) = Ret () (q, y) \<and>
    int (length (mp_conns q)) + mp_fail q = 2"
  using mp_checkConnection_owned [of demo_mysql demo_sql demo_ext0] by (auto simp: demo_mysql_def)

lemma mp_checkConnection_healthy_witness:
  "\<exists>q y. mp_checkConnection demo_sql (demo_mysql, demo_ext0) = Ret () (q, y) \<and>
    map sc_con (mp_conns q) = [1, 2]"
  using mp_checkConnection_healthy [OF demo_pings, of demo_mysql demo_ext0]
  by (auto simp: demo_mysql_def demo_con_def)

lemma dao_operations_give_back_witness:
  "mrotates demo_mysql (dao_getUserInfo demo_sql 1 (demo_mysql, demo_ext0))"
  using dao_operations_give_back [of demo_mysql demo_sql 1 demo_ext0 "[]" 2 "[]" 0 10 "[]"]
  by (simp add: demo_mysql_def)

lemma dao_getUserInfo_result_witness:
  "\<exists>u. dao_getUserInfo demo_sql 1 (demo_mysql, demo_ext0) =
     Ret (Some u) (demo_mysql\<lparr>mp_conns := [demo_con 2, demo_con 1]\<rparr>, demo_ext0) \<and> ui_nick u = ''alice''"
  using dao_getUserInfo_result [of demo_mysql "demo_con 1" "[demo_con 2]" demo_sql 1 demo_ext0]
  by (simp add: demo_mysql_def result_user_def demo_sql_def demo_query_def demo_ext0_def
      row_user_def alice_row_def demo_con_def)

lemma dao_getFriendList_connections_witness:
  "dao_getFriendList demo_sql 2 [] (demo_mysql\<lparr>mp_conns := [demo_con 1]\<rparr>, demo_ext0) =
    Blocked (demo_mysql\<lparr>mp_conns := []\<rparr>, demo_ext0)"
  using dao_getFriendList_connections [of "demo_mysql\<lparr>mp_conns := [demo_con 1]\<rparr>" "demo_con 1" "[]"
      demo_sql 2 demo_ext0 friend_row "[]" demo_ext0 1 "''ally''" "[]"]
  by (simp add: demo_mysql_def demo_sql_def demo_query_def demo_ext0_def friend_row_def demo_con_def)

lemma dao_getFriendList_result_witness:
  "\<exists>q u. dao_getFriendList demo_sql 2 [] (demo_mysql, demo_ext0) = Ret (True, [u]) (q, demo_ext0) \<and>
    ui_name u = ''alice'' \<and> ui_alias_name u = ''ally''"
  using dao_getFriendList_result [OF _ _ demo_reads_users, of demo_mysql "demo_con 1" "demo_con 2" "[]" 2
      demo_ext0 "[friend_row]" demo_ext0]
  by (auto simp: demo_mysql_def demo_sql_def demo_query_def demo_ext0_def friend_row_def demo_con_def
      row_readable_def friend_of_def result_user_def row_user_def alice_row_def)

text \<open>A database whose second insertion throws.\<close>

definition half_sql :: "(int, demo_row) sql_api" where
  "half_sql =
    \<lparr>s_connect = (\<lambda>url user pass x. (Some 9, x)), s_set_schema = (\<lambda>c schema x. (True, x)),
     s_now = (\<lambda>x. (100, x)), s_query = (\<lambda>c stmt args x. (None, x)),
     s_update = (\<lambda>c stmt args x. (if x = 0 then Some 1 else None, x + 1)),
     s_int = (\<lambda>row col. None), s_str = (\<lambda>row col. None)\<rparr>"

lemma dao_addFriend_result_witness:
  "dao_addFriend half_sql 1 2 ''a'' ''b'' (demo_mysql, 0) =
    Ret False (demo_mysql\<lparr>mp_conns := [demo_con 2, demo_con 1]\<rparr>, 2)"
  using dao_addFriend_result [of demo_mysql "demo_con 1" "[demo_con 2]" half_sql 1 2 "''a''" 0 "Some 1" 1
      "''b''" None 2]
  by (simp add: demo_mysql_def half_sql_def)

section \<open>Packets and sessions\<close>

lemma SendNode_wire_format_witness:
  "\<exists>n. SendNode_new demo_host ''hi'' 2 2002 () = Ret n () \<and>
    map_option (h_ntoh demo_host) (load16_at (h_endian demo_host) 0 (node_bytes n)) = Some 2002"
  using SendNode_wire_format [OF net_order_demo, of 2 "''hi''" 2002 "()"] by auto

definition idle_session :: csession where
  "idle_session = demo_session\<lparr>cs_read := None\<rparr>"

lemma idle_session_send:
  "\<exists>t node. cs_send demo_host ''hi'' 2002 idle_session = Ret () t \<and> t = idle_session\<lparr>cs_send_que := [node],
     cs_wire := [msg_packet ''hi'' 2002], cs_writing := True\<rparr>"
  using cs_send_accepts [OF net_order_demo, of "''hi''" idle_session 2002]
  by (auto simp: cs_accepts_def limit_defs idle_session_def demo_session_def)

lemma send_queue_fifo_witness:
  "\<exists>t. cs_run demo_host idle_session [Send ''hi'' 2002] [msg_packet ''hi'' 2002] t \<and>
    cs_wire t @ map node_bytes (tl (cs_send_que t)) = [msg_packet ''hi'' 2002]"
proof -
  from idle_session_send obtain t where t: "cs_send demo_host ''hi'' 2002 idle_session = Ret () t"
    by blast
  have "cs_run demo_host idle_session [Send ''hi'' 2002]
      (taken_packet idle_session (Send ''hi'' 2002) @ []) t"
    by (rule cs_run.step [OF cs_step.send [OF t] cs_run.stop])
  then have r: "cs_run demo_host idle_session [Send ''hi'' 2002] [msg_packet ''hi'' 2002] t"
    by (simp add: taken_packet_def cs_accepts_def limit_defs idle_session_def demo_session_def)
  with send_queue_fifo [OF net_order_demo r] show ?thesis
    by (auto simp: idle_session_def demo_session_def)
qed

lemma send_queue_drains_witness:
  "\<exists>s t. cs_send demo_host ''hi'' 2002 idle_session = Ret () s \<and>
    cs_run demo_host s [Written True] [] t \<and> cs_send_que t = [] \<and>
    cs_wire t = [msg_packet ''hi'' 2002]"
proof -
  from idle_session_send obtain s node where
    s: "cs_send demo_host ''hi'' 2002 idle_session = Ret () s" "s = idle_session\<lparr>cs_send_que := [node],
     cs_wire := [msg_packet ''hi'' 2002], cs_writing := True\<rparr>" by blast
  then have "busy_iff_queued s" by (simp add: busy_iff_queued_def)
  from send_queue_drains [OF this, of demo_host] s show ?thesis by (auto simp: out_log_def)
qed

lemma send_stalls_after_error_witness:
  "\<exists>s t. cs_send demo_host ''hi'' 2002 idle_session = Ret () s \<and> cs_handleWrite False s = Ret () t \<and>
    cs_wire t = cs_wire s \<and> \<not> cs_writing t \<and> cs_send_que t \<noteq> []"
proof -
  from idle_session_send obtain s node where
    s: "cs_send demo_host ''hi'' 2002 idle_session = Ret () s" "s = idle_session\<lparr>cs_send_que := [node],
     cs_wire := [msg_packet ''hi'' 2002], cs_writing := True\<rparr>" by blast
  then have "cs_handleWrite False s = Ret () (s\<lparr>cs_writing := False\<rparr>)"
    by (simp add: cs_handleWrite_def Let_def)
  with send_stalls_after_error [OF net_order_demo _ this cs_run.stop] s show ?thesis by auto
qed

lemma feed_posts_packets_witness:
  "\<exists>s. feed demo_env 1 (packet_bytes (2001, ''ab'') @ packet_bytes (2003, ''c'')) (replicate 11 3) demo_world =
    Ret () (demo_world\<lparr>w_sess := (\<lambda>_. demo_session)(1 := s),
      w_msg_que := [node_for 1 (2001, ''ab''), node_for 1 (2003, ''c'')]\<rparr>)"
  using feed_posts_packets [of demo_env demo_world 1 "[(2001, ''ab''), (2003, ''c'')]" "replicate 11 3"]
    net_order_demo demo_session_waits
  by (auto simp: demo_env_def demo_world_def good_packet_def packet_bytes_eq)

section \<open>RPC clients\<close>

lemma split_join_words_witness: "split_words [] (join_words [''s1'', ''s2'']) = [''s1'', ''s2'']"
  by (rule split_join_words) auto

definition demo_peer :: chat_pool where
  "demo_peer = \<lparr>cp_stop = False, cp_size = 1, cp_host = ''h'', cp_port = ''1'', cp_conns = [(''h:1'', 0)]\<rparr>"

lemma notify_failure_reported_witness:
  "\<exists>a q. chat_NotifyAddFriend down_rpc True ''s2'' new_AddFriendReq ([''s2'' \<mapsto> demo_peer], demo_ext0) =
      Ret a (q, demo_ext0) \<and> afr_error a = error_code SUCCESS"
  using notify_failure_reported [of "[''s2'' \<mapsto> demo_peer]" "''s2''" demo_peer "(''h:1'', 0)" "[]" down_rpc
      new_AddFriendReq demo_ext0 new_AddFriendRsp demo_ext0 new_AuthFriendReq
      "new_AuthFriendRsp\<lparr>aur_error := error_code SUCCESS\<rparr>" demo_ext0 new_TextChatMsgReq
      "new_TextChatMsgRsp\<lparr>tcr_error := error_code SUCCESS\<rparr>" demo_ext0 True]
  by (auto simp: demo_peer_def down_rpc_def)

definition stopped_status :: status_pool where
  "stopped_status = \<lparr>sp_stop = True, sp_size = 1, sp_host = ''h'', sp_port = ''1'', sp_conns = [(''h:1'', 0)]\<rparr>"

lemma status_calls_witness:
  "status_getChatServer down_rpc 1 (stopped_status, demo_ext0) = Undef"
  using status_calls [of stopped_status "(''h:1'', 0)" "[]" down_rpc 1 "''t''" demo_ext0 False new_LoginRsp
      demo_ext0 False new_GetChatServerRsp demo_ext0]
  by (simp add: stopped_status_def down_rpc_def)

end
