(* ===== verification/LogicSystem.thy ===== *)
theory LogicSystem
  imports SessionIO
begin

text \<open>
  \<open>src/application/LogicSystem.cpp\<close>: the handlers of the client messages and the queue that feeds
  them. A handler's reply is a local document that a scope guard turns into text and sends when
  the scope ends, by a return or by an exception; the body of a handler therefore runs on the
  pair of this document and the server's state. Handlers run on the worker thread, which has no
  exception handler: an exception that leaves a handler ends the process (\<open>Abort\<close>).
\<close>

section \<open>Sending a document\<close>

definition send_doc :: "('x, 'row, 'j) env \<Rightarrow> nat \<Rightarrow> MSG_IDS \<Rightarrow> 'j doc \<Rightarrow> (unit, 'x world) m" where
  "send_doc E ref msg d = on_session ref (cs_send (e_host E) (j_styled (e_json E) d) (msg_id msg))"

definition with_reply ::
  "('x, 'row, 'j) env \<Rightarrow> nat \<Rightarrow> MSG_IDS \<Rightarrow> 'j doc \<Rightarrow> (unit, 'j doc \<times> 'x world) m \<Rightarrow> (unit, 'x world) m" where
  "with_reply E ref msg d body = (\<lambda>w.
    map_state snd (Defer (\<lambda>(r, v). map_state (Pair r) (send_doc E ref msg r v)) body (d, w)))"

definition put :: "string \<Rightarrow> 'j doc \<Rightarrow> (unit, 'j doc \<times> 's) m" where
  "put k v = on_fst (mmodify (jset k v))"

definition put_all :: "(string \<times> 'j doc) list \<Rightarrow> (unit, 'j doc \<times> 's) m" where
  "put_all kvs = on_fst (mmodify (jset_all kvs))"

definition put_error :: "ErrorCodes \<Rightarrow> (unit, 'j doc \<times> 's) m" where
  "put_error e = put ''error'' (jerror e)"

text \<open>A statement whose value is not used.\<close>

definition ignoring :: "('a, 's) m \<Rightarrow> (unit, 's) m" where
  "ignoring f = mseq f (mret ())"

section \<open>User records and the cache\<close>

definition user_fields :: "UserInfo \<Rightarrow> (string \<times> 'j doc) list" where
  "user_fields u =
    [(''uid'', DInt (ui_uid u)), (''name'', DStr (ui_name u)), (''pwd'', DStr (ui_pwd u)),
     (''email'', DStr (ui_email u)), (''nick'', DStr (ui_nick u)), (''desc'', DStr (ui_desc u)),
     (''sex'', DInt (ui_sex u)), (''icon'', DStr (ui_icon u))]"

definition user_doc :: "UserInfo \<Rightarrow> 'j doc" where
  "user_doc u = jset_all (user_fields u) DNull"

definition cache_user :: "('x, 'row, 'j) env \<Rightarrow> string \<Rightarrow> UserInfo \<Rightarrow> string \<Rightarrow> (unit, 'x world) m" where
  "cache_user E base_key u txt =
    mseq (ignoring (on_redis (redis_set (e_redis E) base_key txt)))
      (if ui_name u \<noteq> []
       then ignoring (on_redis (redis_set (e_redis E) (USER_NAME_INFO @ ui_name u) txt))
       else mret ())"

text \<open>A cached text is read member by member; a text that does not parse reads as null.\<close>

definition read_cached :: "'j json_api \<Rightarrow> string \<Rightarrow> (UserInfo, 's) m" where
  "read_cached J txt =
    (let root = snd (j_parse J txt)
     in mbind (get_int J root ''uid'') (\<lambda>uid.
        mbind (get_str J root ''name'') (\<lambda>name.
        mbind (get_str J root ''pwd'') (\<lambda>pwd.
        mbind (get_str J root ''email'') (\<lambda>email.
        mbind (get_str J root ''nick'') (\<lambda>nick.
        mbind (get_str J root ''desc'') (\<lambda>desc.
        mbind (get_int J root ''sex'') (\<lambda>sex.
        mbind (get_str J root ''icon'') (\<lambda>icon.
          mret (new_UserInfo\<lparr>ui_uid := uid, ui_name := name, ui_pwd := pwd, ui_email := email,
            ui_nick := nick, ui_desc := desc, ui_sex := sex, ui_icon := icon\<rparr>))))))))))"

text \<open>
  The record always comes from the database; the cache is only written. The caller's record
  (never a null pointer at the call sites) is the result where the answer is true.
\<close>

definition ls_getBaseInfo ::
  "('x, 'row, 'j) env \<Rightarrow> string \<Rightarrow> int32 \<Rightarrow> (UserInfo option, 'x world) m" where
  "ls_getBaseInfo E base_key uid =
    mbind (on_mysql (mgr_getUserInfo (e_sql E) uid)) (\<lambda>db_user. case db_user of
        None \<Rightarrow> mret None
      | Some u0 \<Rightarrow>
          (let u = (if ui_nick u0 = [] then u0\<lparr>ui_nick := ui_name u0\<rparr> else u0)
           in mseq (cache_user E base_key u (j_fast (e_json E) (user_doc u))) (mret (Some u))))"

definition ls_getFriendApplyInfo ::
  "('x, 'row, 'j) env \<Rightarrow> int32 \<Rightarrow> ApplyInfo list \<Rightarrow> (bool \<times> ApplyInfo list, 'x world) m" where
  "ls_getFriendApplyInfo E touid list = on_mysql (mgr_getApplyList (e_sql E) touid list)"

definition ls_getFriendList ::
  "('x, 'row, 'j) env \<Rightarrow> int32 \<Rightarrow> UserInfo list \<Rightarrow> (bool \<times> UserInfo list, 'x world) m" where
  "ls_getFriendList E uid list = on_mysql (mgr_getFriendList (e_sql E) uid list)"

section \<open>Login\<close>

definition login_fields :: "int32 \<Rightarrow> UserInfo \<Rightarrow> (string \<times> 'j doc) list" where
  "login_fields uid u =
    [(''uid'', DInt uid), (''pwd'', DStr (ui_pwd u)), (''name'', DStr (ui_name u)),
     (''email'', DStr (ui_email u)), (''nick'', DStr (ui_nick u)), (''desc'', DStr (ui_desc u)),
     (''sex'', DInt (ui_sex u)), (''icon'', DStr (ui_icon u))]"

definition apply_doc :: "ApplyInfo \<Rightarrow> 'j doc" where
  "apply_doc a = jset_all
    [(''name'', DStr (ai_name a)), (''uid'', DInt (ai_uid a)), (''icon'', DStr (ai_icon a)),
     (''nick'', DStr (ai_nick a)), (''sex'', DInt (ai_sex a)), (''status'', DInt (ai_status a)),
     (''alias_name'', DStr (ai_alias_name a))] DNull"

definition friend_doc :: "UserInfo \<Rightarrow> 'j doc" where
  "friend_doc u = jset_all
    [(''name'', DStr (ui_name u)), (''uid'', DInt (ui_uid u)), (''icon'', DStr (ui_icon u)),
     (''nick'', DStr (ui_nick u)), (''sex'', DInt (ui_sex u)), (''desc'', DStr (ui_desc u)),
     (''alias_name'', DStr (ui_alias_name u))] DNull"

definition put_list :: "string \<Rightarrow> 'j doc list \<Rightarrow> (unit, 'j doc \<times> 's) m" where
  "put_list k vs = on_fst (mmodify (fold (jappend_at k) vs))"

text \<open>\<open>count++\<close> on the largest \<open>int\<close> is undefined.\<close>

definition login_store :: "('x, 'row, 'j) env \<Rightarrow> nat \<Rightarrow> int32 \<Rightarrow> int32 \<Rightarrow> (unit, 'x world) m" where
  "login_store E ref uid old_count =
    mseq (mguard (sint old_count < 2 ^ 31 - 1) (write_count E (old_count + 1)))
    (mseq (on_session ref (mmodify (cs_setUserId uid)))
    (mseq (ignoring (on_redis (redis_set (e_redis E) (USERIPPREFIX @ to_string uid) (self_name E))))
      (on_users (um_setUserSession uid ref))))"

definition login_finish :: "('x, 'row, 'j) env \<Rightarrow> nat \<Rightarrow> int32 \<Rightarrow> (unit, 'x world) m" where
  "login_finish E ref uid = mbind (read_count E) (login_store E ref uid)"

definition login_user :: "('x, 'row, 'j) env \<Rightarrow> nat \<Rightarrow> int32 \<Rightarrow> (unit, 'j doc \<times> 'x world) m" where
  "login_user E ref uid =
    mbind (on_snd (ls_getBaseInfo E (USER_BASE_INFO @ to_string uid) uid)) (\<lambda>user_info. case user_info of
        None \<Rightarrow> put_error UID_INVALID
      | Some u \<Rightarrow>
          mseq (put_all (login_fields uid u))
          (mbind (on_snd (ls_getFriendApplyInfo E uid [])) (\<lambda>(b_apply, apply_list).
           mseq (put_list ''apply_list'' (if b_apply then map apply_doc apply_list else []))
          (mbind (on_snd (ls_getFriendList E uid [])) (\<lambda>(b_friend_list, friend_list).
           mseq (put_list ''friend_list'' (map friend_doc friend_list))
             (on_snd (login_finish E ref uid)))))))"

definition loginHandler :: "('x, 'row, 'j) env \<Rightarrow> nat \<Rightarrow> string \<Rightarrow> (unit, 'x world) m" where
  "loginHandler E ref msg_data =
    (let root = snd (j_parse (e_json E) msg_data)
     in mbind (get_int (e_json E) root ''uid'') (\<lambda>uid.
        mbind (get_str (e_json E) root ''token'') (\<lambda>token.
        with_reply E ref MSG_CHAT_LOGIN_RSP DNull
          (mbind (on_snd (on_redis (redis_get (e_redis E) (USERTOKENPREFIX @ to_string uid))))
            (\<lambda>token_value. case token_value of
                None \<Rightarrow> put_error UID_INVALID
              | Some value \<Rightarrow>
                  if value \<noteq> token then put_error TOKEN_INVALID
                  else mseq (put_error SUCCESS) (login_user E ref uid))))))"

section \<open>Searching a user\<close>

definition found_or_load ::
  "('x, 'row, 'j) env \<Rightarrow> string \<Rightarrow> (UserInfo option, 'x world) m \<Rightarrow> (UserInfo \<Rightarrow> string) \<Rightarrow>
   (unit, 'j doc \<times> 'x world) m" where
  "found_or_load E cache_key load base_key =
    mseq (put_error SUCCESS)
    (mbind (on_snd (on_redis (redis_get (e_redis E) cache_key))) (\<lambda>info_str. case info_str of
        Some txt \<Rightarrow> mbind (read_cached (e_json E) txt) (\<lambda>u. put_all (user_fields u))
      | None \<Rightarrow> mbind (on_snd load) (\<lambda>user_info. case user_info of
            None \<Rightarrow> put_error UID_INVALID
          | Some u \<Rightarrow> on_snd (cache_user E (base_key u) u (j_styled (e_json E) (user_doc u))))))"

definition getUserByUid :: "('x, 'row, 'j) env \<Rightarrow> string \<Rightarrow> (unit, 'j doc \<times> 'x world) m" where
  "getUserByUid E uid_str =
    found_or_load E (USER_BASE_INFO @ uid_str)
      (mbind (stoi uid_str) (\<lambda>uid. on_mysql (mgr_getUserInfo (e_sql E) uid)))
      (\<lambda>_. USER_BASE_INFO @ uid_str)"

definition getUserByName :: "('x, 'row, 'j) env \<Rightarrow> string \<Rightarrow> (unit, 'j doc \<times> 'x world) m" where
  "getUserByName E name_str =
    found_or_load E (USER_NAME_INFO @ name_str)
      (on_mysql (mgr_getUserInfo_name (e_sql E) name_str))
      (\<lambda>u. USER_BASE_INFO @ to_string (ui_uid u))"

definition searchUserHandler :: "('x, 'row, 'j) env \<Rightarrow> nat \<Rightarrow> string \<Rightarrow> (unit, 'x world) m" where
  "searchUserHandler E ref msg_data =
    with_reply E ref MSG_SEARCH_USER_RSP DNull
      (case j_parse (e_json E) msg_data of (ok, root) \<Rightarrow>
        mbind (if ok then mlift JsonLogicError (j_is_member (e_json E) root ''uid'') else mret False)
          (\<lambda>has_uid.
            if \<not> has_uid then put_error ERROR_JSON
            else mbind (get_member (e_json E) root ''uid'') (\<lambda>uid.
                 mbind (get_str (e_json E) root ''uid'') (\<lambda>uid_str.
                   if j_is_int (e_json E) uid then getUserByUid E uid_str
                   else getUserByName E uid_str))))"

section \<open>Friend requests\<close>

definition add_notify :: "int32 \<Rightarrow> string \<Rightarrow> string \<Rightarrow> UserInfo option \<Rightarrow> 'j doc" where
  "add_notify uid name alias_name info = jset_all
    ([(''error'', jerror SUCCESS), (''applyuid'', DInt uid), (''name'', DStr name), (''desc'', DStr [])] @
     (case info of
        Some u \<Rightarrow> [(''icon'', DStr (ui_icon u)), (''nick'', DStr (ui_nick u)), (''sex'', DInt (ui_sex u))]
      | None \<Rightarrow> [(''icon'', DStr []), (''nick'', DStr []), (''sex'', DInt 0)]) @
     [(''alias_name'', DStr alias_name)]) DNull"

definition add_request :: "int32 \<Rightarrow> string \<Rightarrow> string \<Rightarrow> int32 \<Rightarrow> UserInfo option \<Rightarrow> AddFriendReq" where
  "add_request uid name alias_name touid info =
    (let r = new_AddFriendReq\<lparr>afq_applyuid := uid, afq_name := name, afq_desc := [],
               afq_touid := touid, afq_alias_name := alias_name\<rparr>
     in case info of
          Some u \<Rightarrow> r\<lparr>afq_icon := cstr (ui_icon u), afq_nick := cstr (ui_nick u), afq_sex := ui_sex u\<rparr>
        | None \<Rightarrow> r)"

text \<open>A message for a user of this server goes to the user's session, if there is one.\<close>

definition to_local_user ::
  "int32 \<Rightarrow> (nat \<Rightarrow> (unit, 'x world) m) \<Rightarrow> (unit, 'x world) m" where
  "to_local_user uid deliver =
    mbind (mget (\<lambda>w. um_getSession (w_users w) uid)) (\<lambda>session. case session of
        None \<Rightarrow> mret ()
      | Some s \<Rightarrow> deliver s)"

definition add_friend_steps ::
  "('x, 'row, 'j) env \<Rightarrow> int32 \<Rightarrow> string \<Rightarrow> string \<Rightarrow> int32 \<Rightarrow> (unit, 'x world) m" where
  "add_friend_steps E uid name alias_name touid =
    mseq (on_mysql (mgr_addFriendApply (e_sql E) uid touid alias_name))
    (mbind (on_redis (redis_get (e_redis E) (USERIPPREFIX @ to_string touid))) (\<lambda>to_ip. case to_ip of
        None \<Rightarrow> mret ()
      | Some ip \<Rightarrow>
          mbind (ls_getBaseInfo E (USER_BASE_INFO @ to_string uid) uid) (\<lambda>info.
            if ip = self_name E
            then to_local_user touid (\<lambda>s.
              send_doc E s MSG_NOTIFY_ADDFRIEND_REQ (add_notify uid name alias_name info))
            else ignoring (on_peers (chat_NotifyAddFriend (e_rpc E) (e_nrvo E) ip
              (add_request uid name alias_name touid info))))))"

definition addFriendHandler :: "('x, 'row, 'j) env \<Rightarrow> nat \<Rightarrow> string \<Rightarrow> (unit, 'x world) m" where
  "addFriendHandler E ref msg_data =
    (let J = e_json E; root = snd (j_parse J msg_data)
     in mbind (get_int J root ''uid'') (\<lambda>uid.
        mbind (get_str J root ''apply_name'') (\<lambda>name.
        mbind (get_str J root ''alias_name'') (\<lambda>alias_name.
        mbind (get_int J root ''touid'') (\<lambda>touid.
          with_reply E ref MSG_ADD_FRIEND_RSP (jset ''error'' (jerror SUCCESS) DNull)
            (on_snd (add_friend_steps E uid name alias_name touid)))))))"

section \<open>Accepting a friend request\<close>

definition auth_reply :: "int32 \<Rightarrow> string \<Rightarrow> UserInfo option \<Rightarrow> 'j doc" where
  "auth_reply applicant_uid alias_name info = (case info of
      Some u \<Rightarrow> jset_all
        [(''error'', jerror SUCCESS), (''name'', DStr (ui_name u)), (''nick'', DStr (ui_nick u)),
         (''icon'', DStr (ui_icon u)), (''sex'', DInt (ui_sex u)), (''uid'', DInt applicant_uid),
         (''alias_name'', DStr alias_name)] DNull
    | None \<Rightarrow> jset_all [(''error'', jerror SUCCESS), (''error'', jerror UID_INVALID)] DNull)"

definition auth_notify :: "int32 \<Rightarrow> int32 \<Rightarrow> string \<Rightarrow> UserInfo option \<Rightarrow> 'j doc" where
  "auth_notify fromuid touid peer_alias info = jset_all
    ([(''error'', jerror SUCCESS), (''fromuid'', DInt fromuid), (''touid'', DInt touid)] @
     (case info of
        Some u \<Rightarrow> [(''name'', DStr (ui_name u)), (''nick'', DStr (ui_nick u)), (''icon'', DStr (ui_icon u)),
          (''sex'', DInt (ui_sex u)), (''alias_name'', DStr peer_alias)]
      | None \<Rightarrow> [(''error'', jerror UID_INVALID)])) DNull"

definition auth_friend_steps ::
  "('x, 'row, 'j) env \<Rightarrow> int32 \<Rightarrow> int32 \<Rightarrow> string \<Rightarrow> (unit, 'x world) m" where
  "auth_friend_steps E applicant_uid accepter_uid alias_name =
    mbind (on_mysql (mgr_getFriendApplyAlias (e_sql E) applicant_uid accepter_uid)) (\<lambda>(_, apply_alias).
    mseq (on_mysql (mgr_authFriendApply (e_sql E) applicant_uid accepter_uid))
    (mseq (on_mysql (mgr_addFriend (e_sql E) applicant_uid accepter_uid apply_alias alias_name))
    (mbind (on_mysql (mgr_getFriendAlias (e_sql E) applicant_uid accepter_uid)) (\<lambda>(_, peer_alias).
     mbind (on_redis (redis_get (e_redis E) (USERIPPREFIX @ to_string applicant_uid))) (\<lambda>to_ip.
      case to_ip of
        None \<Rightarrow> mret ()
      | Some ip \<Rightarrow>
          if ip = self_name E
          then to_local_user applicant_uid (\<lambda>s.
            mbind (ls_getBaseInfo E (USER_BASE_INFO @ to_string accepter_uid) accepter_uid) (\<lambda>info.
              send_doc E s MSG_NOTIFY_AUTH_FRIEND_REQ
                (auth_notify accepter_uid applicant_uid peer_alias info)))
          else ignoring (on_peers (chat_NotifyAuthFriend (e_rpc E) (e_nrvo E) ip
            (new_AuthFriendReq\<lparr>auq_fromuid := accepter_uid, auq_touid := applicant_uid\<rparr>))))))))"

definition authFriendHandler :: "('x, 'row, 'j) env \<Rightarrow> nat \<Rightarrow> string \<Rightarrow> (unit, 'x world) m" where
  "authFriendHandler E ref msg_data =
    (let J = e_json E; root = snd (j_parse J msg_data)
     in mbind (get_int J root ''fromuid'') (\<lambda>applicant_uid.
        mbind (get_int J root ''touid'') (\<lambda>accepter_uid.
        mbind (get_str J root ''alias_name'') (\<lambda>alias_name.
        mbind (ls_getBaseInfo E (USER_BASE_INFO @ to_string applicant_uid) applicant_uid) (\<lambda>info.
          with_reply E ref MSG_AUTH_FRIEND_RSP (auth_reply applicant_uid alias_name info)
            (on_snd (auth_friend_steps E applicant_uid accepter_uid alias_name)))))))"

section \<open>Chat messages\<close>

definition text_reply :: "int32 \<Rightarrow> int32 \<Rightarrow> 'j \<Rightarrow> 'j doc" where
  "text_reply fromuid touid text_array = jset_all
    [(''error'', jerror SUCCESS), (''fromuid'', DInt touid), (''touid'', DInt fromuid),
     (''text_array'', DVal text_array)] DNull"

definition read_text :: "'j json_api \<Rightarrow> 'j \<Rightarrow> TextChatData list \<Rightarrow> (TextChatData list, 's) m" where
  "read_text J text_obj msgs =
    mbind (get_str J text_obj ''content'') (\<lambda>content.
    mbind (get_str J text_obj ''msgid'') (\<lambda>msgid.
      mret (msgs @ [\<lparr>tcd_msgid = msgid, tcd_msgcontent = content\<rparr>])))"

definition text_steps ::
  "('x, 'row, 'j) env \<Rightarrow> int32 \<Rightarrow> int32 \<Rightarrow> 'j \<Rightarrow> (unit, 'x world) m" where
  "text_steps E fromuid touid text_array =
    mbind (on_redis (redis_get (e_redis E) (USERIPPREFIX @ to_string touid))) (\<lambda>to_ip. case to_ip of
        None \<Rightarrow> mret ()
      | Some ip \<Rightarrow>
          if ip = self_name E
          then to_local_user touid (\<lambda>s.
            send_doc E s MSG_TEXT_CHAT_MSG_RSP (text_reply fromuid touid text_array))
          else mbind (mfold (read_text (e_json E)) (j_elements (e_json E) text_array) []) (\<lambda>msgs.
            ignoring (on_peers (chat_NotifyTextChatMsg (e_rpc E) (e_nrvo E) ip
              \<lparr>tcq_fromuid = fromuid, tcq_touid = touid, tcq_textmsgs = msgs\<rparr>))))"

definition chatTextMsgHandler :: "('x, 'row, 'j) env \<Rightarrow> nat \<Rightarrow> string \<Rightarrow> (unit, 'x world) m" where
  "chatTextMsgHandler E ref msg_data =
    (let J = e_json E; root = snd (j_parse J msg_data)
     in if j_is_null J root \<or> j_is_empty J root then mret ()
        else
        mbind (get_int J root ''fromuid'') (\<lambda>fromuid.
        mbind (get_int J root ''touid'') (\<lambda>touid.
        mbind (get_member J root ''text_array'') (\<lambda>text_array.
          with_reply E ref MSG_TEXT_CHAT_MSG_RSP (text_reply fromuid touid text_array)
            (on_snd (text_steps E fromuid touid text_array))))))"

section \<open>The queue\<close>

type_synonym 'x callback = "nat \<Rightarrow> string \<Rightarrow> (unit, 'x world) m"

definition registerCallBacks :: "('x, 'row, 'j) env \<Rightarrow> int16 \<rightharpoonup> 'x callback" where
  "registerCallBacks E =
    [msg_id MSG_CHAT_LOGIN \<mapsto> loginHandler E,
     msg_id MSG_SEARCH_USER_REQ \<mapsto> searchUserHandler E,
     msg_id MSG_ADD_FRIEND_REQ \<mapsto> addFriendHandler E,
     msg_id MSG_AUTH_FRIEND_REQ \<mapsto> authFriendHandler E,
     msg_id MSG_TEXT_CHAT_MSG_REQ \<mapsto> chatTextMsgHandler E]"

text \<open>\<open>std::string(data, cur_len)\<close>; a negative length is a huge one for the library.\<close>

definition node_text :: "recv_node \<Rightarrow> (string, 's) m" where
  "node_text n =
    (if sint (mn_cur_len n) < 0 then mthrow StdLengthError
     else mguard (nat (sint (mn_cur_len n)) \<le> length (mn_data n))
            (mret (take (nat (sint (mn_cur_len n))) (mn_data n))))"

definition pop_msg :: "(unit, 'x world) m" where
  "pop_msg = mmodify (\<lambda>w. w\<lparr>w_msg_que := tl (w_msg_que w)\<rparr>)"

definition run_callback :: "('x, 'row, 'j) env \<Rightarrow> logic_node \<Rightarrow> (unit, 'x world) m" where
  "run_callback E node = (case registerCallBacks E (rn_msg_id (ln_recv_node node)) of
      None \<Rightarrow> mret ()
    | Some callback \<Rightarrow>
        mbind (node_text (ln_recv_node node)) (callback (ln_session node)))"

text \<open>One turn of the loop of \<open>dealMsg\<close>, of either of its two loops, on the front message.\<close>

definition deal_one :: "('x, 'row, 'j) env \<Rightarrow> (unit, 'x world) m" where
  "deal_one E = (\<lambda>w. case w_msg_que w of
      [] \<Rightarrow> Ret () w
    | node # _ \<Rightarrow> mseq (run_callback E node) pop_msg w)"

text \<open>The worker has no exception handler.\<close>

definition on_thread :: "('a, 's) m \<Rightarrow> ('a, 's) m" where
  "on_thread f = (\<lambda>s. case f s of Throw e t \<Rightarrow> Abort | r \<Rightarrow> r)"

text \<open>At most so many turns of the loop: whether it came to its end, the empty queue, within them.\<close>

fun deal_queue :: "('x, 'row, 'j) env \<Rightarrow> nat \<Rightarrow> (bool, 'x world) m" where
  "deal_queue E 0 = mget (\<lambda>w. w_msg_que w = [])"
| "deal_queue E (Suc n) = (\<lambda>w. if w_msg_que w = [] then Ret True w
     else mseq (deal_one E) (deal_queue E n) w)"

text \<open>
  The worker until the queue is empty. It is given as many turns as there are messages; a loop that
  is not at its end then is one that does not come back.
\<close>

definition dealMsg :: "('x, 'row, 'j) env \<Rightarrow> (unit, 'x world) m" where
  "dealMsg E = (\<lambda>w. on_thread (mbind (deal_queue E (length (w_msg_que w)))
    (\<lambda>ended. if ended then mret () else Blocked)) w)"

end
