(* ===== verification/ChatService.thy ===== *)
theory ChatService
  imports LogicSystem
begin

text \<open>
  \<open>src/application/ChatServiceImpl.cpp\<close>: the calls other servers make to deliver a notification to a
  user of this one. Every call that returns answers \<open>Status::OK\<close>; its value here is the reply object
  after the call. Exceptions go to the RPC library, which turns them into a failed status.
\<close>

definition remote_add_notify :: "AddFriendReq \<Rightarrow> 'j doc" where
  "remote_add_notify request = jset_all
    [(''error'', jerror SUCCESS), (''applyuid'', DInt (afq_applyuid request)),
     (''name'', DStr (afq_name request)), (''desc'', DStr (afq_desc request)),
     (''icon'', DStr (afq_icon request)), (''sex'', DInt (afq_sex request)),
     (''nick'', DStr (afq_nick request)), (''alias_name'', DStr (afq_alias_name request))] DNull"

definition svc_NotifyAddFriend ::
  "('x, 'row, 'j) env \<Rightarrow> AddFriendReq \<Rightarrow> AddFriendRsp \<Rightarrow> (AddFriendRsp, 'x world) m" where
  "svc_NotifyAddFriend E request reply =
    mseq (to_local_user (afq_touid request) (\<lambda>s.
        send_doc E s MSG_NOTIFY_ADDFRIEND_REQ (remote_add_notify request)))
      (mret (reply\<lparr>afr_error := error_code SUCCESS, afr_applyuid := afq_applyuid request,
                   afr_touid := afq_touid request\<rparr>))"

text \<open>Here the cache answers first, and the database only where the cache has nothing.\<close>

definition svc_getBaseInfo ::
  "('x, 'row, 'j) env \<Rightarrow> string \<Rightarrow> int32 \<Rightarrow> (UserInfo option, 'x world) m" where
  "svc_getBaseInfo E base_key uid =
    mbind (on_redis (redis_get (e_redis E) base_key)) (\<lambda>info_str. case info_str of
        Some txt \<Rightarrow> mbind (read_cached (e_json E) txt) (\<lambda>u. mret (Some u))
      | None \<Rightarrow>
          mbind (on_mysql (mgr_getUserInfo (e_sql E) uid)) (\<lambda>user_info. case user_info of
              None \<Rightarrow> mret None
            | Some u \<Rightarrow>
                mseq (on_redis (redis_set (e_redis E) base_key (j_styled (e_json E) (user_doc u))))
                  (mret (Some u))))"

definition svc_NotifyAuthFriend ::
  "('x, 'row, 'j) env \<Rightarrow> AuthFriendReq \<Rightarrow> AuthFriendRsp \<Rightarrow> (AuthFriendRsp, 'x world) m" where
  "svc_NotifyAuthFriend E request reply =
    (let fromuid = auq_fromuid request; touid = auq_touid request
     in mseq (to_local_user touid (\<lambda>s.
          mbind (svc_getBaseInfo E (USER_BASE_INFO @ to_string fromuid) fromuid) (\<lambda>info.
          mbind (case info of
              Some _ \<Rightarrow> on_mysql (mgr_getFriendAlias (e_sql E) touid fromuid)
            | None \<Rightarrow> mret (False, [])) (\<lambda>(_, peer_alias).
            send_doc E s MSG_NOTIFY_AUTH_FRIEND_REQ (auth_notify fromuid touid peer_alias info)))))
        (mret (reply\<lparr>aur_error := error_code SUCCESS, aur_fromuid := fromuid, aur_touid := touid\<rparr>)))"

definition text_element :: "TextChatData \<Rightarrow> 'j doc" where
  "text_element t = jset_all [(''msgid'', DStr (tcd_msgid t)), (''content'', DStr (tcd_msgcontent t))] DNull"

definition text_notify :: "TextChatMsgReq \<Rightarrow> 'j doc" where
  "text_notify request = jset_all
    [(''error'', jerror SUCCESS), (''fromuid'', DInt (tcq_fromuid request)),
     (''touid'', DInt (tcq_touid request)),
     (''text_array'', fold jappend (map text_element (tcq_textmsgs request)) DNull)] DNull"

definition svc_NotifyTextChatMsg ::
  "('x, 'row, 'j) env \<Rightarrow> TextChatMsgReq \<Rightarrow> TextChatMsgRsp \<Rightarrow> (TextChatMsgRsp, 'x world) m" where
  "svc_NotifyTextChatMsg E request reply =
    mseq (to_local_user (tcq_touid request) (\<lambda>s.
        send_doc E s MSG_NOTIFY_TEXT_CHAT_MSG_REQ (text_notify request)))
      (mret (reply\<lparr>tcr_error := error_code SUCCESS\<rparr>))"

end
