(* ===== verification/ChatServer.thy ===== *)
theory ChatServer
  imports ChatService
begin

text \<open>
  \<open>src/net/AsioIOServicePool.cpp\<close> and \<open>src/app/ChatServer.cpp\<close>: the pool of event loops and the
  program's \<open>main\<close>. The RPC server, the signals and the event loops run outside: they are
  parameters, and what \<open>main\<close> itself does before the loop and after it is here.
\<close>

section \<open>The pool of event loops\<close>

record io_pool =
  io_services :: nat
  io_next :: nat
  io_works :: "bool list"

definition AsioIOServicePool_new :: "nat \<Rightarrow> io_pool" where
  "AsioIOServicePool_new n = \<lparr>io_services = n, io_next = 0, io_works = replicate n True\<rparr>"

text \<open>The answer is the index of the chosen loop; an index out of range is undefined.\<close>

definition getIOService :: "(nat, io_pool) m" where
  "getIOService = (\<lambda>p.
    if io_next p < io_services p
    then (let next = io_next p + 1
          in Ret (io_next p) (p\<lparr>io_next := (if next = io_services p then 0 else next)\<rparr>))
    else Undef)"

text \<open>Each loop is stopped and its work object reset; a reset one is a null pointer.\<close>

definition io_stop :: "(unit, io_pool) m" where
  "io_stop = (\<lambda>p. mguard (list_all id (io_works p))
    (mmodify (\<lambda>p. p\<lparr>io_works := replicate (length (io_works p)) False\<rparr>)) p)"

section \<open>main\<close>

text \<open>
  Outside the program: building the RPC server (\<open>False\<close> is a null server), binding the acceptor
  (\<open>False\<close> is a thrown \<open>boost::system::system_error\<close>), everything that happens while the event
  loop runs, until a signal ends it, and whether \<open>Wait\<close> of the RPC server returns, which it does when
  the server has been shut down: the thread that calls it is joined.
\<close>

record 'x main_api =
  ma_build :: "string \<Rightarrow> 'x \<Rightarrow> bool \<times> 'x"
  ma_bind :: "int16 \<Rightarrow> 'x \<Rightarrow> bool \<times> 'x"
  ma_run :: "(unit, 'x world) m"
  ma_wait :: "'x \<Rightarrow> bool \<times> 'x"

definition CServer_new :: "'x main_api \<Rightarrow> nat \<Rightarrow> string \<Rightarrow> int16 \<Rightarrow> (unit, 'x world) m" where
  "CServer_new A ref uuid port =
    mbind (on_ext (ma_bind A port)) (\<lambda>ok.
      if ok then sv_StartAccept ref uuid else mthrow BoostSystemError)"

definition server_address :: "('x, 'row, 'j) env \<Rightarrow> string" where
  "server_address E = cfg_get (e_cfg E) ''SelfServer'' ''Host'' @ '':'' @
    cfg_get (e_cfg E) ''SelfServer'' ''RPCPort''"

text \<open>A thread, or a scope that owns a running one: an exception that leaves it ends the process.\<close>

definition main_loop :: "('x, 'row, 'j) env \<Rightarrow> 'x main_api \<Rightarrow> nat \<Rightarrow> string \<Rightarrow> (unit, 'x world) m" where
  "main_loop E A ref uuid =
    mbind (atoi (cstr (cfg_get (e_cfg E) ''SelfServer'' ''Port''))) (\<lambda>port.
    mseq (CServer_new A ref uuid (ucast port))
    (mseq (ma_run A)
    (mseq (on_redis (redis_hDel (e_redis E) LOGIN_COUNT (self_name E)))
    (mseq (on_redis RedisMgr_close)
      (mbind (on_ext (ma_wait A)) (\<lambda>joined. if joined then mret () else Blocked))))))"

text \<open>
  From the creation of \<open>grpc_server_thread\<close> to its \<open>join\<close> an exception destroys a joinable thread,
  which is \<open>std::terminate\<close>; the thread itself calls \<open>Wait\<close> through the server's pointer.
\<close>

definition chat_main :: "('x, 'row, 'j) env \<Rightarrow> 'x main_api \<Rightarrow> nat \<Rightarrow> string \<Rightarrow> (unit, 'x world) m" where
  "chat_main E A ref uuid =
    catch_std
      (mseq (on_redis (redis_hSet (e_redis E) LOGIN_COUNT (self_name E) ''0''))
      (mbind (on_ext (ma_build A (server_address E))) (\<lambda>ok.
        mguard ok (on_thread (main_loop E A ref uuid)))))
      (\<lambda>_. mret ())"

section \<open>Properties\<close>

fun take_services :: "nat \<Rightarrow> io_pool \<Rightarrow> nat list" where
  "take_services 0 p = []"
| "take_services (Suc k) p = (case getIOService p of
      Ret i q \<Rightarrow> i # take_services k q
    | _ \<Rightarrow> [])"

lemma take_services_mod:
  assumes "io_next p < io_services p"
  shows "take_services k p = map (\<lambda>i. (io_next p + i) mod io_services p) [0..<k]"
  using assms
proof (induction k arbitrary: p)
  case 0
  then show ?case by simp
next
  case (Suc k)
  let ?n = "if io_next p + 1 = io_services p then 0 else io_next p + 1"
  have "getIOService p = Ret (io_next p) (p\<lparr>io_next := ?n\<rparr>)"
    using Suc.prems by (simp add: getIOService_def Let_def)
  moreover have "?n < io_services p" using Suc.prems by auto
  ultimately have "take_services (Suc k) p
      = io_next p # map (\<lambda>i. (?n + i) mod io_services p) [0..<k]"
    using Suc.IH [of "p\<lparr>io_next := ?n\<rparr>"] by simp
  also have "map (\<lambda>i. (?n + i) mod io_services p) [0..<k]
      = map (\<lambda>i. (io_next p + Suc i) mod io_services p) [0..<k]"
    by (rule map_cong) (auto simp flip: add_Suc)
  also have "\<dots> = map (\<lambda>i. (io_next p + i) mod io_services p) [1..<Suc k]"
    by (simp add: map_Suc_upt [symmetric] del: upt_Suc)
  finally show ?case
    using Suc.prems by (simp add: upt_conv_Cons del: upt_Suc)
qed

text \<open>
  The pool hands out its loops in turn: the \<open>i\<close>-th request from now gets the loop \<open>i\<close> places
  after the next one, modulo their number, so that no index is ever out of range, and as many
  requests as there are loops get each of them exactly once.
\<close>

theorem getIOService_round_robin:
  assumes "io_next p < io_services p"
  shows "take_services k p = map (\<lambda>i. (io_next p + i) mod io_services p) [0..<k] \<and>
    take_services (io_services p) p = rotate (io_next p) [0..<io_services p]"
proof -
  have "map (\<lambda>i. (io_next p + i) mod io_services p) [0..<io_services p]
      = rotate (io_next p) [0..<io_services p]"
    by (rule nth_equalityI) (auto simp: nth_rotate)
  then show ?thesis by (simp add: take_services_mod [OF assms])
qed

end
