(* ===== verification/ServerView.thy ===== *)
theory ServerView
  imports ChatServer
begin

text \<open>
  An abstract view of the running server and how its code acts on it. The view keeps what the
  Redis server and the database hold, who is logged in where, and the sessions; it forgets the
  connection pools and the handles. \<open>computes V D f v a v'\<close> says that from every concrete state
  with the view \<open>v\<close>, and connections at hand, \<open>f\<close> returns \<open>a\<close> in a state with the view \<open>v'\<close>, again
  with connections at hand: a functional refinement. Its rules follow the combinators, so the
  handlers are computed step by step (collection \<open>steps\<close>).
\<close>

section \<open>The services the server relies on\<close>

text \<open>
  The database as a function of its own state: what a statement answers (\<open>None\<close> is an exception)
  and how an update changes it, whichever connection carries it.
\<close>

record ('x, 'row, 'd) db_view =
  db_of :: "'x \<Rightarrow> 'd"
  db_query :: "string \<Rightarrow> sql_arg list \<Rightarrow> 'd \<Rightarrow> 'row list option"
  db_update :: "string \<Rightarrow> sql_arg list \<Rightarrow> 'd \<Rightarrow> int option \<times> 'd"

text \<open>
  \<open>services\<close>: Redis answers as documented, the database is such a function, and neither changes
  the other.
\<close>

definition services :: "('x, 'row, 'j) env \<Rightarrow> 'x redis_view \<Rightarrow> ('x, 'row, 'd) db_view \<Rightarrow> bool" where
  "services E V D \<longleftrightarrow> redis_serves (e_redis E) V \<and>
    (\<forall>c call x. db_of D (snd (r_command (e_redis E) c call x)) = db_of D x) \<and>
    (\<forall>c stmt args x. s_query (e_sql E) c stmt args x = (db_query D stmt args (db_of D x), x)) \<and>
    (\<forall>c stmt args x. fst (s_update (e_sql E) c stmt args x) = fst (db_update D stmt args (db_of D x)) \<and>
       db_of D (snd (s_update (e_sql E) c stmt args x)) = snd (db_update D stmt args (db_of D x)) \<and>
       kv V (snd (s_update (e_sql E) c stmt args x)) = kv V x \<and>
       hkv V (snd (s_update (e_sql E) c stmt args x)) = hkv V x)"

definition ready :: "'x world \<Rightarrow> bool" where
  "ready w \<longleftrightarrow> rp_ready (w_redis w) \<and> \<not> mp_stop (w_mysql w) \<and> 2 \<le> length (mp_conns (w_mysql w))"

section \<open>The view\<close>

record 'd view =
  v_kv :: "string \<Rightarrow> string option"
  v_hkv :: "string \<Rightarrow> string \<Rightarrow> string option"
  v_db :: 'd
  v_users :: users
  v_sess :: "nat \<Rightarrow> csession"
  v_sessions :: "string \<rightharpoonup> nat"
  v_peers :: chat_pools
  v_que :: "logic_node list"

definition view_of :: "'x redis_view \<Rightarrow> ('x, 'row, 'd) db_view \<Rightarrow> 'x world \<Rightarrow> 'd view" where
  "view_of V D w = \<lparr>v_kv = kv V (w_ext w), v_hkv = hkv V (w_ext w), v_db = db_of D (w_ext w),
     v_users = w_users w, v_sess = w_sess w, v_sessions = w_sessions w, v_peers = w_peers w,
     v_que = w_msg_que w\<rparr>"

text \<open>The effect of SET: the key holds a string now, whatever it held before.\<close>

definition put_str :: "string \<Rightarrow> string \<Rightarrow> 'd view \<Rightarrow> 'd view" where
  "put_str k t v = v\<lparr>v_kv := (v_kv v)(k \<mapsto> t), v_hkv := (v_hkv v)(k := Map.empty)\<rparr>"

lemma put_str_fields [simp]:
  "v_kv (put_str k t v) = (v_kv v)(k \<mapsto> t)" "v_hkv (put_str k t v) = (v_hkv v)(k := Map.empty)"
  "v_db (put_str k t v) = v_db v" "v_users (put_str k t v) = v_users v" "v_sess (put_str k t v) = v_sess v"
  "v_sessions (put_str k t v) = v_sessions v" "v_peers (put_str k t v) = v_peers v"
  "v_que (put_str k t v) = v_que v"
  by (simp_all add: put_str_def)

lemma put_str_sess [simp]: "put_str k t (v\<lparr>v_sess := s\<rparr>) = (put_str k t v)\<lparr>v_sess := s\<rparr>"
  by (simp add: put_str_def)

definition computes ::
  "'x redis_view \<Rightarrow> ('x, 'row, 'd) db_view \<Rightarrow> ('a, 'x world) m \<Rightarrow> 'd view \<Rightarrow> 'a \<Rightarrow> 'd view \<Rightarrow> bool" where
  "computes V D f v a v' \<longleftrightarrow> (\<forall>w. ready w \<and> view_of V D w = v \<longrightarrow>
    (\<exists>w'. f w = Ret a w' \<and> ready w' \<and> view_of V D w' = v'))"

text \<open>The same with a local document beside the state.\<close>

definition computes_doc ::
  "'x redis_view \<Rightarrow> ('x, 'row, 'd) db_view \<Rightarrow> ('a, 'j doc \<times> 'x world) m \<Rightarrow>
   'j doc \<Rightarrow> 'd view \<Rightarrow> 'a \<Rightarrow> 'j doc \<Rightarrow> 'd view \<Rightarrow> bool" where
  "computes_doc V D f d v a d' v' \<longleftrightarrow> (\<forall>w. ready w \<and> view_of V D w = v \<longrightarrow>
    (\<exists>w'. f (d, w) = Ret a (d', w') \<and> ready w' \<and> view_of V D w' = v'))"

named_theorems steps "rules that compute the combinators and operations on the view"

lemma computesI:
  assumes "\<And>w. ready w \<Longrightarrow> view_of V D w = v \<Longrightarrow> \<exists>w'. f w = Ret a w' \<and> ready w' \<and> view_of V D w' = v'"
  shows "computes V D f v a v'"
  using assms by (simp add: computes_def)

lemma computesD:
  assumes "computes V D f v a v'" and "ready w" and "view_of V D w = v"
  obtains w' where "f w = Ret a w'" and "ready w'" and "view_of V D w' = v'"
  using assms by (auto simp: computes_def)

lemma computes_docD:
  assumes "computes_doc V D f d v a d' v'" and "ready w" and "view_of V D w = v"
  obtains w' where "f (d, w) = Ret a (d', w')" and "ready w'" and "view_of V D w' = v'"
  using assms unfolding computes_doc_def by blast

subsection \<open>Combinators\<close>

lemma computes_mret [steps]: "computes V D (mret a) v a v"
  by (auto intro: computesI simp: run_simps)

lemma computes_mbind [steps]:
  assumes "computes V D f v a v1" and "computes V D (g a) v1 b v2"
  shows "computes V D (mbind f g) v b v2"
proof (rule computesI)
  fix w assume "ready w" "view_of V D w = v"
  with assms(1) obtain w1 where 1: "f w = Ret a w1" "ready w1" "view_of V D w1 = v1"
    by (rule computesD)
  from assms(2) 1(2,3) obtain w2 where "g a w1 = Ret b w2" "ready w2" "view_of V D w2 = v2"
    by (rule computesD)
  with 1 show "\<exists>w'. mbind f g w = Ret b w' \<and> ready w' \<and> view_of V D w' = v2"
    by (simp add: run_simps)
qed

lemma computes_mseq [steps]:
  "computes V D f v a v1 \<Longrightarrow> computes V D g v1 b v2 \<Longrightarrow> computes V D (mseq f g) v b v2"
  unfolding mseq_def by (rule computes_mbind)

lemma computes_ignoring [steps]:
  "computes V D f v a v' \<Longrightarrow> computes V D (ignoring f) v () v'"
  unfolding ignoring_def by (rule computes_mseq [OF _ computes_mret])

lemma computes_if [steps]:
  "(b \<Longrightarrow> computes V D f v a v1) \<Longrightarrow> (\<not> b \<Longrightarrow> computes V D g v a v2) \<Longrightarrow>
    computes V D (if b then f else g) v a (if b then v1 else v2)"
  by simp

lemma doc_mbind [steps]:
  assumes "computes_doc V D f d v a d1 v1" and "computes_doc V D (g a) d1 v1 b d2 v2"
  shows "computes_doc V D (mbind f g) d v b d2 v2"
  unfolding computes_doc_def
proof (intro allI impI, elim conjE)
  fix w assume "ready w" "view_of V D w = v"
  with assms(1) obtain w1 where 1: "f (d, w) = Ret a (d1, w1)" "ready w1" "view_of V D w1 = v1"
    by (rule computes_docD)
  from assms(2) 1(2,3) obtain w2 where
    "g a (d1, w1) = Ret b (d2, w2)" "ready w2" "view_of V D w2 = v2" by (rule computes_docD)
  with 1 show "\<exists>w'. mbind f g (d, w) = Ret b (d2, w') \<and> ready w' \<and> view_of V D w' = v2"
    by (simp add: run_simps)
qed

lemma doc_mseq [steps]:
  "computes_doc V D f d v a d1 v1 \<Longrightarrow> computes_doc V D g d1 v1 b d2 v2 \<Longrightarrow>
    computes_doc V D (mseq f g) d v b d2 v2"
  unfolding mseq_def by (rule doc_mbind)

lemma doc_on_snd [steps]:
  assumes "computes V D f v a v'"
  shows "computes_doc V D (on_snd f) d v a d v'"
  unfolding computes_doc_def
proof (intro allI impI, elim conjE)
  fix w assume "ready w" "view_of V D w = v"
  with assms obtain w1 where "f w = Ret a w1" "ready w1" "view_of V D w1 = v'"
    by (rule computesD)
  then show "\<exists>w'. on_snd f (d, w) = Ret a (d, w') \<and> ready w' \<and> view_of V D w' = v'"
    by (simp add: run_simps)
qed

lemma doc_mret [steps]: "computes_doc V D (mret a) d v a d v"
  by (auto simp: computes_doc_def run_simps)

lemma doc_put [steps]: "computes_doc V D (put k x) d v () (jset k x d) v"
  by (auto simp: computes_doc_def put_def run_simps)

lemma doc_put_error [steps]: "computes_doc V D (put_error e) d v () (jset ''error'' (jerror e) d) v"
  unfolding put_error_def by (rule doc_put)

lemma doc_put_all [steps]: "computes_doc V D (put_all kvs) d v () (jset_all kvs d) v"
  by (auto simp: computes_doc_def put_all_def run_simps)

lemma doc_put_list [steps]: "computes_doc V D (put_list k vs) d v () (fold (jappend_at k) vs d) v"
  by (auto simp: computes_doc_def put_list_def run_simps)

subsection \<open>Sessions and users\<close>

lemma computes_on_session [steps]:
  assumes "f (v_sess v ref) = Ret a s"
  shows "computes V D (on_session ref f) v a (v\<lparr>v_sess := (v_sess v)(ref := s)\<rparr>)"
  using assms by (auto intro!: computesI simp: run_simps view_of_def ready_def)

lemma computes_on_users [steps]:
  "computes V D (on_users f) v () (v\<lparr>v_users := f (v_users v)\<rparr>)"
  by (auto intro!: computesI simp: run_simps view_of_def ready_def)

text \<open>What a session is after a message has been handed to it; the hand-over always returns.\<close>

definition sent :: "('x, 'row, 'j) env \<Rightarrow> MSG_IDS \<Rightarrow> 'j doc \<Rightarrow> csession \<Rightarrow> csession" where
  "sent E msg d s = (case cs_send (e_host E) (j_styled (e_json E) d) (msg_id msg) s of
      Ret _ t \<Rightarrow> t | _ \<Rightarrow> s)"

lemma cs_send_sent:
  assumes "net_order (e_host E)"
  shows "cs_send (e_host E) (j_styled (e_json E) d) (msg_id msg) s = Ret () (sent E msg d s)"
proof (cases "cs_accepts (j_styled (e_json E) d) s")
  case True
  from cs_send_accepts [OF assms True, of "msg_id msg"] show ?thesis
    by (auto simp: sent_def split: if_splits)
next
  case False
  then show ?thesis by (simp add: sent_def cs_send_rejects)
qed

lemma computes_send_doc [steps]:
  assumes "net_order (e_host E)"
  shows "computes V D (send_doc E ref msg d) v ()
    (v\<lparr>v_sess := (v_sess v)(ref := sent E msg d (v_sess v ref))\<rparr>)"
  unfolding send_doc_def by (intro steps cs_send_sent assms)

text \<open>The scope guard: the reply is sent with the document as the body leaves it.\<close>

lemma computes_with_reply [steps]:
  assumes "net_order (e_host E)" and "computes_doc V D body d v a d' v'"
  shows "computes V D (with_reply E ref msg d body) v a
    (v'\<lparr>v_sess := (v_sess v')(ref := sent E msg d' (v_sess v' ref))\<rparr>)"
proof (rule computesI)
  fix w assume "ready w" "view_of V D w = v"
  with assms(2) obtain w1 where 1: "body (d, w) = Ret a (d', w1)" "ready w1" "view_of V D w1 = v'"
    by (rule computes_docD)
  from computesD [OF computes_send_doc [OF assms(1), of V D ref msg d' v'] 1(2,3)] obtain w2 where
    "send_doc E ref msg d' w1 = Ret () w2" "ready w2"
    "view_of V D w2 = v'\<lparr>v_sess := (v_sess v')(ref := sent E msg d' (v_sess v' ref))\<rparr>" .
  with 1 show "\<exists>w'. with_reply E ref msg d body w = Ret a w' \<and> ready w' \<and>
      view_of V D w' = v'\<lparr>v_sess := (v_sess v')(ref := sent E msg d' (v_sess v' ref))\<rparr>"
    by (simp add: with_reply_def Defer_def)
qed

lemma computes_to_local_user [steps]:
  assumes "v_users v uid = None \<Longrightarrow> v' = v"
    and "\<And>s. v_users v uid = Some s \<Longrightarrow> computes V D (deliver s) v () v'"
  shows "computes V D (to_local_user uid deliver) v () v'"
proof (rule computesI)
  fix w assume w: "ready w" "view_of V D w = v"
  then have u: "v_users v uid = um_getSession (w_users w) uid"
    by (auto simp: view_of_def um_getSession_def)
  show "\<exists>w'. to_local_user uid deliver w = Ret () w' \<and> ready w' \<and> view_of V D w' = v'"
  proof (cases "v_users v uid")
    case None
    with assms(1) u w show ?thesis by (simp add: to_local_user_def run_simps)
  next
    case (Some s)
    from computesD [OF assms(2) [OF Some] w] obtain w1 where
      "deliver s w = Ret () w1" "ready w1" "view_of V D w1 = v'" .
    with Some u show ?thesis by (simp add: to_local_user_def run_simps)
  qed
qed

end
