(* ===== verification/ServerOps.thy ===== *)
theory ServerOps
  imports ServerView
begin

text \<open>
  How the Redis commands and the database operations act on the view of the server, for the
  services that answer as documented: one rule per operation, in the collection \<open>steps\<close>.
\<close>

section \<open>Redis\<close>

text \<open>What the commands leave alone outside Redis.\<close>

lemma redis_ops_keep:
  assumes "\<forall>c call x. g (snd (r_command R c call x)) = g x"
  shows "redis_set R k t (p, x) = Ret a (q, y) \<Longrightarrow> g y = g x"
    and "redis_hSet_raw R k h t n (p, x) = Ret b (q, y) \<Longrightarrow> g y = g x"
    and "redis_hDel R k h (p, x) = Ret b (q, y) \<Longrightarrow> g y = g x"
  using assms
  by (auto simp: redis_set_def redis_hSet_raw_def redis_hDel_def with_conn_def run_simps
      rp_getConnection_def redis_run_run give_back_run rp_returnConnection_run
      split: if_splits list.splits option.splits redis_reply.splits)

lemma on_redis_computes:
  assumes "services E V D"
    and "\<And>p x. rp_ready p \<Longrightarrow> kv V x = v_kv v \<Longrightarrow> \<exists>y. f (p, x) = Ret a (spin p, y) \<and> db_of D y = db_of D x \<and>
      kv V y = F (kv V x) \<and> hkv V y = G (hkv V x)"
  shows "computes V D (on_redis f) v a (v\<lparr>v_kv := F (v_kv v), v_hkv := G (v_hkv v)\<rparr>)"
proof (rule computesI)
  fix w assume w: "ready w" "view_of V D w = v"
  from w(2) have "kv V (w_ext w) = v_kv v" by (auto simp: view_of_def)
  with assms(2) [of "w_redis w" "w_ext w"] w(1) obtain y where
    "f (w_redis w, w_ext w) = Ret a (spin (w_redis w), y)" "db_of D y = db_of D (w_ext w)"
    "kv V y = F (kv V (w_ext w))" "hkv V y = G (hkv V (w_ext w))" by (auto simp: ready_def)
  with w show "\<exists>w'. on_redis f w = Ret a w' \<and> ready w' \<and>
      view_of V D w' = v\<lparr>v_kv := F (v_kv v), v_hkv := G (v_hkv v)\<rparr>"
    by (auto simp: run_simps view_of_def ready_def)
qed

lemma computes_redis_get [steps]:
  assumes "services E V D"
  shows "computes V D (on_redis (redis_get (e_redis E) k)) v (map_option cstr (v_kv v (cstr k))) v"
proof (rule computesI)
  fix w assume w: "ready w" "view_of V D w = v"
  with assms redis_get_serves [of "e_redis E" V "w_redis w" k "w_ext w"]
  show "\<exists>w'. on_redis (redis_get (e_redis E) k) w = Ret (map_option cstr (v_kv v (cstr k))) w' \<and>
      ready w' \<and> view_of V D w' = v"
    by (auto simp: services_def run_simps view_of_def ready_def)
qed

lemma computes_redis_hGet [steps]:
  assumes "services E V D"
  shows "computes V D (on_redis (redis_hGet (e_redis E) k h)) v
    (case v_hkv v k h of None \<Rightarrow> [] | Some t \<Rightarrow> cstr t) v"
proof (rule computesI)
  fix w assume w: "ready w" "view_of V D w = v"
  with assms redis_hGet_serves [of "e_redis E" V "w_redis w" k h "w_ext w"]
  show "\<exists>w'. on_redis (redis_hGet (e_redis E) k h) w = Ret (case v_hkv v k h of None \<Rightarrow> [] | Some t \<Rightarrow> cstr t) w' \<and>
      ready w' \<and> view_of V D w' = v"
    by (auto simp: services_def run_simps view_of_def ready_def)
qed

lemma computes_redis_set [steps]:
  assumes "services E V D"
  shows "computes V D (on_redis (redis_set (e_redis E) k t)) v True
    (put_str (cstr k) (cstr t) v)"
proof -
  have "computes V D (on_redis (redis_set (e_redis E) k t)) v True
    (v\<lparr>v_kv := (v_kv v)(cstr k \<mapsto> cstr t), v_hkv := (v_hkv v)(cstr k := Map.empty)\<rparr>)"
  proof (rule on_redis_computes [OF assms, where F = "\<lambda>m. m(cstr k \<mapsto> cstr t)" and
        G = "\<lambda>m. m(cstr k := Map.empty)"])
    fix p :: redis_pool and x assume "rp_ready p"
    with assms redis_set_serves [of "e_redis E" V p k t x] obtain y where
      y: "redis_set (e_redis E) k t (p, x) = Ret True (spin p, y)"
        "kv V y = (kv V x)(cstr k \<mapsto> cstr t)" "hkv V y = (hkv V x)(cstr k := Map.empty)"
      by (auto simp: services_def)
    with assms redis_ops_keep(1) [of "db_of D" "e_redis E" k t p x True "spin p" y]
    show "\<exists>y. redis_set (e_redis E) k t (p, x) = Ret True (spin p, y) \<and> db_of D y = db_of D x \<and>
        kv V y = (kv V x)(cstr k \<mapsto> cstr t) \<and> hkv V y = (hkv V x)(cstr k := Map.empty)"
      by (auto simp: services_def)
  qed
  then show ?thesis by (simp add: put_str_def)
qed

lemma computes_redis_hSet_raw [steps]:
  assumes "services E V D" and "v_kv v (cstr k) = None"
  shows "computes V D (on_redis (redis_hSet_raw (e_redis E) k h t n)) v True
    (v\<lparr>v_hkv := (v_hkv v)(cstr k := (v_hkv v (cstr k))(cstr h \<mapsto> take n t))\<rparr>)"
proof -
  let ?G = "\<lambda>m. m(cstr k := (m (cstr k))(cstr h \<mapsto> take n t))"
  have "computes V D (on_redis (redis_hSet_raw (e_redis E) k h t n)) v True
    (v\<lparr>v_kv := v_kv v, v_hkv := ?G (v_hkv v)\<rparr>)"
  proof (rule on_redis_computes [OF assms(1), where F = "\<lambda>m. m" and G = ?G])
    fix p :: redis_pool and x assume "rp_ready p" "kv V x = v_kv v"
    with assms redis_hSet_raw_serves [of "e_redis E" V p x k h t n] obtain y where
      y: "redis_hSet_raw (e_redis E) k h t n (p, x) = Ret True (spin p, y)"
        "hkv V y = ?G (hkv V x)" "kv V y = kv V x" by (auto simp: services_def)
    with assms redis_ops_keep(2) [of "db_of D" "e_redis E" k h t n p x True "spin p" y]
    show "\<exists>y. redis_hSet_raw (e_redis E) k h t n (p, x) = Ret True (spin p, y) \<and>
        db_of D y = db_of D x \<and> kv V y = kv V x \<and> hkv V y = ?G (hkv V x)"
      by (auto simp: services_def)
  qed
  then show ?thesis by simp
qed

section \<open>The database\<close>

text \<open>
  One statement on a borrowed connection: the pool's connections rotate and the view's database
  takes the effect of the statement.
\<close>

lemma on_mysql_computes:
  assumes "\<And>p x. \<not> mp_stop p \<Longrightarrow> 2 \<le> length (mp_conns p) \<Longrightarrow>
      \<exists>q y. f (p, x) = Ret (A (db_of D x)) (q, y) \<and> \<not> mp_stop q \<and> length (mp_conns q) = length (mp_conns p) \<and>
        db_of D y = B (db_of D x) \<and> kv V y = kv V x \<and> hkv V y = hkv V x"
  shows "computes V D (on_mysql f) v (A (v_db v)) (v\<lparr>v_db := B (v_db v)\<rparr>)"
proof (rule computesI)
  fix w assume w: "ready w" "view_of V D w = v"
  from assms [of "w_mysql w" "w_ext w"] w(1) obtain q y where
    "f (w_mysql w, w_ext w) = Ret (A (db_of D (w_ext w))) (q, y)" "\<not> mp_stop q"
    "length (mp_conns q) = length (mp_conns (w_mysql w))" "db_of D y = B (db_of D (w_ext w))"
    "kv V y = kv V (w_ext w)" "hkv V y = hkv V (w_ext w)" by (auto simp: ready_def)
  with w show "\<exists>w'. on_mysql f w = Ret (A (v_db v)) w' \<and> ready w' \<and>
      view_of V D w' = v\<lparr>v_db := B (v_db v)\<rparr>"
    by (auto simp: run_simps view_of_def ready_def)
qed

lemma sql_query_serves:
  "services E V D \<Longrightarrow> s_query (e_sql E) c stmt args x = (db_query D stmt args (db_of D x), x)"
  by (simp add: services_def)

lemma sql_update_serves:
  assumes "services E V D"
  shows "\<exists>y. s_update (e_sql E) c stmt args x = (fst (db_update D stmt args (db_of D x)), y) \<and>
    db_of D y = snd (db_update D stmt args (db_of D x)) \<and> kv V y = kv V x \<and> hkv V y = hkv V x"
  using assms
  by (intro exI [of _ "snd (s_update (e_sql E) c stmt args x)"]) (simp add: services_def prod_eq_iff)

lemma two_conns: "2 \<le> length cs \<Longrightarrow> \<exists>c d ds. cs = c # d # ds"
  by (cases cs; cases "tl cs") auto

lemma computes_getUserInfo [steps]:
  assumes "services E V D"
  shows "computes V D (on_mysql (mgr_getUserInfo (e_sql E) uid)) v
    (result_user (e_sql E) (db_query D user_stmt [SqlInt uid] (v_db v))) v"
proof -
  have "computes V D (on_mysql (mgr_getUserInfo (e_sql E) uid)) v
    (result_user (e_sql E) (db_query D user_stmt [SqlInt uid] (v_db v))) (v\<lparr>v_db := v_db v\<rparr>)"
  proof (rule on_mysql_computes [where B = "\<lambda>d. d"
        and A = "\<lambda>d. result_user (e_sql E) (db_query D user_stmt [SqlInt uid] d)"])
    fix p :: mysql_pool and x assume p: "\<not> mp_stop p" "2 \<le> length (mp_conns p)"
    from two_conns [OF p(2)] obtain c d ds where "mp_conns p = c # d # ds" by blast
    with p(1) dao_getUserInfo_run [of p c "d # ds" "e_sql E" uid x]
    show "\<exists>q y. mgr_getUserInfo (e_sql E) uid (p, x) =
        Ret (result_user (e_sql E) (db_query D user_stmt [SqlInt uid] (db_of D x))) (q, y) \<and> \<not> mp_stop q \<and>
        length (mp_conns q) = length (mp_conns p) \<and>
        db_of D y = db_of D x \<and> kv V y = kv V x \<and> hkv V y = hkv V x"
      by (simp add: mgr_defs sql_query_serves [OF assms])
  qed
  then show ?thesis by simp
qed

lemma computes_with_conn:
  assumes "\<And>c p x. \<exists>y. body c (p, x) = Ret (A (db_of D x)) (p, y) \<and>
      db_of D y = B (db_of D x) \<and> kv V y = kv V x \<and> hkv V y = hkv V x"
  shows "computes V D (on_mysql (with_conn mp_getConnection mp_returnConnection none body)) v
    (A (v_db v)) (v\<lparr>v_db := B (v_db v)\<rparr>)"
proof (rule on_mysql_computes [where A = A and B = B])
  fix p :: mysql_pool and x assume p: "\<not> mp_stop p" "2 \<le> length (mp_conns p)"
  from two_conns [OF p(2)] obtain c d ds where c: "mp_conns p = c # d # ds" by blast
  from assms [of c "p\<lparr>mp_conns := d # ds\<rparr>" x] obtain y where
    "body c (p\<lparr>mp_conns := d # ds\<rparr>, x) = Ret (A (db_of D x)) (p\<lparr>mp_conns := d # ds\<rparr>, y)"
    "db_of D y = B (db_of D x)" "kv V y = kv V x" "hkv V y = hkv V x" by blast
  with p c show "\<exists>q y. with_conn mp_getConnection mp_returnConnection none body (p, x) =
      Ret (A (db_of D x)) (q, y) \<and> \<not> mp_stop q \<and> length (mp_conns q) = length (mp_conns p) \<and>
      db_of D y = B (db_of D x) \<and> kv V y = kv V x \<and> hkv V y = hkv V x"
    by (simp add: with_conn_def run_simps mp_getConnection_def mp_returnConnection_run)
qed

lemma sql_query_view:
  assumes "services E V D"
  shows "sql_query (e_sql E) c stmt args (p, x) =
    (case db_query D stmt args (db_of D x) of
       None \<Rightarrow> Throw SqlException (p, x) | Some rows \<Rightarrow> Ret rows (p, x))"
  using sql_query_serves [OF assms, of "sc_con c" stmt args x]
  by (simp add: sql_query_def run_simps split: option.splits)

lemma sql_update_view:
  assumes "services E V D"
  shows "\<exists>y. (\<forall>p. sql_update (e_sql E) c stmt args (p, x) =
      (case fst (db_update D stmt args (db_of D x)) of
         None \<Rightarrow> Throw SqlException (p, y) | Some n \<Rightarrow> Ret n (p, y))) \<and>
    db_of D y = snd (db_update D stmt args (db_of D x)) \<and> kv V y = kv V x \<and> hkv V y = hkv V x"
proof -
  from sql_update_serves [OF assms, of "sc_con c" stmt args x] obtain y where
    y: "s_update (e_sql E) (sc_con c) stmt args x = (fst (db_update D stmt args (db_of D x)), y)"
      "db_of D y = snd (db_update D stmt args (db_of D x))" "kv V y = kv V x" "hkv V y = hkv V x"
    by blast
  then show ?thesis
    by (intro exI [of _ y]) (simp add: sql_update_def run_simps split: option.splits)
qed

text \<open>The answers of the statements, as functions of the database.\<close>

abbreviation apply_stmt :: string where
  "apply_stmt \<equiv>
    ''SELECT apply.from_uid, apply.status, apply.alias_name, user.name, user.nick, user.sex '' @
    ''FROM friend_apply AS apply JOIN user ON apply.from_uid = user.uid '' @
    ''WHERE apply.to_uid = ? AND apply.id > ? ORDER BY apply.id ASC LIMIT ?''"

definition applies_of :: "('x, 'row) sql_api \<Rightarrow> ('x, 'row, 'd) db_view \<Rightarrow> int32 \<Rightarrow> 'd \<Rightarrow> bool \<times> ApplyInfo list" where
  "applies_of S D uid d = (case db_query D apply_stmt [SqlInt uid, SqlInt 0, SqlInt 10] d of
      None \<Rightarrow> (False, []) | Some rows \<Rightarrow> read_applies S rows [])"

definition user_of :: "('x, 'row) sql_api \<Rightarrow> ('x, 'row, 'd) db_view \<Rightarrow> int32 \<Rightarrow> 'd \<Rightarrow> UserInfo option" where
  "user_of S D uid d = result_user S (db_query D user_stmt [SqlInt uid] d)"

fun friends_from :: "('x, 'row) sql_api \<Rightarrow> ('x, 'row, 'd) db_view \<Rightarrow> 'd \<Rightarrow> 'row list \<Rightarrow> bool \<times> UserInfo list" where
  "friends_from S D d [] = (True, [])"
| "friends_from S D d (row # rows) = (case (s_int S row ''friend_id'', s_str S row ''alias_name'') of
      (Some fid, Some al) \<Rightarrow> (case friends_from S D d rows of (b, us) \<Rightarrow>
         (b, (case user_of S D fid d of None \<Rightarrow> us | Some u \<Rightarrow> u\<lparr>ui_alias_name := al\<rparr> # us)))
    | _ \<Rightarrow> (False, []))"

definition friends_of :: "('x, 'row) sql_api \<Rightarrow> ('x, 'row, 'd) db_view \<Rightarrow> int32 \<Rightarrow> 'd \<Rightarrow> bool \<times> UserInfo list" where
  "friends_of S D uid d = (case db_query D ''SELECT * FROM friend WHERE self_id = ?'' [SqlInt uid] d of
      None \<Rightarrow> (False, []) | Some rows \<Rightarrow> friends_from S D d rows)"

lemma computes_getUserInfo' [steps]:
  "services E V D \<Longrightarrow> computes V D (on_mysql (mgr_getUserInfo (e_sql E) uid)) v
    (user_of (e_sql E) D uid (v_db v)) v"
  unfolding user_of_def by (rule computes_getUserInfo)

lemma computes_getApplyList [steps]:
  assumes "services E V D"
  shows "computes V D (ls_getFriendApplyInfo E uid []) v (applies_of (e_sql E) D uid (v_db v)) v"
proof -
  have "computes V D (ls_getFriendApplyInfo E uid []) v (applies_of (e_sql E) D uid (v_db v))
    (v\<lparr>v_db := v_db v\<rparr>)"
    unfolding ls_getFriendApplyInfo_def mgr_getApplyList_def dao_getApplyList_def
    by (rule computes_with_conn [where A = "applies_of (e_sql E) D uid" and B = "\<lambda>d. d"])
      (auto simp: sql_query_view [OF assms] applies_of_def run_simps split: option.splits)
  then show ?thesis by simp
qed

lemma friend_rows_view:
  assumes "services E V D"
  shows "\<not> mp_stop p \<Longrightarrow> mp_conns p \<noteq> [] \<Longrightarrow>
    \<exists>q. friend_rows (e_sql E) rows list (p, x) =
      Ret (map_prod id ((@) list) (friends_from (e_sql E) D (db_of D x) rows)) (q, x) \<and>
      \<not> mp_stop q \<and> length (mp_conns q) = length (mp_conns p)"
proof (induction rows arbitrary: list p)
  case Nil
  then show ?case by (simp add: run_simps)
next
  case (Cons row rows)
  show ?case
  proof (cases "s_int (e_sql E) row ''friend_id'' = None \<or> s_str (e_sql E) row ''alias_name'' = None")
    case True
    with Cons.prems show ?thesis by (auto simp: run_simps split: option.splits)
  next
    case False
    from Cons.prems(2) obtain c cs where c: "mp_conns p = c # cs" by (cases "mp_conns p") auto
    from False obtain fid al where f: "s_int (e_sql E) row ''friend_id'' = Some fid"
      "s_str (e_sql E) row ''alias_name'' = Some al" by auto
    let ?p = "p\<lparr>mp_conns := cs @ [c]\<rparr>"
    have g: "dao_getUserInfo (e_sql E) fid (p, x) = Ret (user_of (e_sql E) D fid (db_of D x)) (?p, x)"
      by (simp add: dao_getUserInfo_run [OF Cons.prems(1) c] sql_query_serves [OF assms] user_of_def)
    obtain b us where b: "friends_from (e_sql E) D (db_of D x) rows = (b, us)" by fastforce
    show ?thesis
    proof (cases "user_of (e_sql E) D fid (db_of D x)")
      case None
      with f g b c Cons.IH [of ?p list] Cons.prems show ?thesis by (simp add: run_simps)
    next
      case (Some u)
      with f g b c Cons.IH [of ?p "list @ [u\<lparr>ui_alias_name := al\<rparr>]"] Cons.prems show ?thesis
        by (simp add: run_simps)
    qed
  qed
qed

lemma computes_getFriendList [steps]:
  assumes "services E V D"
  shows "computes V D (ls_getFriendList E uid []) v (friends_of (e_sql E) D uid (v_db v)) v"
proof -
  have "computes V D (ls_getFriendList E uid []) v (friends_of (e_sql E) D uid (v_db v))
    (v\<lparr>v_db := v_db v\<rparr>)"
    unfolding ls_getFriendList_def
  proof (rule on_mysql_computes [where A = "friends_of (e_sql E) D uid" and B = "\<lambda>d. d"])
    fix p :: mysql_pool and x assume p: "\<not> mp_stop p" "2 \<le> length (mp_conns p)"
    from two_conns [OF p(2)] obtain c d ds where c: "mp_conns p = c # d # ds" by blast
    show "\<exists>q y. mgr_getFriendList (e_sql E) uid [] (p, x) =
        Ret (friends_of (e_sql E) D uid (db_of D x)) (q, y) \<and> \<not> mp_stop q \<and>
        length (mp_conns q) = length (mp_conns p) \<and>
        db_of D y = db_of D x \<and> kv V y = kv V x \<and> hkv V y = hkv V x"
    proof (cases "db_query D ''SELECT * FROM friend WHERE self_id = ?'' [SqlInt uid] (db_of D x)")
      case None
      with p c show ?thesis
        by (simp add: mgr_defs dao_getFriendList_def with_conn_def mp_getConnection_def
            mp_returnConnection_run sql_query_view [OF assms] friends_of_def run_simps)
    next
      case (Some rows)
      from friend_rows_view [OF assms, of "p\<lparr>mp_conns := d # ds\<rparr>" rows "[]" x] p obtain q where
        "friend_rows (e_sql E) rows [] (p\<lparr>mp_conns := d # ds\<rparr>, x) =
          Ret (friends_from (e_sql E) D (db_of D x) rows) (q, x)" "\<not> mp_stop q"
          "length (mp_conns q) = Suc (length ds)" by (auto simp: prod.map_id0 map_prod_def case_prod_unfold)
      with p c Some show ?thesis
        by (simp add: mgr_defs dao_getFriendList_def with_conn_def mp_getConnection_def
            mp_returnConnection_run sql_query_view [OF assms] friends_of_def run_simps)
    qed
  qed
  then show ?thesis by simp
qed

definition alias_of :: "('x, 'row) sql_api \<Rightarrow> 'row list option \<Rightarrow> bool \<times> string" where
  "alias_of S res = (case res of
      Some (row # _) \<Rightarrow> (case s_str S row ''alias_name'' of None \<Rightarrow> (False, []) | Some t \<Rightarrow> (True, t))
    | _ \<Rightarrow> (False, []))"

abbreviation apply_alias_stmt :: string where
  "apply_alias_stmt \<equiv> ''SELECT alias_name FROM friend_apply WHERE from_uid = ? AND to_uid = ? LIMIT 1''"

abbreviation friend_alias_stmt :: string where
  "friend_alias_stmt \<equiv> ''SELECT alias_name FROM friend WHERE self_id = ? AND friend_id = ? LIMIT 1''"

abbreviation name_stmt :: string where
  "name_stmt \<equiv> ''SELECT uid, name, nick, `desc`, sex, icon, email, pwd FROM user WHERE name = ?''"

abbreviation add_apply_stmt :: string where
  "add_apply_stmt \<equiv> ''INSERT INTO friend_apply (from_uid,to_uid,alias_name) VALUES (?,?,?)'' @
     '' ON DUPLICATE KEY UPDATE alias_name = VALUES(alias_name)''"

abbreviation auth_apply_stmt :: string where
  "auth_apply_stmt \<equiv> ''UPDATE friend_apply SET status = 1 '' @ ''WHERE from_uid = ? AND to_uid = ?''"

lemma computes_read_only:
  assumes "computes V D f v a (v\<lparr>v_db := v_db v\<rparr>)"
  shows "computes V D f v a v"
  using assms by simp

lemma computes_getFriendApplyAlias [steps]:
  assumes "services E V D"
  shows "computes V D (on_mysql (mgr_getFriendApplyAlias (e_sql E) a b)) v
    (alias_of (e_sql E) (db_query D apply_alias_stmt [SqlInt a, SqlInt b] (v_db v))) v"
  unfolding mgr_getFriendApplyAlias_def dao_getFriendApplyAlias_def
  by (rule computes_read_only, rule computes_with_conn [where B = "\<lambda>d. d" and
        A = "\<lambda>d. alias_of (e_sql E) (db_query D apply_alias_stmt [SqlInt a, SqlInt b] d)"])
    (auto simp: sql_query_view [OF assms] alias_of_def first_alias_def row_str_def mlift_def run_simps
      split: option.splits list.splits)

lemma computes_getFriendAlias [steps]:
  assumes "services E V D"
  shows "computes V D (on_mysql (mgr_getFriendAlias (e_sql E) a b)) v
    (alias_of (e_sql E) (db_query D friend_alias_stmt [SqlInt a, SqlInt b] (v_db v))) v"
  unfolding mgr_getFriendAlias_def dao_getFriendAlias_def
  by (rule computes_read_only, rule computes_with_conn [where B = "\<lambda>d. d" and
        A = "\<lambda>d. alias_of (e_sql E) (db_query D friend_alias_stmt [SqlInt a, SqlInt b] d)"])
    (auto simp: sql_query_view [OF assms] alias_of_def first_alias_def row_str_def mlift_def run_simps
      split: option.splits list.splits)

lemma computes_getUserInfo_name [steps]:
  assumes "services E V D"
  shows "computes V D (on_mysql (mgr_getUserInfo_name (e_sql E) name)) v
    (result_user (e_sql E) (db_query D name_stmt [SqlString name] (v_db v))) v"
  unfolding mgr_getUserInfo_name_def dao_getUserInfo_name_def
  by (rule computes_read_only, rule computes_with_conn [where B = "\<lambda>d. d" and
        A = "\<lambda>d. result_user (e_sql E) (db_query D name_stmt [SqlString name] d)"])
    (auto simp: sql_query_view [OF assms] result_user_def first_user_def run_simps
      split: option.splits list.splits)

text \<open>One update: its answer and the database afterwards.\<close>

lemma computes_update:
  assumes "services E V D"
  shows "computes V D (on_mysql (with_conn mp_getConnection mp_returnConnection none (\<lambda>con.
      catch_sql (mbind (sql_update (e_sql E) con stmt args) (\<lambda>n. mret (g n))) (mret no)))) v
    (case fst (db_update D stmt args (v_db v)) of None \<Rightarrow> no | Some n \<Rightarrow> g n)
    (v\<lparr>v_db := snd (db_update D stmt args (v_db v))\<rparr>)"
proof (rule computes_with_conn [where B = "\<lambda>d. snd (db_update D stmt args d)" and
      A = "\<lambda>d. case fst (db_update D stmt args d) of None \<Rightarrow> no | Some n \<Rightarrow> g n"])
  fix c p x
  from sql_update_view [OF assms, of c stmt args x] obtain y where
    "sql_update (e_sql E) c stmt args (p, x) = (case fst (db_update D stmt args (db_of D x)) of
         None \<Rightarrow> Throw SqlException (p, y) | Some n \<Rightarrow> Ret n (p, y))"
    "db_of D y = snd (db_update D stmt args (db_of D x))" "kv V y = kv V x" "hkv V y = hkv V x"
    by blast
  then show "\<exists>y. catch_sql (mbind (sql_update (e_sql E) c stmt args) (\<lambda>n. mret (g n))) (mret no) (p, x) =
      Ret (case fst (db_update D stmt args (db_of D x)) of None \<Rightarrow> no | Some n \<Rightarrow> g n) (p, y) \<and>
      db_of D y = snd (db_update D stmt args (db_of D x)) \<and> kv V y = kv V x \<and> hkv V y = hkv V x"
    by (intro exI [of _ y]) (auto simp: run_simps split: option.splits)
qed

lemma computes_addFriendApply [steps]:
  assumes "services E V D"
  shows "computes V D (on_mysql (mgr_addFriendApply (e_sql E) a b t)) v
    (case fst (db_update D add_apply_stmt [SqlInt a, SqlInt b, SqlString t] (v_db v)) of
       None \<Rightarrow> False | Some n \<Rightarrow> \<not> n < 0)
    (v\<lparr>v_db := snd (db_update D add_apply_stmt [SqlInt a, SqlInt b, SqlString t] (v_db v))\<rparr>)"
proof -
  have e: "(\<lambda>n. if n < 0 then mret False else mret True) = (\<lambda>n :: int. mret (\<not> n < 0))"
    by auto
  show ?thesis
    unfolding mgr_addFriendApply_def dao_addFriendApply_def e by (rule computes_update [OF assms])
qed

lemma computes_authFriendApply [steps]:
  assumes "services E V D"
  shows "computes V D (on_mysql (mgr_authFriendApply (e_sql E) a b)) v
    (case fst (db_update D auth_apply_stmt [SqlInt a, SqlInt b] (v_db v)) of
       None \<Rightarrow> False | Some n \<Rightarrow> n > 0)
    (v\<lparr>v_db := snd (db_update D auth_apply_stmt [SqlInt a, SqlInt b] (v_db v))\<rparr>)"
  unfolding mgr_authFriendApply_def dao_authFriendApply_def by (rule computes_update [OF assms])

text \<open>Both insertions of a friendship; the second is not run when the first throws.\<close>

definition befriended ::
  "('x, 'row, 'd) db_view \<Rightarrow> int32 \<Rightarrow> int32 \<Rightarrow> string \<Rightarrow> string \<Rightarrow> 'd \<Rightarrow> bool \<times> 'd" where
  "befriended D a b t1 t2 d =
    (case db_update D insert_friend_stmt [SqlInt a, SqlInt b, SqlString t1] d of
       (None, d1) \<Rightarrow> (False, d1)
     | (Some n1, d1) \<Rightarrow>
        (case db_update D insert_friend_stmt [SqlInt b, SqlInt a, SqlString t2] d1 of
           (None, d2) \<Rightarrow> (False, d2)
         | (Some n2, d2) \<Rightarrow> (n1 > 0 \<or> n2 > 0, d2)))"

lemma computes_addFriend [steps]:
  assumes "services E V D"
  shows "computes V D (on_mysql (mgr_addFriend (e_sql E) a b t1 t2)) v
    (fst (befriended D a b t1 t2 (v_db v))) (v\<lparr>v_db := snd (befriended D a b t1 t2 (v_db v))\<rparr>)"
  unfolding mgr_addFriend_def dao_addFriend_def
proof (rule computes_with_conn [where B = "\<lambda>d. snd (befriended D a b t1 t2 d)" and
      A = "\<lambda>d. fst (befriended D a b t1 t2 d)"])
  fix c p x
  let ?i1 = "sql_update (e_sql E) c insert_friend_stmt [SqlInt a, SqlInt b, SqlString t1]"
  let ?i2 = "sql_update (e_sql E) c insert_friend_stmt [SqlInt b, SqlInt a, SqlString t2]"
  let ?body = "catch_sql (mbind ?i1 (\<lambda>n. mbind ?i2 (\<lambda>n2. mret (n > 0 \<or> n2 > 0)))) (mret False)"
  from sql_update_view [OF assms, of c insert_friend_stmt "[SqlInt a, SqlInt b, SqlString t1]" x]
  obtain y where y: "\<And>p. ?i1 (p, x) =
      (case fst (db_update D insert_friend_stmt [SqlInt a, SqlInt b, SqlString t1] (db_of D x)) of
         None \<Rightarrow> Throw SqlException (p, y) | Some n \<Rightarrow> Ret n (p, y))"
    "db_of D y = snd (db_update D insert_friend_stmt [SqlInt a, SqlInt b, SqlString t1] (db_of D x))"
    "kv V y = kv V x" "hkv V y = hkv V x" by blast
  from sql_update_view [OF assms, of c insert_friend_stmt "[SqlInt b, SqlInt a, SqlString t2]" y]
  obtain z where z: "\<And>p. ?i2 (p, y) =
      (case fst (db_update D insert_friend_stmt [SqlInt b, SqlInt a, SqlString t2] (db_of D y)) of
         None \<Rightarrow> Throw SqlException (p, z) | Some n \<Rightarrow> Ret n (p, z))"
    "db_of D z = snd (db_update D insert_friend_stmt [SqlInt b, SqlInt a, SqlString t2] (db_of D y))"
    "kv V z = kv V y" "hkv V z = hkv V y" by blast
  show "\<exists>y. ?body (p, x) = Ret (fst (befriended D a b t1 t2 (db_of D x))) (p, y) \<and>
      db_of D y = snd (befriended D a b t1 t2 (db_of D x)) \<and> kv V y = kv V x \<and> hkv V y = hkv V x"
  proof (cases "fst (db_update D insert_friend_stmt [SqlInt a, SqlInt b, SqlString t1] (db_of D x))")
    case None
    with y show ?thesis
      by (intro exI [of _ y]) (simp add: befriended_def run_simps case_prod_unfold)
  next
    case (Some n)
    with y z show ?thesis
      by (intro exI [of _ z])
        (auto simp: befriended_def run_simps case_prod_unfold split: option.splits)
  qed
qed

end
