(* ===== verification/LoginSpec.thy ===== *)
theory LoginSpec
  imports ServerOps
begin

text \<open>
  Login and logout as functions of the view: \<open>login_spec\<close> is what \<open>loginHandler\<close> answers and does,
  \<open>closed\<close> what \<open>CSession::close\<close> does, and the handlers compute them. On top of this: who is
  counted as logged in, and where a user's messages go.
\<close>

declare jset.simps [simp del]

lemma put_member_twice [simp]: "put_member k v (put_member k u kvs) = put_member k v kvs"
  by (induction kvs) auto

lemma jset_twice [simp]: "jset k v (jset k u d) = jset k v d"
  by (cases d) (simp_all add: jset.simps)

section \<open>Names without NUL characters\<close>

lemma cstr_constants:
  "cstr USERTOKENPREFIX = USERTOKENPREFIX" "cstr USERIPPREFIX = USERIPPREFIX"
  "cstr USER_BASE_INFO = USER_BASE_INFO" "cstr USER_NAME_INFO = USER_NAME_INFO"
  "cstr LOGIN_COUNT = LOGIN_COUNT"
  by (simp_all add: prefix_defs cstr_def)

lemma cstr_keys [simp]:
  "cstr (USERTOKENPREFIX @ s) = USERTOKENPREFIX @ cstr s"
  "cstr (USERIPPREFIX @ s) = USERIPPREFIX @ cstr s"
  "cstr (USER_BASE_INFO @ s) = USER_BASE_INFO @ cstr s"
  "cstr (USER_NAME_INFO @ s) = USER_NAME_INFO @ cstr s"
  "cstr LOGIN_COUNT = LOGIN_COUNT"
  by (simp_all add: cstr_append cstr_constants)

section \<open>The base information of a user\<close>

definition cached :: "string \<Rightarrow> UserInfo \<Rightarrow> string \<Rightarrow> 'd view \<Rightarrow> 'd view" where
  "cached base_key u txt v =
    (let v1 = put_str (cstr base_key) (cstr txt) v
     in if ui_name u \<noteq> [] then put_str (cstr (USER_NAME_INFO @ ui_name u)) (cstr txt) v1 else v1)"

lemma computes_cache_user [steps]:
  assumes "services E V D"
  shows "computes V D (cache_user E base_key u txt) v () (cached base_key u txt v)"
proof -
  have "computes V D (cache_user E base_key u txt) v ()
    (if ui_name u \<noteq> []
     then put_str (cstr (USER_NAME_INFO @ ui_name u)) (cstr txt) (put_str (cstr base_key) (cstr txt) v)
     else put_str (cstr base_key) (cstr txt) v)"
    unfolding cache_user_def by (rule steps assms)+
  then show ?thesis by (simp add: cached_def Let_def split: if_splits)
qed

lemma user_of_nick: "user_of S D uid d = Some u \<Longrightarrow> ui_nick u = [] \<Longrightarrow> ui_name u = []"
  by (auto simp: user_of_def result_user_def row_user_def split: option.splits list.splits bind_splits if_splits)

definition based :: "('x, 'row, 'j) env \<Rightarrow> ('x, 'row, 'd) db_view \<Rightarrow> int32 \<Rightarrow> 'd view \<Rightarrow> 'd view" where
  "based E D uid v = (case user_of (e_sql E) D uid (v_db v) of
      None \<Rightarrow> v
    | Some u \<Rightarrow> cached (USER_BASE_INFO @ to_string uid) u (j_fast (e_json E) (user_doc u)) v)"

lemma computes_getBaseInfo [steps]:
  assumes "services E V D"
  shows "computes V D (ls_getBaseInfo E (USER_BASE_INFO @ to_string uid) uid) v
    (user_of (e_sql E) D uid (v_db v)) (based E D uid v)"
proof (cases "user_of (e_sql E) D uid (v_db v)")
  case None
  have "computes V D (ls_getBaseInfo E (USER_BASE_INFO @ to_string uid) uid) v None v"
    unfolding ls_getBaseInfo_def
    by (rule computes_mbind [OF computes_getUserInfo' [OF assms]]) (simp add: None computes_mret)
  with None show ?thesis by (simp add: based_def)
next
  case (Some u)
  have n: "(if ui_nick u = [] then u\<lparr>ui_nick := ui_name u\<rparr> else u) = u"
    using user_of_nick [OF Some] by simp
  have "computes V D (ls_getBaseInfo E (USER_BASE_INFO @ to_string uid) uid) v (Some u)
    (cached (USER_BASE_INFO @ to_string uid) u (j_fast (e_json E) (user_doc u)) v)"
    unfolding ls_getBaseInfo_def
    by (rule computes_mbind [OF computes_getUserInfo' [OF assms]])
      (simp add: Some n Let_def computes_mseq [OF computes_cache_user [OF assms] computes_mret])
  with Some show ?thesis by (simp add: based_def)
qed

section \<open>The number of logins\<close>

text \<open>The counters are a hash; a string under its key would be an error for HGET and HSET.\<close>

definition count_is :: "('x, 'row, 'j) env \<Rightarrow> 'd view \<Rightarrow> int32 \<Rightarrow> bool" where
  "count_is E v n \<longleftrightarrow> v_kv v LOGIN_COUNT = None \<and>
    (case v_hkv v LOGIN_COUNT (self_name E) of None \<Rightarrow> n = 0 | Some t \<Rightarrow> t = to_string n)"

lemma count_is_hash: "count_is E v n \<Longrightarrow> v_kv v LOGIN_COUNT = None"
  by (simp add: count_is_def)

lemma count_key [simp]:
  "LOGIN_COUNT \<noteq> USERIPPREFIX @ s" "LOGIN_COUNT \<noteq> USER_BASE_INFO @ s" "LOGIN_COUNT \<noteq> USER_NAME_INFO @ s"
  "USERIPPREFIX @ s \<noteq> LOGIN_COUNT" "USER_BASE_INFO @ s \<noteq> LOGIN_COUNT" "USER_NAME_INFO @ s \<noteq> LOGIN_COUNT"
  by (simp_all add: prefix_defs)

definition set_count :: "('x, 'row, 'j) env \<Rightarrow> int32 \<Rightarrow> 'd view \<Rightarrow> 'd view" where
  "set_count E n v =
    v\<lparr>v_hkv := (v_hkv v)(LOGIN_COUNT := (v_hkv v LOGIN_COUNT)(cstr (self_name E) \<mapsto> to_string n))\<rparr>"

lemma computes_lift: "f = mret a \<Longrightarrow> computes V D f v a v"
  by (simp add: computes_mret)

lemma stoi_mret: "stoi (to_string n) = mret n"
  by (rule ext) (simp add: stoi_to_string run_simps)

lemma computes_read_count [steps]:
  assumes "services E V D" and "count_is E v n"
  shows "computes V D (read_count E) v n v"
  unfolding read_count_def
proof (rule computes_mbind [OF computes_redis_hGet [OF assms(1)]])
  let ?rd = "case v_hkv v LOGIN_COUNT (self_name E) of None \<Rightarrow> [] | Some t \<Rightarrow> cstr t"
  show "computes V D (if ?rd \<noteq> [] then stoi ?rd else mret 0) v n v"
    using assms(2) by (auto simp: count_is_def stoi_mret split: option.splits intro: computes_mret)
qed

lemma computes_write_count [steps]:
  assumes "services E V D" and "v_kv v LOGIN_COUNT = None"
  shows "computes V D (write_count E n) v () (set_count E n v)"
proof -
  have "computes V D (write_count E n) v ()
    (v\<lparr>v_hkv := (v_hkv v)(cstr LOGIN_COUNT := (v_hkv v (cstr LOGIN_COUNT))
        (cstr (cstr (self_name E)) \<mapsto> take (length (to_string n)) (to_string n)))\<rparr>)"
    unfolding write_count_def
    by (rule computes_mseq [OF computes_redis_hSet_raw [OF assms(1)] computes_mret]) (simp add: assms(2))
  then show ?thesis by (simp add: set_count_def cstr_idem)
qed

lemma count_is_set_count:
  "cstr (self_name E) = self_name E \<Longrightarrow> v_kv v LOGIN_COUNT = None \<Longrightarrow>
    count_is E (set_count E n v) k \<longleftrightarrow> k = n"
  by (auto simp: count_is_def set_count_def to_string_inject)


section \<open>Login\<close>

definition member_int :: "'j json_api \<Rightarrow> 'j \<Rightarrow> string \<Rightarrow> int32 option" where
  "member_int J v key = Option.bind (j_member J v key) (j_as_int J)"

lemma get_int_mret: "member_int J v k = Some i \<Longrightarrow> get_int J v k = mret i"
  by (rule ext) (auto simp: member_int_def get_int_def get_member_def run_simps bind_eq_Some_conv)

lemma get_str_mret: "member_text J v k = Some t \<Longrightarrow> get_str J v k = mret t"
  by (rule ext) (auto simp: member_text_def get_str_def get_member_def run_simps bind_eq_Some_conv)

text \<open>
  What a login does to the view, as a function of it: the reply and the new view. \<open>n\<close> is the
  number of logins before.
\<close>

definition login_reply :: "('x, 'row, 'j) env \<Rightarrow> ('x, 'row, 'd) db_view \<Rightarrow> int32 \<Rightarrow> UserInfo \<Rightarrow> 'd \<Rightarrow> 'j doc" where
  "login_reply E D uid u d =
    (let (b, applies) = applies_of (e_sql E) D uid d;
         r1 = jset_all ((''error'', jerror SUCCESS) # login_fields uid u) DNull;
         r2 = fold (jappend_at ''apply_list'') (if b then map apply_doc applies else []) r1
     in fold (jappend_at ''friend_list'') (map friend_doc (snd (friends_of (e_sql E) D uid d))) r2)"

definition logged_in :: "('x, 'row, 'j) env \<Rightarrow> nat \<Rightarrow> int32 \<Rightarrow> int32 \<Rightarrow> 'd view \<Rightarrow> 'd view" where
  "logged_in E ref uid n v =
    (let v1 = put_str (USERIPPREFIX @ to_string uid) (cstr (self_name E)) (set_count E (n + 1) v)
     in v1\<lparr>v_sess := (v_sess v)(ref := cs_setUserId uid (v_sess v ref)),
           v_users := (v_users v)(uid \<mapsto> ref)\<rparr>)"

definition login_spec ::
  "('x, 'row, 'j) env \<Rightarrow> ('x, 'row, 'd) db_view \<Rightarrow> nat \<Rightarrow> int32 \<Rightarrow> string \<Rightarrow> int32 \<Rightarrow> 'd view \<Rightarrow> 'j doc \<times> 'd view" where
  "login_spec E D ref uid token n v = (case v_kv v (USERTOKENPREFIX @ to_string uid) of
      None \<Rightarrow> (jset ''error'' (jerror UID_INVALID) DNull, v)
    | Some value \<Rightarrow>
        if cstr value \<noteq> token then (jset ''error'' (jerror TOKEN_INVALID) DNull, v)
        else (case user_of (e_sql E) D uid (v_db v) of
            None \<Rightarrow> (jset ''error'' (jerror UID_INVALID) DNull, v)
          | Some u \<Rightarrow> (login_reply E D uid u (v_db v), logged_in E ref uid n (based E D uid v))))"

definition reply_sent :: "('x, 'row, 'j) env \<Rightarrow> nat \<Rightarrow> MSG_IDS \<Rightarrow> 'j doc \<times> 'd view \<Rightarrow> 'd view" where
  "reply_sent E ref msg r =
    (snd r)\<lparr>v_sess := (v_sess (snd r))(ref := sent E msg (fst r) (v_sess (snd r) ref))\<rparr>"

lemma view_parts_based [simp]:
  "v_db (based E D uid v) = v_db v" "v_hkv (based E D uid v) LOGIN_COUNT = v_hkv v LOGIN_COUNT"
  "v_kv (based E D uid v) LOGIN_COUNT = v_kv v LOGIN_COUNT"
  "v_users (based E D uid v) = v_users v" "v_sess (based E D uid v) = v_sess v"
  "v_sessions (based E D uid v) = v_sessions v" "v_peers (based E D uid v) = v_peers v"
  "v_que (based E D uid v) = v_que v"
  by (simp_all add: based_def cached_def Let_def split: option.splits)

lemma count_is_based [simp]: "count_is E (based E D uid v) n = count_is E v n"
  by (simp add: count_is_def)

lemma computes_mguard [steps]: "b \<Longrightarrow> computes V D f v a v' \<Longrightarrow> computes V D (mguard b f) v a v'"
  by (simp add: mguard_def)

lemma computes_login_store [steps]:
  assumes "services E V D" and "v_kv v LOGIN_COUNT = None" and "sint n < 2 ^ 31 - 1"
  shows "computes V D (login_store E ref uid n) v () (logged_in E ref uid n v)"
proof -
  let ?v1 = "set_count E (n + 1) v"
  let ?v2 = "?v1\<lparr>v_sess := (v_sess ?v1)(ref := cs_setUserId uid (v_sess ?v1 ref))\<rparr>"
  let ?v3 = "put_str (cstr (USERIPPREFIX @ to_string uid)) (cstr (self_name E)) ?v2"
  have "computes V D (login_store E ref uid n) v ()
      (?v3\<lparr>v_users := um_setUserSession uid ref (v_users ?v3)\<rparr>)"
    unfolding login_store_def
    by (rule steps assms mmodify_run)+
  then show ?thesis
    by (simp add: logged_in_def Let_def um_setUserSession_def set_count_def)
qed

lemma computes_login_finish [steps]:
  assumes "services E V D" and "count_is E v n" and "sint n < 2 ^ 31 - 1"
  shows "computes V D (login_finish E ref uid) v () (logged_in E ref uid n v)"
  unfolding login_finish_def
  by (rule computes_mbind [OF computes_read_count [OF assms(1,2)]],
      rule computes_login_store [OF assms(1) count_is_hash [OF assms(2)] assms(3)])

lemma computes_login_user [steps]:
  assumes "services E V D" and "count_is E v n" and "sint n < 2 ^ 31 - 1"
    and "user_of (e_sql E) D uid (v_db v) = Some u"
  shows "computes_doc V D (login_user E ref uid) (jset ''error'' (jerror SUCCESS) DNull) v ()
    (login_reply E D uid u (v_db v)) (logged_in E ref uid n (based E D uid v))"
proof -
  let ?v = "based E D uid v"
  let ?A = "applies_of (e_sql E) D uid (v_db ?v)" and ?F = "friends_of (e_sql E) D uid (v_db ?v)"
  let ?d1 = "jset_all (login_fields uid u) (jset ''error'' (jerror SUCCESS) DNull)"
  let ?d2 = "fold (jappend_at ''apply_list'') (if fst ?A then map apply_doc (snd ?A) else []) ?d1"
  let ?d3 = "fold (jappend_at ''friend_list'') (map friend_doc (snd ?F)) ?d2"
  have c: "count_is E ?v n" using assms(2) by simp
  have "computes_doc V D (login_user E ref uid) (jset ''error'' (jerror SUCCESS) DNull) v ()
      ?d3 (logged_in E ref uid n ?v)"
    unfolding login_user_def
    apply (rule doc_mbind [OF doc_on_snd [OF computes_getBaseInfo [OF assms(1)]]])
    apply (simp only: assms(4) option.case)
    apply (rule doc_mseq [OF doc_put_all])
    apply (rule doc_mbind [OF doc_on_snd [OF computes_getApplyList [OF assms(1)]]])
    apply (simp only: case_prod_unfold)
    apply (rule doc_mseq [OF doc_put_list])
    apply (rule doc_mbind [OF doc_on_snd [OF computes_getFriendList [OF assms(1)]]])
    apply (rule doc_mseq [OF doc_put_list])
    apply (rule doc_on_snd [OF computes_login_finish [OF assms(1) c assms(3)]])
    done
  then show ?thesis by (simp add: login_reply_def case_prod_unfold Let_def split: if_splits)
qed

lemma login_run:
  assumes "services E V D" and "net_order (e_host E)"
    and "j_parse (e_json E) data = (ok, root)"
    and "member_int (e_json E) root ''uid'' = Some uid"
    and "member_text (e_json E) root ''token'' = Some token"
    and "count_is E v n" and "sint n < 2 ^ 31 - 1"
  shows "computes V D (loginHandler E ref data) v ()
    (reply_sent E ref MSG_CHAT_LOGIN_RSP (login_spec E D ref uid token n v))"
proof -
  have i: "computes V D (get_int (e_json E) root ''uid'') v uid v"
    "computes V D (get_str (e_json E) root ''token'') v token v"
    by (simp_all add: get_int_mret [OF assms(4)] get_str_mret [OF assms(5)] computes_mret)
  let ?r = "login_spec E D ref uid token n v"
  let ?get = "on_redis (redis_get (e_redis E) (USERTOKENPREFIX @ to_string uid))"
  have g: "computes V D ?get v (map_option cstr (v_kv v (USERTOKENPREFIX @ to_string uid))) v"
    using computes_redis_get [OF assms(1), of "USERTOKENPREFIX @ to_string uid" v] by simp
  have "computes_doc V D
      (mbind (on_snd ?get) (\<lambda>token_value. case token_value of
          None \<Rightarrow> put_error UID_INVALID
        | Some value \<Rightarrow> if value \<noteq> token then put_error TOKEN_INVALID
            else mseq (put_error SUCCESS) (login_user E ref uid)))
      DNull v () (fst ?r) (snd ?r)"
  proof (rule doc_mbind [OF doc_on_snd [OF g]])
    show "computes_doc V D
      (case map_option cstr (v_kv v (USERTOKENPREFIX @ to_string uid)) of
          None \<Rightarrow> put_error UID_INVALID
        | Some value \<Rightarrow> if value \<noteq> token then put_error TOKEN_INVALID
            else mseq (put_error SUCCESS) (login_user E ref uid))
      DNull v () (fst ?r) (snd ?r)"
    proof (cases "v_kv v (USERTOKENPREFIX @ to_string uid)")
      case None
      then show ?thesis by (simp add: login_spec_def doc_put_error)
    next
      case tv: (Some tv)
      show ?thesis
      proof (cases "cstr tv = token")
        case False
        with tv show ?thesis by (simp add: login_spec_def doc_put_error)
      next
        case True
        show ?thesis
        proof (cases "user_of (e_sql E) D uid (v_db v)")
          case None
          have "computes_doc V D (login_user E ref uid) (jset ''error'' (jerror SUCCESS) DNull) v ()
              (jset ''error'' (jerror UID_INVALID) (jset ''error'' (jerror SUCCESS) DNull)) v"
            unfolding login_user_def
            by (rule doc_mbind [OF doc_on_snd [OF computes_getBaseInfo [OF assms(1)]]],
                simp only: None based_def option.case, rule doc_put_error)
          from doc_mseq [OF doc_put_error this] None True tv show ?thesis
            by (simp add: login_spec_def)
        next
          case (Some u)
          from doc_mseq [OF doc_put_error computes_login_user [OF assms(1,6,7) this, of ref]]
            Some True tv show ?thesis
            by (simp add: login_spec_def)
        qed
      qed
    qed
  qed
  from computes_with_reply [OF assms(2) this, of ref MSG_CHAT_LOGIN_RSP]
  show ?thesis
    unfolding loginHandler_def Let_def assms(3) snd_conv
    by (intro computes_mbind [OF i(1)] computes_mbind [OF i(2)]) (simp add: reply_sent_def)
qed


section \<open>The end of a session\<close>

definition closed :: "('x, 'row, 'j) env \<Rightarrow> nat \<Rightarrow> int32 \<Rightarrow> 'd view \<Rightarrow> 'd view" where
  "closed E ref n v =
    (let s = v_sess v ref
     in if cs_b_close s then v
        else if sint (cs_uid s) > 0
        then (set_count E (if sint n > 0 then n - 1 else n) v)
          \<lparr>v_users := (v_users v)(cs_uid s := None),
           v_sess := (v_sess v)(ref := s\<lparr>cs_uid := 0, cs_open := False, cs_b_close := True\<rparr>)\<rparr>
        else v\<lparr>v_sess := (v_sess v)(ref := s\<lparr>cs_open := False, cs_b_close := True\<rparr>)\<rparr>)"

definition quiet_close :: "('x, 'row, 'j) env \<Rightarrow> 'x redis_view \<Rightarrow> ('x, 'row, 'd) db_view \<Rightarrow> bool" where
  "quiet_close E V D \<longleftrightarrow> (\<forall>x. \<exists>y. e_close E x = (True, y) \<and> kv V y = kv V x \<and> hkv V y = hkv V x \<and>
     db_of D y = db_of D x)"

lemma computes_e_close [steps]:
  assumes "quiet_close E V D"
  shows "computes V D (on_ext (e_close E)) v True v"
proof (rule computesI)
  fix w assume "ready w" "view_of V D w = v"
  moreover from assms obtain y where "e_close E (w_ext w) = (True, y)" "kv V y = kv V (w_ext w)"
    "hkv V y = hkv V (w_ext w)" "db_of D y = db_of D (w_ext w)" unfolding quiet_close_def by blast
  ultimately show "\<exists>w'. on_ext (e_close E) w = Ret True w' \<and> ready w' \<and> view_of V D w' = v"
    by (auto simp: run_simps view_of_def ready_def)
qed

lemma computes_get_uid: "computes V D (mget (\<lambda>w. cs_uid (w_sess w ref))) v (cs_uid (v_sess v ref)) v"
  by (auto intro!: computesI simp: run_simps view_of_def)

lemma computes_logout:
  assumes "services E V D" and "count_is E v n"
  shows "computes V D (cs_logout E ref) v ()
    ((set_count E (if sint n > 0 then n - 1 else n) v)
      \<lparr>v_users := (v_users v)(cs_uid (v_sess v ref) := None),
       v_sess := (v_sess v)(ref := (v_sess v ref)\<lparr>cs_uid := 0\<rparr>)\<rparr>)"
proof -
  let ?v1 = "set_count E (if sint n > 0 then n - 1 else n) v"
  let ?v2 = "?v1\<lparr>v_users := um_RemoveUserSession (cs_uid (v_sess v ref)) (v_users ?v1)\<rparr>"
  have u: "computes V D (mget (\<lambda>w. cs_uid (w_sess w ref))) ?v1 (cs_uid (v_sess v ref)) ?v1"
    using computes_get_uid [of V D ref ?v1] by (simp add: set_count_def)
  have "computes V D (cs_logout E ref) v ()
      (?v2\<lparr>v_sess := (v_sess ?v2)(ref := (v_sess ?v2 ref)\<lparr>cs_uid := 0\<rparr>)\<rparr>)"
    unfolding cs_logout_def
    by (rule computes_mbind [OF computes_read_count [OF assms]]
        computes_mseq [OF computes_write_count [OF assms(1) count_is_hash [OF assms(2)]]] computes_mbind [OF u]
        computes_mseq [OF computes_on_users] computes_on_session mmodify_run)+
  then show ?thesis
    by (simp add: um_RemoveUserSession_def set_count_def)
qed

lemma close_run:
  assumes "services E V D" and "quiet_close E V D" and "count_is E v n"
  shows "computes V D (cs_close E ref) v () (closed E ref n v)"
proof (rule computesI)
  fix w assume w: "ready w" "view_of V D w = v"
  then have s: "w_sess w = v_sess v" by (auto simp: view_of_def)
  show "\<exists>w'. cs_close E ref w = Ret () w' \<and> ready w' \<and> view_of V D w' = closed E ref n v"
  proof (cases "cs_b_close (v_sess v ref)")
    case True
    with s w show ?thesis by (simp add: cs_close_def closed_def)
  next
    case False
    let ?out = "if sint (cs_uid (v_sess v ref)) > 0 then cs_logout E ref else mret ()"
    let ?v1 = "if sint (cs_uid (v_sess v ref)) > 0
      then (set_count E (if sint n > 0 then n - 1 else n) v)
        \<lparr>v_users := (v_users v)(cs_uid (v_sess v ref) := None),
         v_sess := (v_sess v)(ref := (v_sess v ref)\<lparr>cs_uid := 0\<rparr>)\<rparr> else v"
    let ?v2 = "?v1\<lparr>v_sess := (v_sess ?v1)(ref := (v_sess ?v1 ref)\<lparr>cs_open := False\<rparr>)\<rparr>"
    let ?v3 = "?v2\<lparr>v_sess := (v_sess ?v2)(ref := (v_sess ?v2 ref)\<lparr>cs_b_close := True\<rparr>)\<rparr>"
    have o: "computes V D ?out v () ?v1"
      using computes_logout [OF assms(1,3)] by (auto intro: computes_mret)
    have "computes V D (mseq ?out (mbind (on_ext (e_close E)) (\<lambda>ok.
        mseq (on_session ref (mmodify (\<lambda>s. s\<lparr>cs_open := False\<rparr>)))
          (if ok then on_session ref (mmodify (\<lambda>s. s\<lparr>cs_b_close := True\<rparr>))
           else mthrow BoostSystemError)))) v () ?v3"
      by (rule computes_mseq [OF o], rule computes_mbind [OF computes_e_close [OF assms(2)]],
          rule computes_mseq [OF computes_on_session [OF mmodify_run]], simp only: if_True,
          rule computes_on_session [OF mmodify_run])
    moreover have "?v3 = closed E ref n v"
      using False by (simp add: closed_def Let_def)
    ultimately show ?thesis
      using w False s by (simp add: cs_close_def computes_def)
  qed
qed

section \<open>Properties\<close>

lemma sint_of_int32: "- (2 ^ 31) \<le> i \<Longrightarrow> i < 2 ^ 31 \<Longrightarrow> sint (word_of_int i :: int32) = i"
  by (subst signed_of_int) (simp add: signed_take_bit_int_eq_self)

lemma sint_plus_one: "sint n < 2 ^ 31 - 1 \<Longrightarrow> sint (n + 1 :: int32) = sint n + 1"
proof -
  assume a: "sint n < 2 ^ 31 - 1"
  have "- (2 ^ 31) \<le> sint n" using sint_in_range [of n] by (simp add: int_in_range_def)
  moreover have "n + 1 = word_of_int (sint n + 1)" by simp
  ultimately show ?thesis using a sint_of_int32 [of "sint n + 1"] by simp
qed

text \<open>A login message: the text parses to an object with a number and a text.\<close>

definition login_msg :: "'j json_api \<Rightarrow> string \<Rightarrow> int32 \<Rightarrow> string \<Rightarrow> bool" where
  "login_msg J data uid token \<longleftrightarrow>
    member_int J (snd (j_parse J data)) ''uid'' = Some uid \<and>
    member_text J (snd (j_parse J data)) ''token'' = Some token"

lemma login_run_msg:
  assumes "services E V D" and "net_order (e_host E)" and "login_msg (e_json E) data uid token"
    and "count_is E v n" and "sint n < 2 ^ 31 - 1"
  shows "computes V D (loginHandler E ref data) v ()
    (reply_sent E ref MSG_CHAT_LOGIN_RSP (login_spec E D ref uid token n v))"
  using login_run [OF assms(1,2) prod.collapse [symmetric] _ _ assms(4,5)] assms(3)
  by (simp add: login_msg_def)

lemma sent_fields [simp]:
  assumes "net_order (e_host E)"
  shows "cs_uid (sent E msg d s) = cs_uid s" "cs_b_close (sent E msg d s) = cs_b_close s"
    "cs_open (sent E msg d s) = cs_open s" "cs_id (sent E msg d s) = cs_id s"
proof -
  have "cs_uid (sent E msg d s) = cs_uid s \<and> cs_b_close (sent E msg d s) = cs_b_close s \<and>
    cs_open (sent E msg d s) = cs_open s \<and> cs_id (sent E msg d s) = cs_id s"
  proof (cases "cs_accepts (j_styled (e_json E) d) s")
    case True
    from cs_send_accepts [OF assms True, of "msg_id msg"] show ?thesis
      by (auto simp: sent_def split: if_splits)
  next
    case False
    then show ?thesis by (simp add: sent_def cs_send_rejects)
  qed
  then show "cs_uid (sent E msg d s) = cs_uid s" "cs_b_close (sent E msg d s) = cs_b_close s"
    "cs_open (sent E msg d s) = cs_open s" "cs_id (sent E msg d s) = cs_id s" by simp_all
qed

lemma sent_too_long:
  "2048 < length (j_styled (e_json E) d) \<Longrightarrow> sent E msg d s = s"
  by (simp add: sent_def cs_send_rejects cs_accepts_def limit_defs)

text \<open>
  C1. Login refines its specification: from every state with connections at hand the handler
  returns, exactly one reply document is handed to the session, and the reply and the new state
  are those of \<open>login_spec\<close>: an unknown token key or user answers \<open>UID_INVALID\<close>, another token
  \<open>TOKEN_INVALID\<close>, and nothing else changes; the right token answers the user's record, the
  applications and the friends, caches the record, counts the login, and binds session, user and
  server to each other.
\<close>

theorem loginHandler_refines:
  assumes "services E V D" and "net_order (e_host E)" and "login_msg (e_json E) data uid token"
    and "count_is E v n" and "sint n < 2 ^ 31 - 1"
  shows "computes V D (loginHandler E ref data) v ()
    (reply_sent E ref MSG_CHAT_LOGIN_RSP (login_spec E D ref uid token n v))"
  using assms by (rule login_run_msg)

lemma based_token [simp]:
  "v_kv (based E D uid v) (USERTOKENPREFIX @ s) = v_kv v (USERTOKENPREFIX @ s)"
proof -
  have "USERTOKENPREFIX @ s \<noteq> USER_BASE_INFO @ t" "USERTOKENPREFIX @ s \<noteq> USER_NAME_INFO @ t" for t
    by (simp_all add: prefix_defs)
  then show ?thesis by (simp add: based_def cached_def Let_def split: option.splits)
qed

lemma login_success:
  assumes "v_kv v (USERTOKENPREFIX @ to_string uid) = Some tv" and "cstr tv = token"
    and "user_of (e_sql E) D uid (v_db v) = Some u"
  shows "login_spec E D ref uid token n v =
    (login_reply E D uid u (v_db v), logged_in E ref uid n (based E D uid v))"
  using assms by (simp add: login_spec_def)

text \<open>
  After a login the server knows the user: the registry maps the user to the session, the
  session carries the user, Redis says on which server the user is, and the counter is one higher.
\<close>

theorem login_effects:
  assumes "services E V D" and "net_order (e_host E)" and "login_msg (e_json E) data uid token"
    and "count_is E v n" and "sint n < 2 ^ 31 - 1" and "cstr (self_name E) = self_name E"
    and "v_kv v (USERTOKENPREFIX @ to_string uid) = Some tv" and "cstr tv = token"
    and "user_of (e_sql E) D uid (v_db v) = Some u"
  shows "\<exists>v'. computes V D (loginHandler E ref data) v () v' \<and>
    v_users v' = (v_users v)(uid \<mapsto> ref) \<and> cs_uid (v_sess v' ref) = uid \<and>
    v_kv v' (USERIPPREFIX @ to_string uid) = Some (self_name E) \<and> count_is E v' (n + 1) \<and>
    (\<forall>r. r \<noteq> ref \<longrightarrow> v_sess v' r = v_sess v r)"
proof -
  let ?v = "reply_sent E ref MSG_CHAT_LOGIN_RSP (login_spec E D ref uid token n v)"
  have "?v = reply_sent E ref MSG_CHAT_LOGIN_RSP
      (login_reply E D uid u (v_db v), logged_in E ref uid n (based E D uid v))"
    by (simp add: login_success [where token = token, OF assms(7-9)])
  then have "v_users ?v = (v_users v)(uid \<mapsto> ref) \<and> cs_uid (v_sess ?v ref) = uid \<and>
    v_kv ?v (USERIPPREFIX @ to_string uid) = Some (self_name E) \<and> count_is E ?v (n + 1) \<and>
    (\<forall>r. r \<noteq> ref \<longrightarrow> v_sess ?v r = v_sess v r)"
    using assms(2,6) count_is_hash [OF assms(4)]
    by (simp add: reply_sent_def logged_in_def Let_def set_count_def count_is_def cs_setUserId_def)
  with login_run_msg [OF assms(1-5), of ref] show ?thesis by blast
qed

text \<open>
  C27. A login whose reply is longer than a packet may be goes through, and the client never hears
  of it: the session's queue is what it was.
\<close>

theorem login_reply_lost:
  assumes "services E V D" and "net_order (e_host E)" and "login_msg (e_json E) data uid token"
    and "count_is E v n" and "sint n < 2 ^ 31 - 1"
    and "v_kv v (USERTOKENPREFIX @ to_string uid) = Some tv" and "cstr tv = token"
    and "user_of (e_sql E) D uid (v_db v) = Some u"
    and "2048 < length (j_styled (e_json E) (login_reply E D uid u (v_db v)))"
  shows "computes V D (loginHandler E ref data) v () (logged_in E ref uid n (based E D uid v)) \<and>
    v_sess (logged_in E ref uid n (based E D uid v)) ref = (v_sess v ref)\<lparr>cs_uid := uid\<rparr>"
  using login_run_msg [OF assms(1-5), of ref]
  by (simp add: login_success [where token = token, OF assms(6-8)] reply_sent_def
      sent_too_long [OF assms(9)])
    (simp add: logged_in_def Let_def cs_setUserId_def)

text \<open>
  Closing a session undoes its login: after a login and a close the counter is what it was,
  the user is not registered, the session carries no user and its socket is closed. What stays is
  the entry that says the user is on this server.
\<close>

theorem login_then_close:
  assumes "services E V D" and "net_order (e_host E)" and "login_msg (e_json E) data uid token"
    and "count_is E v n" and "sint n < 2 ^ 31 - 1" and "cstr (self_name E) = self_name E"
    and "v_kv v (USERTOKENPREFIX @ to_string uid) = Some tv" and "cstr tv = token"
    and "user_of (e_sql E) D uid (v_db v) = Some u"
    and "quiet_close E V D" and "0 < sint uid" and "0 \<le> sint n" and "\<not> cs_b_close (v_sess v ref)"
  shows "\<exists>v'. computes V D (mseq (loginHandler E ref data) (cs_close E ref)) v () v' \<and>
    count_is E v' n \<and> v_users v' = (v_users v)(uid := None) \<and> cs_uid (v_sess v' ref) = 0 \<and>
    \<not> cs_open (v_sess v' ref) \<and> cs_b_close (v_sess v' ref) \<and>
    v_kv v' (USERIPPREFIX @ to_string uid) = Some (self_name E)"
proof -
  let ?v1 = "reply_sent E ref MSG_CHAT_LOGIN_RSP
      (login_reply E D uid u (v_db v), logged_in E ref uid n (based E D uid v))"
  have l: "computes V D (loginHandler E ref data) v () ?v1"
    using login_run_msg [OF assms(1-5), of ref]
    by (simp add: login_success [where token = token, OF assms(7-9)])
  have c1: "count_is E ?v1 (n + 1)"
    using assms(6) count_is_hash [OF assms(4)]
    by (simp add: reply_sent_def logged_in_def Let_def set_count_def count_is_def)
  have p: "sint (n + 1) = sint n + 1"
    using assms(5,12) by (simp add: sint_plus_one)
  let ?v2 = "closed E ref (n + 1) ?v1"
  have "computes V D (mseq (loginHandler E ref data) (cs_close E ref)) v () ?v2"
    by (rule computes_mseq [OF l close_run [OF assms(1,10) c1]])
  moreover have "count_is E ?v2 n \<and> v_users ?v2 = (v_users v)(uid := None) \<and>
    cs_uid (v_sess ?v2 ref) = 0 \<and> \<not> cs_open (v_sess ?v2 ref) \<and> cs_b_close (v_sess ?v2 ref) \<and>
    v_kv ?v2 (USERIPPREFIX @ to_string uid) = Some (self_name E)"
    using assms(2,6,11-13) p count_is_hash [OF assms(4)]
    by (simp add: closed_def Let_def reply_sent_def logged_in_def set_count_def count_is_def
        cs_setUserId_def)
  ultimately show ?thesis by blast
qed

text \<open>
  C23. Closing an older session of a user takes the newer one out of the registry: whatever
  session the user is registered with, afterwards there is none, while the newer session is still
  open and still carries the user. Messages for the user on this server no longer find a session.
\<close>

theorem close_forgets_newer_session:
  assumes "services E V D" and "quiet_close E V D" and "count_is E v n"
    and "\<not> cs_b_close (v_sess v old)" and "cs_uid (v_sess v old) = uid" and "0 < sint uid"
    and "v_users v uid = Some new" and "new \<noteq> old"
  shows "\<exists>v'. computes V D (cs_close E old) v () v' \<and> v_users v' uid = None \<and>
    v_sess v' new = v_sess v new"
  using close_run [OF assms(1-3), of old] assms(4-8)
  by (intro exI [of _ "closed E old n v"]) (simp add: closed_def Let_def)

text \<open>
  C24. Logging in a second time on the same session counts the user twice, and closing the session
  takes only one of the two back: the counter of this server drifts upwards.
\<close>

theorem second_login_drifts:
  assumes "services E V D" and "net_order (e_host E)" and "login_msg (e_json E) data uid token"
    and "count_is E v n" and "sint n < 2 ^ 31 - 2" and "cstr (self_name E) = self_name E"
    and "v_kv v (USERTOKENPREFIX @ to_string uid) = Some tv" and "cstr tv = token"
    and "user_of (e_sql E) D uid (v_db v) = Some u"
    and "quiet_close E V D" and "0 < sint uid" and "0 \<le> sint n" and "\<not> cs_b_close (v_sess v ref)"
  shows "\<exists>v'. computes V D (mseq (loginHandler E ref data) (mseq (loginHandler E ref data) (cs_close E ref))) v () v' \<and>
    count_is E v' (n + 1) \<and> v_users v' uid = None"
proof -
  let ?r = "\<lambda>m w. reply_sent E ref MSG_CHAT_LOGIN_RSP
      (login_reply E D uid u (v_db w), logged_in E ref uid m (based E D uid w))"
  let ?v1 = "?r n v" let ?v2 = "?r (n + 1) ?v1" let ?v3 = "closed E ref (n + 1 + 1) ?v2"
  have b: "sint n < 2 ^ 31 - 1" using assms(5) by simp
  have p: "sint (n + 1) = sint n + 1" "sint (n + 1 + 1) = sint n + 2"
    using assms(5) sint_plus_one [of n] sint_plus_one [of "n + 1"] by simp_all
  have l1: "computes V D (loginHandler E ref data) v () ?v1"
    using login_run_msg [OF assms(1-4) b, of ref]
    by (simp add: login_success [where token = token, OF assms(7-9)])
  have c1: "count_is E ?v1 (n + 1)"
    using assms(6) count_is_hash [OF assms(4)]
    by (simp add: reply_sent_def logged_in_def Let_def set_count_def count_is_def)
  have ne: "USERTOKENPREFIX @ to_string uid \<noteq> USERIPPREFIX @ to_string uid" by (simp add: prefix_defs)
  have d1: "v_db ?v1 = v_db v" "v_kv ?v1 (USERTOKENPREFIX @ to_string uid) = Some tv"
    using assms(7) ne by (simp_all add: reply_sent_def logged_in_def Let_def set_count_def)
  have l2: "computes V D (loginHandler E ref data) ?v1 () ?v2"
    using login_run_msg [OF assms(1-3) c1, of ref] p(1) assms(5)
    by (simp add: login_success [where token = token, OF d1(2) assms(8)] d1(1) assms(9))
  have c2: "count_is E ?v2 (n + 1 + 1)"
    using assms(6) count_is_hash [OF assms(4)]
    by (simp add: reply_sent_def logged_in_def Let_def set_count_def count_is_def)
  have l3: "computes V D (cs_close E ref) ?v2 () ?v3"
    by (rule close_run [OF assms(1,10) c2])
  have "computes V D (mseq (loginHandler E ref data) (mseq (loginHandler E ref data) (cs_close E ref))) v () ?v3"
    by (rule computes_mseq [OF l1 computes_mseq [OF l2 l3]])
  moreover have "count_is E ?v3 (n + 1) \<and> v_users ?v3 uid = None"
    using assms(2,6,11-13) p count_is_hash [OF assms(4)]
    by (simp add: closed_def Let_def reply_sent_def logged_in_def set_count_def count_is_def
        cs_setUserId_def add.commute)
  ultimately show ?thesis by blast
qed

section \<open>The counter over a whole run\<close>

text \<open>
  The steps that touch the counter: a login message on a session that carries no user yet, for a
  user id above zero, and the close of a session. A refused login is a step too. A step is a whole
  login or a whole close: runs in which the two overlap are not among them. The code takes no lock from the reading
  of the counter to its writing; \<open>login_across_close\<close> is the end of a login whose thread is
  overtaken, between the two, by the thread that closes another session.
\<close>

definition login_across_close ::
  "('x, 'row, 'j) env \<Rightarrow> nat \<Rightarrow> int32 \<Rightarrow> nat \<Rightarrow> (unit, 'x world) m" where
  "login_across_close E ref uid old =
    mbind (read_count E) (\<lambda>count. mseq (cs_close E old) (login_store E ref uid count))"

definition online :: "csession \<Rightarrow> bool" where
  "online s \<longleftrightarrow> 0 < sint (cs_uid s)"

inductive login_step :: "('x, 'row, 'j) env \<Rightarrow> 'x world \<Rightarrow> 'x world \<Rightarrow> bool" for E where
  login: "login_msg (e_json E) data uid token \<Longrightarrow> cs_uid (w_sess w ref) = 0 \<Longrightarrow> 0 < sint uid \<Longrightarrow>
    card {r. online (w_sess w r)} < 2 ^ 31 - 1 \<Longrightarrow>
    loginHandler E ref data w = Ret () w' \<Longrightarrow> login_step E w w'"
| close: "cs_close E ref w = Ret () w' \<Longrightarrow> login_step E w w'"

inductive login_run_of :: "('x, 'row, 'j) env \<Rightarrow> 'x world \<Rightarrow> 'x world \<Rightarrow> bool" for E where
  stay: "login_run_of E w w"
| more: "login_run_of E w v \<Longrightarrow> login_step E v u \<Longrightarrow> login_run_of E w u"

definition counted :: "('x, 'row, 'j) env \<Rightarrow> 'd view \<Rightarrow> bool" where
  "counted E v \<longleftrightarrow> finite {r. online (v_sess v r)} \<and>
    card {r. online (v_sess v r)} < 2 ^ 31 \<and>
    count_is E v (word_of_nat (card {r. online (v_sess v r)}))"

lemma login_spec_state:
  "snd (login_spec E D ref uid token n v) = v \<or>
    snd (login_spec E D ref uid token n v) = logged_in E ref uid n (based E D uid v)"
  by (simp add: login_spec_def split: option.splits)

lemma counted_reply_sent:
  assumes "net_order (e_host E)"
  shows "counted E (reply_sent E ref msg r) = counted E (snd r)"
proof -
  have "{r'. online (v_sess (reply_sent E ref msg r) r')} = {r'. online (v_sess (snd r) r')}"
    using assms by (auto simp: reply_sent_def online_def)
  then show ?thesis by (simp add: counted_def reply_sent_def count_is_def)
qed

lemma sint_word_of_card: "c < 2 ^ 31 \<Longrightarrow> sint (word_of_nat c :: int32) = int c"
  using sint_of_int32 [of "int c"] by simp

lemma counted_login:
  assumes "cstr (self_name E) = self_name E" and "counted E v"
    and "\<not> online (v_sess v ref)" and "0 < sint uid" and "card {r. online (v_sess v r)} < 2 ^ 31 - 1"
    and "n = word_of_nat (card {r. online (v_sess v r)})"
  shows "counted E (logged_in E ref uid n (based E D uid v))"
proof -
  let ?S = "{r. online (v_sess v r)}" and ?v = "logged_in E ref uid n (based E D uid v)"
  have S: "finite ?S" "ref \<notin> ?S" using assms(2,3) by (auto simp: counted_def)
  have "{r. online (v_sess ?v r)} = insert ref ?S"
    using assms(4) by (auto simp: logged_in_def Let_def online_def cs_setUserId_def)
  moreover have "card (insert ref ?S) = Suc (card ?S)" using S by simp
  moreover have "count_is E ?v (n + 1)"
    using assms(1,2) by (simp add: logged_in_def Let_def set_count_def count_is_def counted_def)
  ultimately show ?thesis
    using S(1) assms(5,6) by (simp add: counted_def add.commute)
qed

lemma counted_close:
  assumes "cstr (self_name E) = self_name E" and "counted E v"
    and "n = word_of_nat (card {r. online (v_sess v r)})"
  shows "counted E (closed E ref n v)"
proof -
  let ?S = "{r. online (v_sess v r)}" and ?v = "closed E ref n v"
  have S: "finite ?S" "card ?S < 2 ^ 31" "count_is E v n" using assms(2,3) by (auto simp: counted_def)
  show ?thesis
  proof (cases "\<not> cs_b_close (v_sess v ref) \<and> online (v_sess v ref)")
    case True
    then have m: "{r. online (v_sess ?v r)} = ?S - {ref}" "ref \<in> ?S"
      by (auto simp: closed_def Let_def online_def)
    have c: "card ?S = Suc (card (?S - {ref}))"
      using card_Suc_Diff1 [OF S(1) m(2)] by simp
    have "0 < card ?S" using c by simp
    with sint_word_of_card [OF S(2)] assms(3) have "0 < sint n" by simp
    moreover have "n - 1 = word_of_nat (card (?S - {ref}))" using c assms(3) by simp
    ultimately have "count_is E ?v (word_of_nat (card (?S - {ref})))"
      using True assms(1) count_is_hash [OF S(3)]
      by (simp add: closed_def Let_def online_def set_count_def count_is_def)
    moreover have "finite (?S - {ref})" "card (?S - {ref}) < 2 ^ 31" using S(1,2) c by simp_all
    ultimately show ?thesis unfolding counted_def m(1) by blast
  next
    case False
    then have "{r. online (v_sess ?v r)} = ?S" "v_hkv ?v = v_hkv v" "v_kv ?v = v_kv v"
      by (auto simp: closed_def Let_def online_def)
    with assms(2) show ?thesis by (simp add: counted_def count_is_def)
  qed
qed

lemma counted_step:
  assumes "services E V D" and "net_order (e_host E)" and "quiet_close E V D"
    and "cstr (self_name E) = self_name E" and "login_step E w w'" and "ready w"
    and "counted E (view_of V D w)"
  shows "ready w' \<and> counted E (view_of V D w')"
proof -
  let ?v = "view_of V D w" and ?n = "word_of_nat (card {r. online (w_sess w r)}) :: int32"
  have s: "v_sess ?v = w_sess w" by (simp add: view_of_def)
  have c: "count_is E ?v ?n" using assms(7) by (simp add: counted_def s)
  from assms(5) show ?thesis
  proof (cases rule: login_step.cases)
    case (login data uid token ref)
    have "sint ?n < 2 ^ 31 - 1" using login(4) by (simp add: sint_word_of_card)
    from computesD [OF login_run_msg [OF assms(1,2) login(1) c this, of ref] assms(6) refl] login(5) have
      w': "ready w'" "view_of V D w' = reply_sent E ref MSG_CHAT_LOGIN_RSP (login_spec E D ref uid token ?n ?v)"
      by auto
    have "counted E (snd (login_spec E D ref uid token ?n ?v))"
      using login_spec_state [of E D ref uid token ?n ?v] assms(7)
        counted_login [OF assms(4,7), of ref uid ?n] login(2-4)
      by (auto simp: s online_def)
    with w' show ?thesis by (simp add: counted_reply_sent [OF assms(2)])
  next
    case (close ref)
    from computesD [OF close_run [OF assms(1,3) c, of ref] assms(6) refl] close have
      "ready w'" "view_of V D w' = closed E ref ?n ?v" by auto
    with counted_close [OF assms(4,7), of ?n ref] s show ?thesis by simp
  qed
qed

lemma closed_count_hash [simp]: "v_kv (closed E ref n v) = v_kv v"
  by (simp add: closed_def Let_def set_count_def)

lemma across_close_counts_wrong:
  assumes "services E V D" and "quiet_close E V D" and "cstr (self_name E) = self_name E"
    and "ready w" and "counted E (view_of V D w)" and "card {r. online (w_sess w r)} < 2 ^ 31 - 1"
    and "cs_uid (w_sess w ref) = 0" and "0 < sint uid"
    and "online (w_sess w old)" and "\<not> cs_b_close (w_sess w old)"
  shows "\<exists>u. login_across_close E ref uid old w = Ret () u \<and>
    card {r. online (w_sess u r)} = card {r. online (w_sess w r)} \<and>
    count_is E (view_of V D u) (word_of_nat (card {r. online (w_sess w r)}) + 1)"
proof -
  let ?v = "view_of V D w" and ?S = "{r. online (w_sess w r)}"
  let ?n = "word_of_nat (card ?S) :: int32"
  let ?c = "closed E old ?n ?v"
  let ?u = "logged_in E ref uid ?n ?c"
  have s: "v_sess ?v = w_sess w" by (simp add: view_of_def)
  have c: "finite ?S" "count_is E ?v ?n" using assms(5) by (simp_all add: counted_def s)
  have h: "v_kv ?c LOGIN_COUNT = None" using count_is_hash [OF c(2)] by simp
  have b: "sint ?n < 2 ^ 31 - 1" using assms(6) by (simp add: sint_word_of_card)
  have "computes V D (login_across_close E ref uid old) ?v () ?u"
    unfolding login_across_close_def
    by (rule computes_mbind [OF computes_read_count [OF assms(1) c(2)]],
        rule computes_mseq [OF close_run [OF assms(1,2) c(2)] computes_login_store [OF assms(1) h b]])
  from computesD [OF this assms(4) refl] obtain u where
    u: "login_across_close E ref uid old w = Ret () u" "view_of V D u = ?u" by blast
  have "w_sess u = v_sess ?u" using arg_cong [OF u(2), of v_sess] by (simp add: view_of_def)
  moreover have "old \<noteq> ref" using assms(7,9) by (auto simp: online_def)
  ultimately have "{r. online (w_sess u r)} = insert ref (?S - {old})"
    using assms(7-10)
    by (auto simp: s logged_in_def Let_def closed_def online_def cs_setUserId_def split: if_splits)
  moreover have "old \<in> ?S" "ref \<notin> ?S" using assms(7,9) by (auto simp: online_def)
  ultimately have "card {r. online (w_sess u r)} = card ?S"
    using c(1) card_Suc_Diff1 [of ?S old] by simp
  moreover have "count_is E ?u (?n + 1)"
    using h assms(3) by (simp add: logged_in_def Let_def set_count_def count_is_def)
  ultimately show ?thesis using u by auto
qed

text \<open>
  C2. Logins and closes that do not overlap keep the counter exact: as long as each login is for a user id
  above zero on a session that carries no user, the counter in Redis is the number of sessions that
  carry a user, through every sequence of whole logins, refused logins and whole closes, starting with
  nobody online and the counter that \<open>main\<close> resets. It is exact only because they do not overlap: from
  every state of such a run with a user online, a login that is overtaken by that user's close between
  reading and writing the counter leaves the counter one above the number of sessions with a user.
\<close>

theorem login_counter_exact:
  assumes "services E V D" and "net_order (e_host E)" and "quiet_close E V D"
    and "cstr (self_name E) = self_name E" and "login_run_of E w w'" and "ready w"
    and "counted E (view_of V D w)"
  shows "count_is E (view_of V D w') (word_of_nat (card {r. online (w_sess w' r)})) \<and>
    (\<forall>ref uid old. card {r. online (w_sess w' r)} < 2 ^ 31 - 1 \<and> cs_uid (w_sess w' ref) = 0 \<and> 0 < sint uid \<and>
       online (w_sess w' old) \<and> \<not> cs_b_close (w_sess w' old) \<longrightarrow>
     (\<exists>u. login_across_close E ref uid old w' = Ret () u \<and>
       count_is E (view_of V D u) (word_of_nat (card {r. online (w_sess u r)}) + 1)))"
proof -
  from assms(5-7) have w': "ready w' \<and> counted E (view_of V D w')"
  proof (induction rule: login_run_of.induct)
    case (more w v u)
    then show ?case using counted_step [OF assms(1-4), of v u] by blast
  qed simp
  have "v_sess (view_of V D w') = w_sess w'" by (simp add: view_of_def)
  with w' have "count_is E (view_of V D w') (word_of_nat (card {r. online (w_sess w' r)}))"
    by (simp add: counted_def)
  moreover have "\<exists>u. login_across_close E ref uid old w' = Ret () u \<and>
       count_is E (view_of V D u) (word_of_nat (card {r. online (w_sess u r)}) + 1)"
    if "card {r. online (w_sess w' r)} < 2 ^ 31 - 1" "cs_uid (w_sess w' ref) = 0" "0 < sint uid"
      "online (w_sess w' old)" "\<not> cs_b_close (w_sess w' old)" for ref uid old
  proof -
    from across_close_counts_wrong [OF assms(1,3,4) _ _ that] w' obtain u where
      "login_across_close E ref uid old w' = Ret () u"
      "card {r. online (w_sess u r)} = card {r. online (w_sess w' r)}"
      "count_is E (view_of V D u) (word_of_nat (card {r. online (w_sess w' r)}) + 1)" by blast
    then show ?thesis by (intro exI [of _ u]) simp
  qed
  ultimately show ?thesis by blast
qed

end
