(* ===== verification/ChatSpec.thy ===== *)
theory ChatSpec
  imports LoginSpec
begin

text \<open>
  The cache of user records, the search handler and the chat handler as functions of the view, with
  the call by which another server hands a chat message over. Delivery to a user is described up to
  the session the message is handed to, or to the call that is made.
\<close>

section \<open>The cache\<close>

lemma jset_all_get: "jget k (jset_all kvs d) = (case map_of (rev kvs) k of None \<Rightarrow> jget k d | Some v \<Rightarrow> Some v)"
proof (induction kvs arbitrary: d)
  case (Cons kv kvs)
  obtain k' v' where "kv = (k', v')" by (cases kv)
  with Cons [of "jset k' v' d"] show ?case by (auto simp: map_add_def split: option.splits)
qed simp

definition bare_user :: "UserInfo \<Rightarrow> UserInfo" where
  "bare_user u = u\<lparr>ui_back := [], ui_alias_name := []\<rparr>"

lemma read_cached_back:
  assumes "reads_back J txt (user_doc u)"
  shows "read_cached J txt = mret (bare_user u)"
proof (rule ext)
  fix s
  have g: "jget ''uid'' (user_doc u) = Some (DInt (ui_uid u))" "jget ''name'' (user_doc u) = Some (DStr (ui_name u))"
    "jget ''pwd'' (user_doc u) = Some (DStr (ui_pwd u))" "jget ''email'' (user_doc u) = Some (DStr (ui_email u))"
    "jget ''nick'' (user_doc u) = Some (DStr (ui_nick u))" "jget ''desc'' (user_doc u) = Some (DStr (ui_desc u))"
    "jget ''sex'' (user_doc u) = Some (DInt (ui_sex u))" "jget ''icon'' (user_doc u) = Some (DStr (ui_icon u))"
    by (simp_all add: user_doc_def user_fields_def jset_all_get)
  show "read_cached J txt s = mret (bare_user u) s"
    by (simp add: read_cached_def Let_def run_simps reads_back_int [OF assms g(1)] reads_back_int [OF assms g(7)]
        reads_back_str [OF assms g(2)] reads_back_str [OF assms g(3)] reads_back_str [OF assms g(4)]
        reads_back_str [OF assms g(5)] reads_back_str [OF assms g(6)] reads_back_str [OF assms g(8)]
        new_UserInfo_def bare_user_def)
qed

lemma user_of_bare: "user_of S D uid d = Some u \<Longrightarrow> bare_user u = u"
  by (auto simp: user_of_def result_user_def row_user_def bare_user_def
      split: option.splits list.splits bind_splits)

lemma svc_getBaseInfo_cached:
  assumes "services E V D" and "v_kv v (USER_BASE_INFO @ to_string uid) = Some txt" and "cstr txt = txt"
    and "reads_back (e_json E) txt (user_doc u)" and "bare_user u = u"
  shows "computes V D (svc_getBaseInfo E (USER_BASE_INFO @ to_string uid) uid) v (Some u) v"
proof -
  have g: "computes V D (on_redis (redis_get (e_redis E) (USER_BASE_INFO @ to_string uid))) v (Some txt) v"
    using computes_redis_get [OF assms(1), of "USER_BASE_INFO @ to_string uid" v] assms(2,3) by simp
  show ?thesis
    unfolding svc_getBaseInfo_def
    by (rule computes_mbind [OF g])
      (simp add: read_cached_back [OF assms(4)] assms(5) computes_mbind [OF computes_mret computes_mret])
qed

text \<open>
  The cache is transparent: after one server has looked a user up in the database and cached
  the record, the lookup another server serves first from the cache gives exactly that record,
  and changes nothing.
\<close>

theorem base_info_cached:
  assumes "services E V D" and "user_of (e_sql E) D uid (v_db v) = Some u"
    and "txt = j_fast (e_json E) (user_doc u)" and "cstr txt = txt"
    and "reads_back (e_json E) txt (user_doc u)"
  shows "computes V D
    (mbind (ls_getBaseInfo E (USER_BASE_INFO @ to_string uid) uid) (\<lambda>a.
      mbind (svc_getBaseInfo E (USER_BASE_INFO @ to_string uid) uid) (\<lambda>b. mret (a, b))))
    v (Some u, Some u) (based E D uid v)"
proof -
  let ?v = "based E D uid v" and ?k = "USER_BASE_INFO @ to_string uid"
  have ne: "?k \<noteq> USER_NAME_INFO @ t" for t by (simp add: prefix_defs)
  have kv: "v_kv ?v ?k = Some txt"
    using assms(2-4) ne by (simp add: based_def cached_def Let_def)
  have s: "computes V D (svc_getBaseInfo E ?k uid) ?v (Some u) ?v"
    by (rule svc_getBaseInfo_cached [OF assms(1) kv assms(4,5) user_of_bare [OF assms(2)]])
  have b: "computes V D (ls_getBaseInfo E ?k uid) v (Some u) ?v"
    using computes_getBaseInfo [OF assms(1), of uid v] assms(2) by simp
  show ?thesis by (rule computes_mbind [OF b computes_mbind [OF s computes_mret]])
qed

section \<open>Search\<close>

definition search_msg :: "'j json_api \<Rightarrow> string \<Rightarrow> int32 \<Rightarrow> bool" where
  "search_msg J data uid \<longleftrightarrow> fst (j_parse J data) \<and>
    j_is_member J (snd (j_parse J data)) ''uid'' = Some True \<and>
    (case j_member J (snd (j_parse J data)) ''uid'' of
       None \<Rightarrow> False
     | Some w \<Rightarrow> j_is_int J w \<and> j_as_string J w = Some (to_string uid))"

lemma mlift_mbind: "mbind (mlift e (Some a)) f = f a"
  by (rule ext) (simp add: run_simps)

lemma search_handler_uid:
  assumes "search_msg (e_json E) data uid"
  shows "searchUserHandler E ref data =
    with_reply E ref MSG_SEARCH_USER_RSP DNull (getUserByUid E (to_string uid))"
proof -
  obtain ok root where p: "j_parse (e_json E) data = (ok, root)" by fastforce
  with assms obtain w where w: "ok" "j_is_member (e_json E) root ''uid'' = Some True"
    "j_member (e_json E) root ''uid'' = Some w" "j_is_int (e_json E) w"
    "j_as_string (e_json E) w = Some (to_string uid)"
    by (auto simp: search_msg_def split: option.splits)
  show ?thesis
    using p w by (simp add: searchUserHandler_def get_member_def get_str_def mlift_mbind)
qed

lemma computes_found_hit:
  assumes "services E V D" and "v_kv v (cstr key) = Some txt"
    and "reads_back (e_json E) (cstr txt) (user_doc u)"
  shows "computes_doc V D (found_or_load E key load base_key) d v ()
    (jset_all (user_fields (bare_user u)) (jset ''error'' (jerror SUCCESS) d)) v"
proof -
  have g: "computes V D (on_redis (redis_get (e_redis E) key)) v (Some (cstr txt)) v"
    using computes_redis_get [OF assms(1), of key v] assms(2) by simp
  show ?thesis
    unfolding found_or_load_def
    by (rule doc_mseq [OF doc_put_error], rule doc_mbind [OF doc_on_snd [OF g]],
        simp only: option.case read_cached_back [OF assms(3)], rule doc_mbind [OF doc_mret],
        rule doc_put_all)
qed

lemma computes_found_miss:
  assumes "services E V D" and "v_kv v (cstr key) = None" and "computes V D load v (Some u) v"
  shows "computes_doc V D (found_or_load E key load base_key) d v ()
    (jset ''error'' (jerror SUCCESS) d)
    (cached (base_key u) u (j_styled (e_json E) (user_doc u)) v)"
proof -
  have g: "computes V D (on_redis (redis_get (e_redis E) key)) v None v"
    using computes_redis_get [OF assms(1), of key v] assms(2) by simp
  show ?thesis
    unfolding found_or_load_def
    by (rule doc_mseq [OF doc_put_error], rule doc_mbind [OF doc_on_snd [OF g]],
        simp only: option.case, rule doc_mbind [OF doc_on_snd [OF assms(3)]],
        simp only: option.case, rule doc_on_snd [OF computes_cache_user [OF assms(1)]])
qed

lemma computes_load_uid:
  assumes "services E V D"
  shows "computes V D (mbind (stoi (to_string uid)) (\<lambda>uid. on_mysql (mgr_getUserInfo (e_sql E) uid))) v
    (user_of (e_sql E) D uid (v_db v)) v"
  by (simp only: stoi_mret, rule computes_mbind [OF computes_mret],
      rule computes_getUserInfo' [OF assms])

text \<open>
  C22. Searching a user by id that is in the database and not yet in the cache: the first search
  answers \<open>SUCCESS\<close> and nothing else, and stores the record in the cache; the same search again
  answers the whole record. (The answer of a hit and of a miss differ for the same database.)
\<close>

theorem search_miss_then_hit:
  assumes "services E V D" and "net_order (e_host E)" and "search_msg (e_json E) data uid"
    and "user_of (e_sql E) D uid (v_db v) = Some u"
    and "v_kv v (USER_BASE_INFO @ to_string uid) = None"
    and "txt = j_styled (e_json E) (user_doc u)" and "cstr txt = txt"
    and "reads_back (e_json E) txt (user_doc u)"
  shows "\<exists>v1. computes V D (searchUserHandler E ref data) v () v1 \<and>
    v_sess v1 ref = sent E MSG_SEARCH_USER_RSP (jset ''error'' (jerror SUCCESS) DNull) (v_sess v ref) \<and>
    v_kv v1 (USER_BASE_INFO @ to_string uid) = Some txt \<and>
    computes V D (searchUserHandler E ref data) v1 () (v1\<lparr>v_sess := (v_sess v1)(ref :=
      sent E MSG_SEARCH_USER_RSP (jset_all ((''error'', jerror SUCCESS) # user_fields u) DNull) (v_sess v1 ref))\<rparr>)"
proof -
  let ?k = "USER_BASE_INFO @ to_string uid"
  let ?v0 = "cached ?k u txt v"
  let ?v1 = "?v0\<lparr>v_sess := (v_sess ?v0)(ref := sent E MSG_SEARCH_USER_RSP
      (jset ''error'' (jerror SUCCESS) DNull) (v_sess ?v0 ref))\<rparr>"
  have ne: "?k \<noteq> USER_NAME_INFO @ t" for t by (simp add: prefix_defs)
  have kv: "v_kv ?v1 ?k = Some txt" using assms(7) ne by (simp add: cached_def Let_def)
  have load: "computes V D (mbind (stoi (to_string uid)) (\<lambda>uid. on_mysql (mgr_getUserInfo (e_sql E) uid))) v
      (Some u) v"
    using computes_load_uid [OF assms(1), of uid v] assms(4) by simp
  have miss: "computes_doc V D (getUserByUid E (to_string uid)) DNull v ()
      (jset ''error'' (jerror SUCCESS) DNull) ?v0"
    unfolding getUserByUid_def assms(6)
    by (rule computes_found_miss [OF assms(1) _ load]) (simp add: assms(5))
  have hit: "computes_doc V D (getUserByUid E (to_string uid)) DNull ?v1 ()
      (jset_all (user_fields u) (jset ''error'' (jerror SUCCESS) DNull)) ?v1"
    using computes_found_hit [OF assms(1), of ?v1 ?k "txt" u]
      kv assms(7,8)
      user_of_bare [OF assms(4)]
    by (simp add: getUserByUid_def)
  from computes_with_reply [OF assms(2) miss, of ref MSG_SEARCH_USER_RSP]
    computes_with_reply [OF assms(2) hit, of ref MSG_SEARCH_USER_RSP] kv
  show ?thesis
    unfolding search_handler_uid [OF assms(3)]
    by (intro exI [of _ ?v1]) (simp add: cached_def Let_def)
qed

text \<open>A search message that does not parse, or names no user, is answered with \<open>ERROR_JSON\<close>.\<close>

theorem search_bad_message:
  assumes "net_order (e_host E)"
    and "fst (j_parse (e_json E) data) \<longrightarrow>
      j_is_member (e_json E) (snd (j_parse (e_json E) data)) ''uid'' = Some False"
  shows "computes V D (searchUserHandler E ref data) v ()
    (reply_sent E ref MSG_SEARCH_USER_RSP (jset ''error'' (jerror ERROR_JSON) DNull, v))"
proof -
  obtain ok root where p: "j_parse (e_json E) data = (ok, root)" by fastforce
  have m: "(if ok then mlift JsonLogicError (j_is_member (e_json E) root ''uid'') else mret False)
      = (mret False :: (bool, 'j doc \<times> 'x world) m)"
    using assms(2) p by (auto simp: mlift_def)
  have "computes_doc V D
      (mbind (mret False) (\<lambda>has_uid. if \<not> has_uid then put_error ERROR_JSON else f)) DNull v ()
      (jset ''error'' (jerror ERROR_JSON) DNull) v" for f
    by (rule doc_mbind [OF doc_mret]) (simp add: doc_put_error)
  from computes_with_reply [OF assms(1) this, of ref MSG_SEARCH_USER_RSP] show ?thesis
    by (simp add: searchUserHandler_def p m reply_sent_def)
qed

lemma mret_mbind: "mbind (mret a) f = f a"
  by (rule ext) (simp add: run_simps)

section \<open>Delivery on this server\<close>

definition delivered :: "('x, 'row, 'j) env \<Rightarrow> int32 \<Rightarrow> MSG_IDS \<Rightarrow> 'j doc \<Rightarrow> 'd view \<Rightarrow> 'd view" where
  "delivered E uid msg d v = (case v_users v uid of
      None \<Rightarrow> v
    | Some s \<Rightarrow> v\<lparr>v_sess := (v_sess v)(s := sent E msg d (v_sess v s))\<rparr>)"

lemma computes_deliver [steps]:
  assumes "net_order (e_host E)"
  shows "computes V D (to_local_user uid (\<lambda>s. send_doc E s msg d)) v () (delivered E uid msg d v)"
  by (rule computes_to_local_user)
    (auto simp: delivered_def intro: computes_send_doc [OF assms])

lemma based_home [simp]: "v_kv (based E D uid v) (USERIPPREFIX @ s) = v_kv v (USERIPPREFIX @ s)"
proof -
  have "USERIPPREFIX @ s \<noteq> USER_BASE_INFO @ t" "USERIPPREFIX @ s \<noteq> USER_NAME_INFO @ t" for t
    by (simp_all add: prefix_defs)
  then show ?thesis by (simp add: based_def cached_def Let_def split: option.splits)
qed

text \<open>The server a user is on, as Redis says, and as the code compares it with its own name.\<close>

definition home_of :: "int32 \<Rightarrow> 'd view \<Rightarrow> string option" where
  "home_of uid v = map_option cstr (v_kv v (USERIPPREFIX @ to_string uid))"

definition not_remote :: "('x, 'row, 'j) env \<Rightarrow> int32 \<Rightarrow> 'd view \<Rightarrow> bool" where
  "not_remote E uid v \<longleftrightarrow> home_of uid v = None \<or> home_of uid v = Some (self_name E)"

lemma computes_home:
  assumes "services E V D"
  shows "computes V D (on_redis (redis_get (e_redis E) (USERIPPREFIX @ to_string uid))) v (home_of uid v) v"
  using computes_redis_get [OF assms, of "USERIPPREFIX @ to_string uid" v] by (simp add: home_of_def)

section \<open>Chat messages\<close>

definition text_msg :: "'j json_api \<Rightarrow> string \<Rightarrow> int32 \<Rightarrow> int32 \<Rightarrow> 'j \<Rightarrow> bool" where
  "text_msg J data fromuid touid arr \<longleftrightarrow>
    (let root = snd (j_parse J data)
     in \<not> j_is_null J root \<and> \<not> j_is_empty J root \<and> member_int J root ''fromuid'' = Some fromuid \<and>
        member_int J root ''touid'' = Some touid \<and> j_member J root ''text_array'' = Some arr)"

definition text_spec :: "('x, 'row, 'j) env \<Rightarrow> int32 \<Rightarrow> int32 \<Rightarrow> 'j \<Rightarrow> 'd view \<Rightarrow> 'd view" where
  "text_spec E fromuid touid arr v = (case home_of touid v of
      None \<Rightarrow> v
    | Some _ \<Rightarrow> delivered E touid MSG_TEXT_CHAT_MSG_RSP (text_reply fromuid touid arr) v)"

lemma text_handler_msg:
  assumes "text_msg (e_json E) data fromuid touid arr"
  shows "chatTextMsgHandler E ref data =
    with_reply E ref MSG_TEXT_CHAT_MSG_RSP (text_reply fromuid touid arr)
      (on_snd (text_steps E fromuid touid arr))"
  using assms
  by (simp add: text_msg_def chatTextMsgHandler_def Let_def get_int_mret get_member_def mlift_mbind
      mret_mbind)

lemma text_run:
  assumes "services E V D" and "net_order (e_host E)"
    and "text_msg (e_json E) data fromuid touid arr" and "not_remote E touid v"
  shows "computes V D (chatTextMsgHandler E ref data) v ()
    (reply_sent E ref MSG_TEXT_CHAT_MSG_RSP (text_reply fromuid touid arr, text_spec E fromuid touid arr v))"
proof -
  have "computes V D (text_steps E fromuid touid arr) v () (text_spec E fromuid touid arr v)"
    unfolding text_steps_def
    using assms(4) computes_deliver [OF assms(2)]
    by (intro computes_mbind [OF computes_home [OF assms(1)]])
      (auto simp: not_remote_def text_spec_def computes_mret)
  from computes_with_reply [OF assms(2) doc_on_snd [OF this], of ref MSG_TEXT_CHAT_MSG_RSP]
  show ?thesis by (simp add: text_handler_msg [OF assms(3)] reply_sent_def)
qed

text \<open>
  C13. A text message for a user who is on no server, or on this one: the sender is always answered,
  with the document the recipient gets; the recipient gets it where a session is registered for
  them, under the id of a response; nothing else changes.
\<close>

theorem chat_text_local:
  assumes "services E V D" and "net_order (e_host E)"
    and "text_msg (e_json E) data fromuid touid arr" and "not_remote E touid v"
  shows "computes V D (chatTextMsgHandler E ref data) v ()
    (reply_sent E ref MSG_TEXT_CHAT_MSG_RSP (text_reply fromuid touid arr, text_spec E fromuid touid arr v))"
  using assms by (rule text_run)

text \<open>
  C19. The two ways to a recipient differ. A message delivered on the recipient's own server comes as
  \<open>MSG_TEXT_CHAT_MSG_RSP\<close> with sender and recipient swapped; the same message that comes from
  another server comes as \<open>MSG_NOTIFY_TEXT_CHAT_MSG_REQ\<close>, unswapped.
\<close>

theorem chat_text_paths_differ:
  assumes "services E V D" and "net_order (e_host E)"
    and "text_msg (e_json E) data fromuid touid arr" and "home_of touid v = Some (self_name E)"
    and "v_users v touid = Some s" and "s \<noteq> ref"
    and "tcq_fromuid req = fromuid" and "tcq_touid req = touid"
  shows "\<exists>d d' v1 v2. computes V D (chatTextMsgHandler E ref data) v () v1 \<and>
    v_sess v1 s = sent E MSG_TEXT_CHAT_MSG_RSP d (v_sess v s) \<and>
    jget ''fromuid'' d = Some (DInt touid) \<and> jget ''touid'' d = Some (DInt fromuid) \<and>
    computes V D (svc_NotifyTextChatMsg E req reply) v (reply\<lparr>tcr_error := error_code SUCCESS\<rparr>) v2 \<and>
    v_sess v2 s = sent E MSG_NOTIFY_TEXT_CHAT_MSG_REQ d' (v_sess v s) \<and>
    jget ''fromuid'' d' = Some (DInt fromuid) \<and> jget ''touid'' d' = Some (DInt touid)"
proof -
  let ?d = "text_reply fromuid touid arr" and ?d' = "text_notify req"
  let ?v1 = "reply_sent E ref MSG_TEXT_CHAT_MSG_RSP (?d, text_spec E fromuid touid arr v)"
  let ?v2 = "delivered E touid MSG_NOTIFY_TEXT_CHAT_MSG_REQ ?d' v"
  have "computes V D (chatTextMsgHandler E ref data) v () ?v1"
    using assms(4) by (intro text_run [OF assms(1-3)]) (simp add: not_remote_def)
  moreover have "computes V D (svc_NotifyTextChatMsg E req reply) v
      (reply\<lparr>tcr_error := error_code SUCCESS\<rparr>) ?v2"
    unfolding svc_NotifyTextChatMsg_def assms(8)
    by (rule computes_mseq [OF computes_deliver [OF assms(2)] computes_mret])
  moreover have "v_sess ?v1 s = sent E MSG_TEXT_CHAT_MSG_RSP ?d (v_sess v s)"
    "v_sess ?v2 s = sent E MSG_NOTIFY_TEXT_CHAT_MSG_REQ ?d' (v_sess v s)"
    using assms(4-6) by (simp_all add: reply_sent_def text_spec_def delivered_def)
  moreover have "jget ''fromuid'' ?d = Some (DInt touid)" "jget ''touid'' ?d = Some (DInt fromuid)"
    "jget ''fromuid'' ?d' = Some (DInt fromuid)" "jget ''touid'' ?d' = Some (DInt touid)"
    by (simp_all add: text_reply_def text_notify_def assms(7,8))
  ultimately show ?thesis by blast
qed

lemma text_forward_run:
  assumes "services E V D" and "ready w" and "kv V (w_ext w) (USERIPPREFIX @ to_string touid) = Some ip"
    and "cstr ip = server" and "server \<noteq> self_name E"
    and "w_peers w server = Some pool" and "\<not> cp_stop pool" and "cp_conns pool = c # cs"
    and "\<forall>s :: 'x world. mfold (read_text (e_json E)) (j_elements (e_json E) arr) [] s = Ret msgs s"
  shows "\<exists>w'. text_steps (E :: ('x, 'row, 'j) env) fromuid touid arr w = Ret () w' \<and>
    w_ext w' = snd (rpc_text (e_rpc E) c \<lparr>tcq_fromuid = fromuid, tcq_touid = touid, tcq_textmsgs = msgs\<rparr>
      (new_TextChatMsgRsp\<lparr>tcr_error := error_code SUCCESS\<rparr>) (w_ext w)) \<and>
    w_peers w' = (w_peers w)(server \<mapsto> pool\<lparr>cp_conns := cs @ [c]\<rparr>) \<and>
    w_sess w' = w_sess w \<and> w_users w' = w_users w"
proof -
  have g: "redis_get (e_redis E) (USERIPPREFIX @ to_string touid) (w_redis w, w_ext w) =
      Ret (Some server) (spin (w_redis w), w_ext w)"
    using assms(1-4) redis_get_serves [of "e_redis E" V "w_redis w" "USERIPPREFIX @ to_string touid" "w_ext w"]
    by (simp add: services_def ready_def)
  show ?thesis
    using assms(5-9) g
    by (auto simp: text_steps_def run_simps ignoring_def chat_NotifyTextChatMsg_def Let_def call_peer_def
        via_stub_def cp_getConnection_def cp_returnConnection_def case_prod_unfold
        split: prod.splits)
qed

text \<open>
  A text message for a user of another server makes exactly one call to that server, with the
  sender, the recipient and the texts in order; the borrowed stub goes back to its pool, and no
  session of this server is touched by the forwarding.
\<close>

theorem chat_text_forwarded:
  assumes "services E V D" and "ready w" and "kv V (w_ext w) (USERIPPREFIX @ to_string touid) = Some ip"
    and "cstr ip = server" and "server \<noteq> self_name E"
    and "w_peers w server = Some pool" and "\<not> cp_stop pool" and "cp_conns pool = c # cs"
    and "\<forall>s :: 'x world. mfold (read_text (e_json E)) (j_elements (e_json E) arr) [] s = Ret msgs s"
  shows "\<exists>w'. text_steps (E :: ('x, 'row, 'j) env) fromuid touid arr w = Ret () w' \<and>
    w_ext w' = snd (rpc_text (e_rpc E) c \<lparr>tcq_fromuid = fromuid, tcq_touid = touid, tcq_textmsgs = msgs\<rparr>
      (new_TextChatMsgRsp\<lparr>tcr_error := error_code SUCCESS\<rparr>) (w_ext w)) \<and>
    w_peers w' = (w_peers w)(server \<mapsto> pool\<lparr>cp_conns := cs @ [c]\<rparr>) \<and>
    w_sess w' = w_sess w \<and> w_users w' = w_users w"
  using assms by (rule text_forward_run)

end
