(* ===== verification/FriendSpec.thy ===== *)
theory FriendSpec
  imports ChatSpec
begin

text \<open>
  The handlers of friend requests and of their acceptance as functions of the view, and what a
  request and its acceptance, one after the other, leave behind. Delivery to a user of another
  server is a call, described in ChatSpec for chat messages.
\<close>

section \<open>Friend requests\<close>

definition add_msg :: "'j json_api \<Rightarrow> string \<Rightarrow> int32 \<Rightarrow> string \<Rightarrow> string \<Rightarrow> int32 \<Rightarrow> bool" where
  "add_msg J data uid name alias_name touid \<longleftrightarrow>
    (let root = snd (j_parse J data)
     in member_int J root ''uid'' = Some uid \<and> member_text J root ''apply_name'' = Some name \<and>
        member_text J root ''alias_name'' = Some alias_name \<and> member_int J root ''touid'' = Some touid)"

definition applied :: "('x, 'row, 'd) db_view \<Rightarrow> int32 \<Rightarrow> int32 \<Rightarrow> string \<Rightarrow> 'd view \<Rightarrow> 'd view" where
  "applied D uid touid alias_name v =
    v\<lparr>v_db := snd (db_update D add_apply_stmt [SqlInt uid, SqlInt touid, SqlString alias_name] (v_db v))\<rparr>"

definition add_spec ::
  "('x, 'row, 'j) env \<Rightarrow> ('x, 'row, 'd) db_view \<Rightarrow> int32 \<Rightarrow> string \<Rightarrow> string \<Rightarrow> int32 \<Rightarrow> 'd view \<Rightarrow> 'd view" where
  "add_spec E D uid name alias_name touid v =
    (let v1 = applied D uid touid alias_name v
     in case home_of touid v1 of
          None \<Rightarrow> v1
        | Some _ \<Rightarrow> delivered E touid MSG_NOTIFY_ADDFRIEND_REQ
            (add_notify uid name alias_name (user_of (e_sql E) D uid (v_db v1))) (based E D uid v1))"

lemma add_handler_msg:
  assumes "add_msg (e_json E) data uid name alias_name touid"
  shows "addFriendHandler E ref data =
    with_reply E ref MSG_ADD_FRIEND_RSP (jset ''error'' (jerror SUCCESS) DNull)
      (on_snd (add_friend_steps E uid name alias_name touid))"
  using assms
  by (simp add: add_msg_def addFriendHandler_def Let_def get_int_mret get_str_mret mret_mbind)

lemma add_friend_run:
  assumes "services E V D" and "net_order (e_host E)"
    and "add_msg (e_json E) data uid name alias_name touid" and "not_remote E touid v"
  shows "computes V D (addFriendHandler E ref data) v ()
    (reply_sent E ref MSG_ADD_FRIEND_RSP
      (jset ''error'' (jerror SUCCESS) DNull, add_spec E D uid name alias_name touid v))"
proof -
  let ?v1 = "applied D uid touid alias_name v"
  have h: "home_of touid ?v1 = home_of touid v" by (simp add: home_of_def applied_def)
  have a: "computes V D (on_mysql (mgr_addFriendApply (e_sql E) uid touid alias_name)) v
      (case fst (db_update D add_apply_stmt [SqlInt uid, SqlInt touid, SqlString alias_name] (v_db v)) of
        None \<Rightarrow> False | Some n \<Rightarrow> \<not> n < 0) ?v1"
    unfolding applied_def by (rule computes_addFriendApply [OF assms(1)])
  have "computes V D (add_friend_steps E uid name alias_name touid) v () (add_spec E D uid name alias_name touid v)"
    unfolding add_friend_steps_def
  proof (rule computes_mseq [OF a], rule computes_mbind [OF computes_home [OF assms(1)]], unfold h)
    show "computes V D (case home_of touid v of
        None \<Rightarrow> mret ()
      | Some ip \<Rightarrow>
          mbind (ls_getBaseInfo E (USER_BASE_INFO @ to_string uid) uid) (\<lambda>info.
            if ip = self_name E
            then to_local_user touid (\<lambda>s.
              send_doc E s MSG_NOTIFY_ADDFRIEND_REQ (add_notify uid name alias_name info))
            else ignoring (on_peers (chat_NotifyAddFriend (e_rpc E) (e_nrvo E) ip
              (add_request uid name alias_name touid info))))) ?v1 ()
        (add_spec E D uid name alias_name touid v)"
    proof (cases "home_of touid v")
      case None
      then show ?thesis by (simp add: add_spec_def Let_def h computes_mret)
    next
      case (Some ip)
      with assms(4) have ip: "ip = self_name E" by (simp add: not_remote_def)
      show ?thesis
        using computes_mbind [OF computes_getBaseInfo [OF assms(1)] computes_deliver [OF assms(2)]]
        by (simp add: Some ip add_spec_def Let_def h)
    qed
  qed
  from computes_with_reply [OF assms(2) doc_on_snd [OF this], of ref MSG_ADD_FRIEND_RSP]
  show ?thesis by (simp add: add_handler_msg [OF assms(3)] reply_sent_def)
qed

text \<open>
  C14. A friend request to a user who is on this server or on none is stored; the sender is answered
  \<open>SUCCESS\<close>, also when the database refuses it; and a recipient who is online is notified with the
  sender's id, names and, where the database has one, record.
\<close>

theorem add_friend_local:
  assumes "services E V D" and "net_order (e_host E)"
    and "add_msg (e_json E) data uid name alias_name touid" and "not_remote E touid v"
  shows "computes V D (addFriendHandler E ref data) v ()
    (reply_sent E ref MSG_ADD_FRIEND_RSP
      (jset ''error'' (jerror SUCCESS) DNull, add_spec E D uid name alias_name touid v))"
  by (rule add_friend_run [OF assms])

section \<open>Accepting a friend request\<close>

definition auth_msg :: "'j json_api \<Rightarrow> string \<Rightarrow> int32 \<Rightarrow> int32 \<Rightarrow> string \<Rightarrow> bool" where
  "auth_msg J data applicant accepter alias_name \<longleftrightarrow>
    (let root = snd (j_parse J data)
     in member_int J root ''fromuid'' = Some applicant \<and> member_int J root ''touid'' = Some accepter \<and>
        member_text J root ''alias_name'' = Some alias_name)"

text \<open>The database after an acceptance: the request is marked, then both friend rows inserted.\<close>

definition accepted ::
  "('x, 'row, 'j) env \<Rightarrow> ('x, 'row, 'd) db_view \<Rightarrow> int32 \<Rightarrow> int32 \<Rightarrow> string \<Rightarrow> 'd \<Rightarrow> 'd" where
  "accepted E D applicant accepter alias_name d =
    (let al = snd (alias_of (e_sql E) (db_query D apply_alias_stmt [SqlInt applicant, SqlInt accepter] d));
         d1 = snd (db_update D auth_apply_stmt [SqlInt applicant, SqlInt accepter] d)
     in snd (befriended D applicant accepter al alias_name d1))"

definition auth_spec ::
  "('x, 'row, 'j) env \<Rightarrow> ('x, 'row, 'd) db_view \<Rightarrow> int32 \<Rightarrow> int32 \<Rightarrow> string \<Rightarrow> 'd view \<Rightarrow> 'd view" where
  "auth_spec E D applicant accepter alias_name v =
    (let d = accepted E D applicant accepter alias_name (v_db v);
         v1 = v\<lparr>v_db := d\<rparr>;
         al = snd (alias_of (e_sql E) (db_query D friend_alias_stmt [SqlInt applicant, SqlInt accepter] d))
     in case (home_of applicant v, v_users v applicant) of
          (Some _, Some _) \<Rightarrow> delivered E applicant MSG_NOTIFY_AUTH_FRIEND_REQ
            (auth_notify accepter applicant al (user_of (e_sql E) D accepter d)) (based E D accepter v1)
        | _ \<Rightarrow> v1)"

lemma auth_handler_msg:
  assumes "auth_msg (e_json E) data applicant accepter alias_name"
  shows "authFriendHandler E ref data =
    mbind (ls_getBaseInfo E (USER_BASE_INFO @ to_string applicant) applicant) (\<lambda>info.
      with_reply E ref MSG_AUTH_FRIEND_RSP (auth_reply applicant alias_name info)
        (on_snd (auth_friend_steps E applicant accepter alias_name)))"
  using assms
  by (simp add: auth_msg_def authFriendHandler_def Let_def get_int_mret get_str_mret mret_mbind)

lemma computes_auth_steps:
  assumes "services E V D" and "net_order (e_host E)" and "not_remote E applicant v"
  shows "computes V D (auth_friend_steps E applicant accepter alias_name) v ()
    (auth_spec E D applicant accepter alias_name v)"
proof -
  define al where "al = alias_of (e_sql E)
      (db_query D apply_alias_stmt [SqlInt applicant, SqlInt accepter] (v_db v))"
  define v1 where "v1 = v\<lparr>v_db := snd (db_update D auth_apply_stmt [SqlInt applicant, SqlInt accepter] (v_db v))\<rparr>"
  define v2 where "v2 = v1\<lparr>v_db := snd (befriended D applicant accepter (snd al) alias_name (v_db v1))\<rparr>"
  define pa where "pa = alias_of (e_sql E)
      (db_query D friend_alias_stmt [SqlInt applicant, SqlInt accepter] (v_db v2))"
  have v2: "v2 = v\<lparr>v_db := accepted E D applicant accepter alias_name (v_db v)\<rparr>"
    by (simp add: v2_def v1_def accepted_def al_def Let_def)
  have h: "home_of applicant v2 = home_of applicant v" by (simp add: home_of_def v2)
  have 1: "computes V D (on_mysql (mgr_getFriendApplyAlias (e_sql E) applicant accepter)) v al v"
    unfolding al_def by (rule computes_getFriendApplyAlias [OF assms(1)])
  have 2: "computes V D (on_mysql (mgr_authFriendApply (e_sql E) applicant accepter)) v
      (case fst (db_update D auth_apply_stmt [SqlInt applicant, SqlInt accepter] (v_db v)) of
         None \<Rightarrow> False | Some n \<Rightarrow> n > 0) v1"
    unfolding v1_def by (rule computes_authFriendApply [OF assms(1)])
  have 3: "computes V D (on_mysql (mgr_addFriend (e_sql E) applicant accepter (snd al) alias_name)) v1
      (fst (befriended D applicant accepter (snd al) alias_name (v_db v1))) v2"
    unfolding v2_def by (rule computes_addFriend [OF assms(1)])
  have 4: "computes V D (on_mysql (mgr_getFriendAlias (e_sql E) applicant accepter)) v2 pa v2"
    unfolding pa_def by (rule computes_getFriendAlias [OF assms(1)])
  have n: "computes V D (to_local_user applicant (\<lambda>s.
        mbind (ls_getBaseInfo E (USER_BASE_INFO @ to_string accepter) accepter) (\<lambda>info.
          send_doc E s MSG_NOTIFY_AUTH_FRIEND_REQ (auth_notify accepter applicant (snd pa) info)))) v2 ()
      (auth_spec E D applicant accepter alias_name v)" if "home_of applicant v = Some ip" for ip
  proof (rule computes_to_local_user)
    show "v_users v2 applicant = None \<Longrightarrow> auth_spec E D applicant accepter alias_name v = v2"
      by (simp add: auth_spec_def Let_def v2 split: option.splits)
  next
    fix s assume s: "v_users v2 applicant = Some s"
    show "computes V D (mbind (ls_getBaseInfo E (USER_BASE_INFO @ to_string accepter) accepter) (\<lambda>info.
          send_doc E s MSG_NOTIFY_AUTH_FRIEND_REQ (auth_notify accepter applicant (snd pa) info))) v2 ()
        (auth_spec E D applicant accepter alias_name v)"
    proof -
      have e: "auth_spec E D applicant accepter alias_name v = (based E D accepter v2)
          \<lparr>v_sess := (v_sess (based E D accepter v2))(s := sent E MSG_NOTIFY_AUTH_FRIEND_REQ
            (auth_notify accepter applicant (snd pa) (user_of (e_sql E) D accepter (v_db v2)))
            (v_sess (based E D accepter v2) s))\<rparr>"
        using s that by (simp add: auth_spec_def Let_def delivered_def v2 pa_def)
      show ?thesis
        unfolding e
        by (rule computes_mbind [OF computes_getBaseInfo [OF assms(1)]],
            rule computes_send_doc [OF assms(2)])
    qed
  qed
  have "computes V D (case home_of applicant v of
        None \<Rightarrow> mret ()
      | Some ip \<Rightarrow>
          if ip = self_name E
          then to_local_user applicant (\<lambda>s.
            mbind (ls_getBaseInfo E (USER_BASE_INFO @ to_string accepter) accepter) (\<lambda>info.
              send_doc E s MSG_NOTIFY_AUTH_FRIEND_REQ (auth_notify accepter applicant (snd pa) info)))
          else ignoring (on_peers (chat_NotifyAuthFriend (e_rpc E) (e_nrvo E) ip
            (new_AuthFriendReq\<lparr>auq_fromuid := accepter, auq_touid := applicant\<rparr>)))) v2 ()
      (auth_spec E D applicant accepter alias_name v)"
    using n assms(3)
    by (cases "home_of applicant v")
      (auto simp: not_remote_def auth_spec_def Let_def v2 [symmetric] intro: computes_mret)
  then show ?thesis
    unfolding auth_friend_steps_def case_prod_unfold
    by (intro computes_mbind [OF 1] computes_mseq [OF 2] computes_mseq [OF 3] computes_mbind [OF 4]
        computes_mbind [OF computes_home [OF assms(1)]]) (simp add: h)
qed

lemma auth_friend_run:
  assumes "services E V D" and "net_order (e_host E)"
    and "auth_msg (e_json E) data applicant accepter alias_name" and "not_remote E applicant v"
  shows "computes V D (authFriendHandler E ref data) v ()
    (reply_sent E ref MSG_AUTH_FRIEND_RSP
      (auth_reply applicant alias_name (user_of (e_sql E) D applicant (v_db v)),
       auth_spec E D applicant accepter alias_name (based E D applicant v)))"
proof -
  let ?v = "based E D applicant v"
  have "home_of applicant ?v = home_of applicant v" by (simp add: home_of_def)
  with assms(4) have "not_remote E applicant ?v" by (simp add: not_remote_def)
  from computes_with_reply [OF assms(2) doc_on_snd [OF computes_auth_steps [OF assms(1,2) this]]]
  have "computes V D (with_reply E ref MSG_AUTH_FRIEND_RSP d
        (on_snd (auth_friend_steps E applicant accepter alias_name))) ?v ()
      (reply_sent E ref MSG_AUTH_FRIEND_RSP (d, auth_spec E D applicant accepter alias_name ?v))" for d
    by (simp add: reply_sent_def)
  from computes_mbind [OF computes_getBaseInfo [OF assms(1)] this] show ?thesis
    by (simp add: auth_handler_msg [OF assms(3)])
qed

text \<open>
  C12. Accepting a friend request marks it, stores the friendship in both directions with the alias of
  the request and the alias of the acceptance, answers the accepter with the applicant's record, and
  notifies an applicant on this server with the accepter's record and the applicant's own alias for
  them.
\<close>

theorem auth_friend_local:
  assumes "services E V D" and "net_order (e_host E)"
    and "auth_msg (e_json E) data applicant accepter alias_name" and "not_remote E applicant v"
  shows "computes V D (authFriendHandler E ref data) v ()
    (reply_sent E ref MSG_AUTH_FRIEND_RSP
      (auth_reply applicant alias_name (user_of (e_sql E) D applicant (v_db v)),
       auth_spec E D applicant accepter alias_name (based E D applicant v)))"
  by (rule auth_friend_run [OF assms])

end
