(* ===== verification/DemoServer.thy ===== *)
theory DemoServer
  imports Demo FriendSpec
begin

text \<open>
  A whole server in the concrete world of the theory Demo: its database as a function, the texts
  of client messages, a JSON writer whose text of a user's record parses back, and a second server.
\<close>

section \<open>The database as a function\<close>

definition demo_db ::
  "(demo_ext, demo_row, (int32 \<Rightarrow> demo_row list) \<times> (int32 \<Rightarrow> demo_row list)) db_view" where
  "demo_db =
    \<lparr>db_of = (\<lambda>x. (dx_users x, dx_friends x)),
     db_query = (\<lambda>stmt args d. Some (case args of
       [SqlInt i] \<Rightarrow> if stmt = user_stmt then fst d i
         else if stmt = ''SELECT * FROM friend WHERE self_id = ?'' then snd d i else []
     | _ \<Rightarrow> [])),
     db_update = (\<lambda>stmt args d. (Some 1, d))\<rparr>"

section \<open>Messages and the JSON library\<close>

definition alice :: UserInfo where
  "alice = \<lparr>ui_name = ''alice'', ui_pwd = ''a'', ui_uid = 1, ui_email = ''e'', ui_nick = ''alice'',
    ui_desc = ''d'', ui_sex = 0, ui_icon = ''i'', ui_back = [], ui_alias_name = []\<rparr>"

definition alice_value :: jval where
  "alice_value = JObj
    [(''uid'', JInt 1), (''name'', JStr ''alice''), (''pwd'', JStr ''a''), (''email'', JStr ''e''),
     (''nick'', JStr ''alice''), (''desc'', JStr ''d''), (''sex'', JInt 0), (''icon'', JStr ''i'')]"

definition chat_texts :: jval where
  "chat_texts = JArr [JObj [(''content'', JStr ''hello''), (''msgid'', JStr ''m1'')]]"

definition server_texts :: "string \<Rightarrow> jval option" where
  "server_texts =
    [''alice'' \<mapsto> alice_value,
     ''login'' \<mapsto> JObj [(''uid'', JInt 1), (''token'', JStr ''tok'')],
     ''search'' \<mapsto> JObj [(''uid'', JInt 1)],
     ''text'' \<mapsto> JObj [(''fromuid'', JInt 2), (''touid'', JInt 1), (''text_array'', chat_texts)],
     ''add'' \<mapsto> JObj [(''uid'', JInt 1), (''apply_name'', JStr ''alice''),
       (''alias_name'', JStr ''bobby''), (''touid'', JInt 2)],
     ''auth'' \<mapsto> JObj [(''fromuid'', JInt 1), (''touid'', JInt 2), (''alias_name'', JStr ''ally'')],
     ''bad'' \<mapsto> JObj [(''uid'', JStr ''one''), (''token'', JStr ''tok'')]]"

definition server_json :: "jval json_api" where
  "server_json = demo_json
    \<lparr>j_parse := (\<lambda>t. case server_texts t of None \<Rightarrow> (False, JNull) | Some v \<Rightarrow> (True, v)),
     j_styled := (\<lambda>d. if d = user_doc alice then ''alice'' else ''{}''),
     j_fast := (\<lambda>d. ''alice'')\<rparr>"

definition server_env :: "(demo_ext, demo_row, jval) env" where
  "server_env = demo_env\<lparr>e_json := server_json\<rparr>"

text \<open>The same server with a JSON writer that indents a great deal.\<close>

definition wordy_env :: "(demo_ext, demo_row, jval) env" where
  "wordy_env = demo_env\<lparr>e_json := server_json\<lparr>j_styled := (\<lambda>d. replicate 2049 (CHR '' ''))\<rparr>\<rparr>"

definition demo_v :: "((int32 \<Rightarrow> demo_row list) \<times> (int32 \<Rightarrow> demo_row list)) view" where
  "demo_v = view_of demo_view demo_db demo_world"

section \<open>The hypotheses of the specifications hold\<close>

lemma demo_command_keeps: "db_of demo_db (snd (demo_command c call x)) = db_of demo_db x"
  by (cases call) (simp_all add: demo_db_def)

lemma demo_services:
  assumes "e_redis E = demo_redis" and "e_sql E = demo_sql"
  shows "services E demo_view demo_db"
  using assms demo_redis_serves demo_command_keeps
  by (simp add: services_def)
    (auto simp: demo_redis_def demo_sql_def demo_query_def demo_update_def demo_db_def demo_view_def
      split: list.splits sql_arg.splits)

lemma server_services: "services server_env demo_view demo_db" "services wordy_env demo_view demo_db"
  by (rule demo_services; simp add: server_env_def wordy_env_def demo_env_def)+

lemma server_net: "net_order (e_host server_env)" "net_order (e_host wordy_env)"
  using net_order_demo by (simp_all add: server_env_def wordy_env_def demo_env_def)

lemma server_quiet: "quiet_close server_env demo_view demo_db"
  by (simp add: quiet_close_def server_env_def demo_env_def)

lemma demo_ready: "ready demo_world"
  using demo_pool_ready by (simp add: ready_def demo_world_def demo_mysql_def)

lemma server_name: "self_name server_env = ''s1''" "self_name wordy_env = ''s1''"
  by (simp_all add: self_name_def server_env_def wordy_env_def demo_env_def demo_cfg_def cfg_get_def
      config_at_def section_at_def)

lemma server_login: "login_msg (e_json server_env) ''login'' 1 ''tok''"
  "login_msg (e_json wordy_env) ''login'' 1 ''tok''"
  by (simp_all add: login_msg_def server_env_def wordy_env_def server_json_def server_texts_def
      demo_json_def demo_member_def member_int_def member_text_def)

lemma demo_count: "count_is server_env demo_v 0" "count_is wordy_env demo_v 0"
  by (simp_all add: count_is_def demo_v_def view_of_def demo_world_def demo_view_def demo_ext0_def
      held_hash_def prefix_defs)

lemma show_one: "to_string 1 = ''1''" "to_string 2 = ''2''"
  by code_simp+

lemma demo_token: "v_kv demo_v (USERTOKENPREFIX @ to_string 1) = Some ''tok''" "cstr ''tok'' = ''tok''"
  by (simp_all add: demo_v_def view_of_def demo_world_def demo_view_def demo_ext0_def show_one
      prefix_defs cstr_def)

lemma demo_alice: "user_of (e_sql server_env) demo_db 1 (v_db demo_v) = Some alice"
  "user_of (e_sql wordy_env) demo_db 1 (v_db demo_v) = Some alice"
  by (simp_all add: user_of_def result_user_def row_user_def server_env_def wordy_env_def demo_env_def
      demo_sql_def demo_db_def demo_v_def view_of_def demo_world_def demo_ext0_def alice_row_def alice_def)

lemma server_alice_text:
  "j_fast (e_json server_env) d = ''alice''" "j_styled (e_json server_env) (user_doc alice) = ''alice''"
  by (simp_all add: server_env_def server_json_def)

lemma demo_run:
  assumes "computes demo_view demo_db f demo_v a v'"
  shows "\<exists>w'. f demo_world = Ret a w' \<and> ready w' \<and> view_of demo_view demo_db w' = v'"
  using assms demo_ready by (simp add: computes_def demo_v_def)

section \<open>A server with a user online\<close>

text \<open>User 1 is logged in here with the session 3, and Redis says so.\<close>

definition chat_world :: "demo_ext world" where
  "chat_world = demo_world
    \<lparr>w_users := [1 \<mapsto> 3],
     w_sess := (\<lambda>r. if r = 3 then demo_session\<lparr>cs_uid := 1\<rparr> else demo_session),
     w_ext := demo_ext0\<lparr>dx_kv := [''utoken_1'' \<mapsto> ''tok'', ''uip_1'' \<mapsto> ''s1'', ''uip_2'' \<mapsto> ''s1'']\<rparr>\<rparr>"

definition chat_v :: "((int32 \<Rightarrow> demo_row list) \<times> (int32 \<Rightarrow> demo_row list)) view" where
  "chat_v = view_of demo_view demo_db chat_world"

lemma chat_ready: "ready chat_world"
  using demo_ready by (simp add: ready_def chat_world_def)

lemma chat_run:
  assumes "computes demo_view demo_db f chat_v a v'"
  shows "\<exists>w'. f chat_world = Ret a w' \<and> ready w' \<and> view_of demo_view demo_db w' = v'"
  using assms chat_ready by (simp add: computes_def chat_v_def)

lemma chat_home: "home_of 1 chat_v = Some ''s1''" "home_of 2 chat_v = Some ''s1''"
  by (simp_all add: home_of_def chat_v_def view_of_def chat_world_def demo_view_def demo_ext0_def
      show_one prefix_defs cstr_def)

lemma chat_user: "v_users chat_v 1 = Some 3"
  by (simp add: chat_v_def view_of_def chat_world_def)

lemma server_messages:
  "text_msg (e_json server_env) ''text'' 2 1 chat_texts"
  "add_msg (e_json server_env) ''add'' 1 ''alice'' ''bobby'' 2"
  "auth_msg (e_json server_env) ''auth'' 1 2 ''ally''"
  "search_msg (e_json server_env) ''search'' 1"
  by (simp_all add: text_msg_def add_msg_def auth_msg_def search_msg_def server_env_def server_json_def
      server_texts_def demo_json_def demo_member_def member_int_def member_text_def show_one)

lemma alice_value_member:
  "jget k (user_doc alice) = Some d \<Longrightarrow>
    case demo_member alice_value k of None \<Rightarrow> False | Some w \<Rightarrow> reads_as server_json w d"
  by (auto simp: user_doc_def user_fields_def alice_def alice_value_def demo_member_def reads_as_def
      server_json_def demo_json_def split: if_splits)

lemma server_alice_value:
  "snd (j_parse server_json ''alice'') = alice_value" "j_member server_json = demo_member"
  "e_json server_env = server_json"
  by (simp_all add: server_json_def server_texts_def demo_json_def server_env_def)

lemma alice_reads_back: "reads_back (e_json server_env) ''alice'' (user_doc alice)"
  using alice_value_member by (simp add: reads_back_def server_alice_value)

end
