(* ===== verification/WitnessesServer.thy ===== *)
theory WitnessesServer
  imports DemoServer
begin

text \<open>
  The properties of the running server, each at one concrete input of the theory DemoServer.
\<close>

section \<open>Event loops\<close>

lemma getIOService_round_robin_witness:
  "take_services 4 (AsioIOServicePool_new 3) = [0, 1, 2, 0]"
proof -
  have "take_services 4 (AsioIOServicePool_new 3)
      = map (\<lambda>i. (io_next (AsioIOServicePool_new 3) + i) mod io_services (AsioIOServicePool_new 3)) [0..<4]"
    by (rule getIOService_round_robin [THEN conjunct1]) (simp add: AsioIOServicePool_new_def)
  then show ?thesis by (simp add: AsioIOServicePool_new_def upt_rec)
qed

section \<open>Login and logout\<close>

lemma loginHandler_refines_witness:
  "\<exists>w'. loginHandler server_env 1 ''login'' demo_world = Ret () w' \<and>
    view_of demo_view demo_db w' = reply_sent server_env 1 MSG_CHAT_LOGIN_RSP
      (login_spec server_env demo_db 1 1 ''tok'' 0 demo_v)"
  using demo_run [OF loginHandler_refines [OF server_services(1) server_net(1) server_login(1)
      demo_count(1), of 1]] by auto

lemma login_effects_witness:
  "\<exists>w'. loginHandler server_env 1 ''login'' demo_world = Ret () w' \<and> w_users w' 1 = Some 1"
proof -
  from login_effects [OF server_services(1) server_net(1) server_login(1) demo_count(1) _ _
      demo_token demo_alice(1), of 1] obtain v' where
    c: "computes demo_view demo_db (loginHandler server_env 1 ''login'') demo_v () v'"
      and u: "v_users v' 1 = Some 1"
    by (auto simp: server_name cstr_def)
  from demo_run [OF c] u show ?thesis by (auto simp: view_of_def)
qed

lemma login_reply_lost_witness:
  "\<exists>w'. loginHandler wordy_env 1 ''login'' demo_world = Ret () w' \<and>
    w_sess w' 1 = demo_session\<lparr>cs_uid := 1\<rparr> \<and> w_users w' 1 = Some 1"
proof -
  have l: "2048 < length (j_styled (e_json wordy_env) d)" for d by (simp add: wordy_env_def)
  have s: "v_sess demo_v r = demo_session" for r by (simp add: demo_v_def view_of_def demo_world_def)
  from login_reply_lost [OF server_services(2) server_net(2) server_login(2) demo_count(2) _
      demo_token demo_alice(2) l, of 1]
  have c: "computes demo_view demo_db (loginHandler wordy_env 1 ''login'') demo_v ()
      (logged_in wordy_env 1 1 0 (based wordy_env demo_db 1 demo_v))"
    and e: "v_sess (logged_in wordy_env 1 1 0 (based wordy_env demo_db 1 demo_v)) 1 = demo_session\<lparr>cs_uid := 1\<rparr>"
    by (auto simp: s)
  from demo_run [OF c] obtain w' where
    w': "loginHandler wordy_env 1 ''login'' demo_world = Ret () w'"
      "view_of demo_view demo_db w' = logged_in wordy_env 1 1 0 (based wordy_env demo_db 1 demo_v)"
    by auto
  have "w_sess w' = v_sess (view_of demo_view demo_db w')" "w_users w' = v_users (view_of demo_view demo_db w')"
    by (simp_all add: view_of_def)
  with w' e show ?thesis by (simp add: logged_in_def Let_def)
qed

lemma login_then_close_witness:
  "\<exists>w'. mseq (loginHandler server_env 1 ''login'') (cs_close server_env 1) demo_world = Ret () w' \<and>
    w_users w' 1 = None \<and> \<not> cs_open (w_sess w' 1)"
proof -
  from login_then_close [OF server_services(1) server_net(1) server_login(1) demo_count(1) _ _
      demo_token demo_alice(1) server_quiet, of 1] obtain v' where
    c: "computes demo_view demo_db (mseq (loginHandler server_env 1 ''login'') (cs_close server_env 1)) demo_v () v'"
      and u: "v_users v' 1 = None" "\<not> cs_open (v_sess v' 1)"
    by (auto simp: server_name cstr_def demo_v_def view_of_def demo_world_def demo_session_def)
  from demo_run [OF c] u show ?thesis by (auto simp: view_of_def)
qed

lemma close_forgets_newer_session_witness:
  "\<exists>w'. cs_close server_env 3 (chat_world\<lparr>w_users := [1 \<mapsto> 4]\<rparr>) = Ret () w' \<and> w_users w' 1 = None"
proof -
  let ?w = "chat_world\<lparr>w_users := [1 \<mapsto> 4]\<rparr>"
  have "ready ?w" using chat_ready by (simp add: ready_def)
  moreover from close_forgets_newer_session [OF server_services(1) server_quiet, of
      "view_of demo_view demo_db ?w" 0 3 1 4] obtain v' where
    "computes demo_view demo_db (cs_close server_env 3) (view_of demo_view demo_db ?w) () v'"
    "v_users v' 1 = None"
    by (auto simp: view_of_def chat_world_def demo_world_def demo_session_def count_is_def demo_view_def
        demo_ext0_def held_hash_def prefix_defs)
  ultimately show ?thesis by (auto simp: computes_def view_of_def)
qed

lemma second_login_drifts_witness:
  "\<exists>w'. mseq (loginHandler server_env 1 ''login'')
      (mseq (loginHandler server_env 1 ''login'') (cs_close server_env 1)) demo_world = Ret () w' \<and>
    count_is server_env (view_of demo_view demo_db w') 1"
proof -
  from second_login_drifts [OF server_services(1) server_net(1) server_login(1) demo_count(1) _ _
      demo_token demo_alice(1) server_quiet, of 1] obtain v' where
    c: "computes demo_view demo_db (mseq (loginHandler server_env 1 ''login'')
        (mseq (loginHandler server_env 1 ''login'') (cs_close server_env 1))) demo_v () v'"
      and u: "count_is server_env v' 1"
    by (auto simp: server_name cstr_def demo_v_def view_of_def demo_world_def demo_session_def)
  from demo_run [OF c] u show ?thesis by auto
qed

lemma demo_online: "{r. online (w_sess demo_world r)} = {}"
  by (simp add: demo_world_def demo_session_def online_def)

lemma login_counter_exact_witness:
  "\<exists>w'. loginHandler server_env 1 ''login'' demo_world = Ret () w' \<and>
    count_is server_env (view_of demo_view demo_db w') (word_of_nat (card {r. online (w_sess w' r)}))"
proof -
  from demo_run [OF login_run_msg [OF server_services(1) server_net(1) server_login(1)
      demo_count(1), of 1]] obtain w' where
    w': "loginHandler server_env 1 ''login'' demo_world = Ret () w'" by auto
  have "cs_uid (w_sess demo_world 1) = 0" by (simp add: demo_world_def demo_session_def)
  from login_step.login [OF server_login(1) this _ _ w'] have
    "login_step server_env demo_world w'" by (simp add: demo_online)
  from login_run_of.more [OF login_run_of.stay this] have r: "login_run_of server_env demo_world w'" .
  have "v_sess demo_v = w_sess demo_world" by (simp add: demo_v_def view_of_def)
  then have "counted server_env (view_of demo_view demo_db demo_world)"
    using demo_count(1) demo_online by (simp add: counted_def flip: demo_v_def)
  from login_counter_exact [OF server_services(1) server_net(1) server_quiet _ r demo_ready this] w'
  show ?thesis by (simp add: server_name cstr_def)
qed

section \<open>Searching\<close>

lemma search_miss_then_hit_witness:
  "\<exists>w1 w2. searchUserHandler server_env 1 ''search'' demo_world = Ret () w1 \<and>
    searchUserHandler server_env 1 ''search'' w1 = Ret () w2"
proof -
  have k: "v_kv demo_v (USER_BASE_INFO @ to_string 1) = None"
    by (simp add: demo_v_def view_of_def demo_world_def demo_view_def demo_ext0_def prefix_defs show_one)
  from search_miss_then_hit [OF server_services(1) server_net(1) server_messages(4) demo_alice(1) k
      server_alice_text(2) [symmetric] _ alice_reads_back, of 1] obtain v1 v2 where
    c: "computes demo_view demo_db (searchUserHandler server_env 1 ''search'') demo_v () v1"
      "computes demo_view demo_db (searchUserHandler server_env 1 ''search'') v1 () v2"
    by (auto simp: cstr_def)
  from demo_run [OF c(1)] c(2) show ?thesis by (auto simp: computes_def)
qed

lemma search_bad_message_witness:
  "\<exists>w'. searchUserHandler server_env 1 ''nonsense'' demo_world = Ret () w'"
  using demo_run [OF search_bad_message [OF server_net(1), of "''nonsense''"]]
  by (auto simp: server_env_def server_json_def server_texts_def)

lemma base_info_cached_witness:
  "\<exists>w'. mbind (ls_getBaseInfo server_env (USER_BASE_INFO @ to_string 1) 1) (\<lambda>a.
      mbind (svc_getBaseInfo server_env (USER_BASE_INFO @ to_string 1) 1) (\<lambda>b. mret (a, b))) demo_world =
    Ret (Some alice, Some alice) w'"
  using demo_run [OF base_info_cached [OF server_services(1) demo_alice(1) server_alice_text(1) [symmetric]
      _ alice_reads_back]]
  by (auto simp: cstr_def)

section \<open>Chat messages\<close>

lemma chat_text_local_witness:
  "\<exists>w'. chatTextMsgHandler server_env 1 ''text'' chat_world = Ret () w'"
  using chat_run [OF chat_text_local [OF server_services(1) server_net(1) server_messages(1)]]
  by (auto simp: not_remote_def chat_home server_name)

lemma chat_text_paths_differ_witness:
  "\<exists>w1 w2 d d'. chatTextMsgHandler server_env 1 ''text'' chat_world = Ret () w1 \<and>
    w_sess w1 3 = sent server_env MSG_TEXT_CHAT_MSG_RSP d (demo_session\<lparr>cs_uid := 1\<rparr>) \<and>
    svc_NotifyTextChatMsg server_env \<lparr>tcq_fromuid = 2, tcq_touid = 1, tcq_textmsgs = []\<rparr> new_TextChatMsgRsp
      chat_world = Ret (new_TextChatMsgRsp\<lparr>tcr_error := error_code SUCCESS\<rparr>) w2 \<and>
    w_sess w2 3 = sent server_env MSG_NOTIFY_TEXT_CHAT_MSG_REQ d' (demo_session\<lparr>cs_uid := 1\<rparr>) \<and>
    jget ''fromuid'' d = Some (DInt 1) \<and> jget ''fromuid'' d' = Some (DInt 2)"
proof -
  let ?q = "\<lparr>tcq_fromuid = 2, tcq_touid = 1, tcq_textmsgs = []\<rparr>"
  have s: "v_sess chat_v 3 = demo_session\<lparr>cs_uid := 1\<rparr>" by (simp add: chat_v_def view_of_def chat_world_def)
  have h: "home_of 1 chat_v = Some (self_name server_env)" by (simp add: chat_home server_name)
  from chat_text_paths_differ [OF server_services(1) server_net(1) server_messages(1) h chat_user,
      of 1 ?q new_TextChatMsgRsp] obtain d d' v1 v2 where
    c: "computes demo_view demo_db (chatTextMsgHandler server_env 1 ''text'') chat_v () v1"
      "v_sess v1 3 = sent server_env MSG_TEXT_CHAT_MSG_RSP d (v_sess chat_v 3)"
      "computes demo_view demo_db (svc_NotifyTextChatMsg server_env ?q new_TextChatMsgRsp) chat_v
        (new_TextChatMsgRsp\<lparr>tcr_error := error_code SUCCESS\<rparr>) v2"
      "v_sess v2 3 = sent server_env MSG_NOTIFY_TEXT_CHAT_MSG_REQ d' (v_sess chat_v 3)"
      "jget ''fromuid'' d = Some (DInt 1)" "jget ''fromuid'' d' = Some (DInt 2)"
    by auto
  have "w_sess w = v_sess (view_of demo_view demo_db w)" for w by (simp add: view_of_def)
  with chat_run [OF c(1)] chat_run [OF c(3)] c(2,4-6) s show ?thesis by metis
qed

definition peer_world :: "demo_ext world" where
  "peer_world = chat_world\<lparr>w_peers := [''s2'' \<mapsto> ChatConPool_new 2 ''h'' ''p''],
     w_ext := (w_ext chat_world)\<lparr>dx_kv := [''uip_1'' \<mapsto> ''s2'']\<rparr>\<rparr>"

lemma chat_text_forwarded_witness:
  "\<exists>w'. text_steps server_env 2 1 chat_texts peer_world = Ret () w' \<and>
    w_peers w' = [''s2'' \<mapsto> (ChatConPool_new 2 ''h'' ''p'')\<lparr>cp_conns := [(''h:p'', 1), (''h:p'', 0)]\<rparr>]"
proof -
  have "ready peer_world" using chat_ready by (simp add: ready_def peer_world_def)
  moreover have "kv demo_view (w_ext peer_world) (USERIPPREFIX @ to_string 1) = Some ''s2''"
    by (simp add: demo_view_def peer_world_def chat_world_def show_one prefix_defs)
  moreover have "mfold (read_text (e_json server_env)) (j_elements (e_json server_env) chat_texts) [] s
      = Ret [\<lparr>tcd_msgid = ''m1'', tcd_msgcontent = ''hello''\<rparr>] s" for s :: "demo_ext world"
    by (simp add: server_env_def server_json_def demo_json_def chat_texts_def read_text_def run_simps
        get_str_def get_member_def demo_member_def)
  ultimately show ?thesis
    using chat_text_forwarded [OF server_services(1), of peer_world 1 "''s2''" "''s2''"
        "ChatConPool_new 2 ''h'' ''p''" "(''h:p'', 0)" "[(''h:p'', 1)]" chat_texts
        "[\<lparr>tcd_msgid = ''m1'', tcd_msgcontent = ''hello''\<rparr>]" 2]
    by (auto simp: cstr_def server_name peer_world_def ChatConPool_new_def upt_rec)
qed

section \<open>Friends\<close>

lemma add_friend_local_witness:
  "\<exists>w'. addFriendHandler server_env 1 ''add'' chat_world = Ret () w'"
  using chat_run [OF add_friend_local [OF server_services(1) server_net(1) server_messages(2)]]
  by (auto simp: not_remote_def chat_home server_name)

lemma auth_friend_local_witness:
  "\<exists>w'. authFriendHandler server_env 1 ''auth'' chat_world = Ret () w'"
  using chat_run [OF auth_friend_local [OF server_services(1) server_net(1) server_messages(3)]]
  by (auto simp: not_remote_def chat_home server_name)

end
