(* ===== verification/Dispatch.thy ===== *)
theory Dispatch
  imports LoginSpec SessionFraming
begin

text \<open>
  The worker thread as a whole: it runs the handlers of the queued messages in order, one turn for
  each message (\<open>dealMsg\<close>), because no handler looks at the queue; and the way of a message through
  the server, from the bytes of its packet to the reply in the session's send queue.
\<close>

section \<open>Code that does not look at the queue\<close>

text \<open>\<open>queue_free f\<close>: \<open>f\<close> neither reads nor changes the message queue.\<close>

definition with_que :: "logic_node list \<Rightarrow> 'x world \<Rightarrow> 'x world" where
  "with_que q w = w\<lparr>w_msg_que := q\<rparr>"

definition queue_free :: "('a, 'x world) m \<Rightarrow> bool" where
  "queue_free f \<longleftrightarrow> (\<forall>q w. f (with_que q w) = map_state (with_que q) (f w))"

definition doc_queue_free :: "('a, 'j doc \<times> 'x world) m \<Rightarrow> bool" where
  "doc_queue_free f \<longleftrightarrow> (\<forall>q d w. f (d, with_que q w) = map_state (apsnd (with_que q)) (f (d, w)))"

named_theorems queue_rules "closure of the code that does not look at the queue"

lemma map_state_comp: "map_state f (map_state g r) = map_state (\<lambda>s. f (g s)) r"
  by (cases r) simp_all

lemma with_que_fields [simp]:
  "w_ext (with_que q w) = w_ext w" "w_redis (with_que q w) = w_redis w"
  "w_mysql (with_que q w) = w_mysql w" "w_users (with_que q w) = w_users w"
  "w_sess (with_que q w) = w_sess w" "w_peers (with_que q w) = w_peers w"
  "w_msg_que (with_que q w) = q"
  by (simp_all add: with_que_def)

lemma with_que_updates [simp]:
  "(with_que q w)\<lparr>w_ext := x\<rparr> = with_que q (w\<lparr>w_ext := x\<rparr>)"
  "(with_que q w)\<lparr>w_redis := p\<rparr> = with_que q (w\<lparr>w_redis := p\<rparr>)"
  "(with_que q w)\<lparr>w_mysql := m\<rparr> = with_que q (w\<lparr>w_mysql := m\<rparr>)"
  "(with_que q w)\<lparr>w_users := u\<rparr> = with_que q (w\<lparr>w_users := u\<rparr>)"
  "(with_que q w)\<lparr>w_sess := s\<rparr> = with_que q (w\<lparr>w_sess := s\<rparr>)"
  "(with_que q w)\<lparr>w_peers := c\<rparr> = with_que q (w\<lparr>w_peers := c\<rparr>)"
  by (simp_all add: with_que_def)

lemma queue_free_mret [queue_rules]: "queue_free (mret a)" "queue_free (mthrow e)" "queue_free mundef"
  by (simp_all add: queue_free_def run_simps)

lemma queue_free_mlift [queue_rules]: "queue_free (mlift e v)"
  by (cases v) (simp_all add: queue_free_def run_simps)

lemma queue_free_mbind [queue_rules]:
  assumes "queue_free f" and "\<And>a. queue_free (g a)"
  shows "queue_free (mbind f g)"
  unfolding queue_free_def
proof (intro allI)
  fix q w
  show "mbind f g (with_que q w) = map_state (with_que q) (mbind f g w)"
    using assms by (cases "f w") (simp_all add: queue_free_def run_simps)
qed

lemma queue_free_mseq [queue_rules]: "queue_free f \<Longrightarrow> queue_free g \<Longrightarrow> queue_free (mseq f g)"
  unfolding mseq_def by (rule queue_free_mbind)

lemma queue_free_mfold [queue_rules]:
  assumes "\<And>x acc. queue_free (f x acc)"
  shows "queue_free (mfold f xs acc)"
  by (induction xs arbitrary: acc) (simp_all add: queue_rules assms)

lemma queue_free_if [queue_rules]: "queue_free f \<Longrightarrow> queue_free g \<Longrightarrow> queue_free (if b then f else g)"
  by simp

lemma queue_free_option [queue_rules]:
  "queue_free f \<Longrightarrow> (\<And>a. queue_free (g a)) \<Longrightarrow> queue_free (case v of None \<Rightarrow> f | Some a \<Rightarrow> g a)"
  by (cases v) simp_all

lemma queue_free_prod [queue_rules]:
  "(\<And>a b. queue_free (f a b)) \<Longrightarrow> queue_free (case p of (a, b) \<Rightarrow> f a b)"
  by (cases p) simp

lemma queue_free_mguard [queue_rules]: "queue_free f \<Longrightarrow> queue_free (mguard b f)"
  by (simp add: queue_free_def run_simps)

lemma queue_free_ignoring [queue_rules]: "queue_free f \<Longrightarrow> queue_free (ignoring f)"
  unfolding ignoring_def by (intro queue_rules)

lemma queue_free_stoi [queue_rules]: "queue_free (stoi s)"
  by (auto simp: stoi_def queue_free_def run_simps split: option.splits)

lemma queue_free_parts [queue_rules]:
  "queue_free (on_redis f)" "queue_free (on_mysql g)" "queue_free (on_peers h)"
  "queue_free (on_session ref k)" "queue_free (on_users u)"
  by (simp_all add: queue_free_def run_simps map_state_comp case_prod_unfold)

lemma queue_free_send_doc [queue_rules]: "queue_free (send_doc E ref msg r)"
  unfolding send_doc_def by (rule queue_free_parts)

lemma queue_free_users [queue_rules]: "queue_free (mget (\<lambda>w. um_getSession (w_users w) uid))"
  by (simp add: queue_free_def run_simps)

lemma doc_queue_free_rules [queue_rules]:
  "queue_free f \<Longrightarrow> doc_queue_free (on_snd f)" "doc_queue_free (mret a)" "doc_queue_free (mlift e v)"
  "doc_queue_free (put k d)" "doc_queue_free (put_error err)" "doc_queue_free (put_all kvs)"
  "doc_queue_free (put_list k ds)" "doc_queue_free (stoi s)"
  by (auto simp: doc_queue_free_def queue_free_def run_simps put_def put_error_def put_all_def put_list_def
      map_state_comp mlift_def stoi_def split: option.splits)

lemma doc_queue_free_mbind [queue_rules]:
  assumes "doc_queue_free f" and "\<And>a. doc_queue_free (g a)"
  shows "doc_queue_free (mbind f g)"
  unfolding doc_queue_free_def
proof (intro allI)
  fix q d w
  show "mbind f g (d, with_que q w) = map_state (apsnd (with_que q)) (mbind f g (d, w))"
    using assms by (cases "f (d, w)") (auto simp: doc_queue_free_def run_simps)
qed

lemma doc_queue_free_mseq [queue_rules]:
  "doc_queue_free f \<Longrightarrow> doc_queue_free g \<Longrightarrow> doc_queue_free (mseq f g)"
  unfolding mseq_def by (rule doc_queue_free_mbind)

lemma doc_queue_free_cases [queue_rules]:
  "doc_queue_free f \<Longrightarrow> doc_queue_free f' \<Longrightarrow> doc_queue_free (if b then f else f')"
  "doc_queue_free f \<Longrightarrow> (\<And>a. doc_queue_free (g a)) \<Longrightarrow> doc_queue_free (case v of None \<Rightarrow> f | Some a \<Rightarrow> g a)"
  "(\<And>a b. doc_queue_free (k a b)) \<Longrightarrow> doc_queue_free (case p of (a, b) \<Rightarrow> k a b)"
  by (simp_all split: option.splits prod.splits)

lemma queue_free_with_reply [queue_rules]:
  assumes "doc_queue_free body"
  shows "queue_free (with_reply E ref msg d body)"
  unfolding queue_free_def
proof (intro allI)
  fix q w
  have s: "send_doc E ref msg r (with_que q v) = map_state (with_que q) (send_doc E ref msg r v)" for r v
    using queue_free_send_doc [of E ref msg r] by (simp add: queue_free_def)
  show "with_reply E ref msg d body (with_que q w) = map_state (with_que q) (with_reply E ref msg d body w)"
  proof (cases "body (d, w)")
    case (Ret a p)
    obtain r v where "p = (r, v)" by fastforce
    with Ret assms s [of r v] show ?thesis
      by (cases "send_doc E ref msg r v") (simp_all add: with_reply_def Defer_def doc_queue_free_def)
  next
    case (Throw e p)
    obtain r v where "p = (r, v)" by fastforce
    with Throw assms s [of r v] show ?thesis
      by (cases "send_doc E ref msg r v") (simp_all add: with_reply_def Defer_def doc_queue_free_def)
  qed (use assms in \<open>simp_all add: with_reply_def Defer_def doc_queue_free_def map_state_comp case_prod_unfold\<close>)
qed

lemma queue_free_to_local_user [queue_rules]:
  "(\<And>s. queue_free (deliver s)) \<Longrightarrow> queue_free (to_local_user uid deliver)"
  unfolding to_local_user_def by (intro queue_rules)

lemma queue_free_json [queue_rules]:
  "queue_free (get_member J v k)" "queue_free (get_int J v k)" "queue_free (get_str J v k)"
  "queue_free (read_text J v msgs)" "doc_queue_free (get_member J v k)" "doc_queue_free (get_int J v k)"
  "doc_queue_free (get_str J v k)" "doc_queue_free (read_cached J t)"
  unfolding get_member_def get_int_def get_str_def read_text_def read_cached_def Let_def
  by (intro queue_rules)+

section \<open>The handlers\<close>

lemma queue_free_base [queue_rules]:
  "queue_free (ls_getBaseInfo E k uid)" "queue_free (cache_user E k u t)"
  "queue_free (ls_getFriendApplyInfo E uid as)" "queue_free (ls_getFriendList E uid us)"
  unfolding ls_getBaseInfo_def cache_user_def ls_getFriendApplyInfo_def ls_getFriendList_def Let_def
  by (intro queue_rules)+

lemma queue_free_login [queue_rules]: "queue_free (loginHandler E ref data)"
  unfolding loginHandler_def login_user_def login_finish_def login_store_def read_count_def write_count_def Let_def
  by (intro queue_rules)

lemma queue_free_search [queue_rules]: "queue_free (searchUserHandler E ref data)"
  unfolding searchUserHandler_def getUserByUid_def getUserByName_def found_or_load_def
  by (intro queue_rules)

lemma queue_free_add [queue_rules]: "queue_free (addFriendHandler E ref data)"
  unfolding addFriendHandler_def add_friend_steps_def Let_def by (intro queue_rules)

lemma queue_free_auth [queue_rules]: "queue_free (authFriendHandler E ref data)"
  unfolding authFriendHandler_def auth_friend_steps_def Let_def by (intro queue_rules)

lemma queue_free_chat [queue_rules]: "queue_free (chatTextMsgHandler E ref data)"
  unfolding chatTextMsgHandler_def text_steps_def Let_def by (intro queue_rules)

lemma queue_free_run_callback: "queue_free (run_callback E node)"
  unfolding run_callback_def registerCallBacks_def node_text_def
  by (auto intro!: queue_rules split: option.splits if_splits)


section \<open>The worker handles the queue in order\<close>

fun handle_all :: "('x, 'row, 'j) env \<Rightarrow> logic_node list \<Rightarrow> (unit, 'x world) m" where
  "handle_all E [] = mret ()"
| "handle_all E (node # nodes) = mseq (run_callback E node) (handle_all E nodes)"

lemma with_que_twice [simp]: "with_que p (with_que q w) = with_que p w"
  by (simp add: with_que_def)

lemma with_que_self [simp]: "with_que (w_msg_que w) w = w"
  by (simp add: with_que_def)

lemma run_callback_with_que:
  "run_callback E node (with_que q w) = map_state (with_que q) (run_callback E node w)"
  using queue_free_run_callback by (auto simp: queue_free_def)

lemma pop_with_que: "pop_msg (with_que q w) = Ret () (with_que (tl q) w)"
  by (simp add: pop_msg_def run_simps) (simp add: with_que_def)

lemma deal_queue_step:
  "deal_queue E (Suc k) (with_que (node # q) w) = (case run_callback E node w of
      Ret a v \<Rightarrow> deal_queue E k (with_que q v)
    | Throw e v \<Rightarrow> Throw e (with_que (node # q) v)
    | Blocked v \<Rightarrow> Blocked (with_que (node # q) v)
    | Abort \<Rightarrow> Abort
    | Undef \<Rightarrow> Undef)"
  by (cases "run_callback E node w")
    (simp_all add: deal_one_def run_simps run_callback_with_que pop_with_que)

lemma deal_queue_runs:
  "case handle_all E (take n q) w of
      Ret _ v \<Rightarrow> deal_queue E n (with_que q w) = Ret (length q \<le> n) (with_que (drop n q) v)
    | r \<Rightarrow> map_state (with_que []) (deal_queue E n (with_que q w)) = map_state (with_que []) (mseq (\<lambda>_. r) (mret True) w)"
proof (induction q arbitrary: n w)
  case Nil
  then show ?case by (cases n) (simp_all add: run_simps)
next
  case (Cons node q)
  show ?case
  proof (cases n)
    case 0
    then show ?thesis by (simp add: run_simps)
  next
    case (Suc m)
    show ?thesis
    proof (cases "run_callback E node w")
      case (Ret a v)
      with Cons.IH [of m v] show ?thesis
        unfolding Suc take_Suc_Cons drop_Suc_Cons deal_queue_step handle_all.simps mseq_run Ret outcome.case
        by (auto split: outcome.splits)
    qed (simp_all add: Suc deal_queue_step run_simps del: deal_queue.simps)
  qed
qed

lemma on_thread_map_state: "map_state f (on_thread g w) = (case g w of Throw e v \<Rightarrow> Abort | r \<Rightarrow> map_state f r)"
  by (simp add: on_thread_def split: outcome.splits)

lemma dealMsg_eq: "map_state (with_que []) (dealMsg E w) = map_state (with_que []) (on_thread (handle_all E (w_msg_que w)) w)"
  using deal_queue_runs [of E "length (w_msg_que w)" "w_msg_que w" w]
  by (cases "handle_all E (w_msg_que w) w"; cases "deal_queue E (length (w_msg_que w)) w")
    (simp_all add: dealMsg_def on_thread_def run_simps)

lemma dealMsg_empties: "dealMsg E w = Ret () v \<Longrightarrow> w_msg_que v = []"
  using deal_queue_runs [of E "length (w_msg_que w)" "w_msg_que w" w]
  by (cases "handle_all E (w_msg_que w) w"; cases "deal_queue E (length (w_msg_que w)) w")
    (auto simp: dealMsg_def on_thread_def run_simps)

text \<open>
  C6. The worker is equivalent to running the handlers of the queued messages one after the other,
  in the order they were posted, a message with an unknown id being skipped; when it comes back the
  queue is empty; and a handler that throws ends the process.
\<close>

theorem dealMsg_in_order:
  "map_state (with_que []) (dealMsg E w) =
      map_state (with_que []) (on_thread (handle_all E (w_msg_que w)) w) \<and>
    (case dealMsg E w of Ret _ w' \<Rightarrow> w_msg_que w' = [] | Throw _ _ \<Rightarrow> False | _ \<Rightarrow> True)"
proof (rule conjI [OF dealMsg_eq])
  show "case dealMsg E w of Ret _ w' \<Rightarrow> w_msg_que w' = [] | Throw _ _ \<Rightarrow> False | _ \<Rightarrow> True"
    using dealMsg_empties [of E w]
    by (cases "mbind (deal_queue E (length (w_msg_que w))) (\<lambda>ended. if ended then mret () else Blocked) w")
      (simp_all add: dealMsg_def on_thread_def)
qed

text \<open>
  C37. The worker's loop comes to its end in exactly as many turns as there are messages: with \<open>n\<close> turns,
  as long as the handlers return, exactly the first \<open>n\<close> messages are handled and taken off, unknown ids
  included, and the loop is over if and only if there were no more than \<open>n\<close>: no message makes it go on for
  ever. A handler that does not return is where the loop stops.
\<close>

theorem deal_queue_bound:
  "case handle_all E (take n (w_msg_que w)) w of
      Ret _ v \<Rightarrow> deal_queue E n w = Ret (length (w_msg_que w) \<le> n) (with_que (drop n (w_msg_que w)) v)
    | _ \<Rightarrow> (case deal_queue E n w of Ret _ _ \<Rightarrow> False | _ \<Rightarrow> True)"
  using deal_queue_runs [of E n "w_msg_que w" w]
  by (cases "handle_all E (take n (w_msg_que w)) w"; cases "deal_queue E n w") (simp_all add: run_simps)

end
