(* ===== verification/EndToEnd.thy ===== *)
theory EndToEnd
  imports Dispatch
begin

text \<open>
  The components together: a login from the bytes on the wire to the bytes of the reply, a message
  that ends the process, a client that goes away, and headers the session does not accept.
\<close>

section \<open>From the bytes of a packet to the reply\<close>

lemma node_text_full:
  assumes "length body \<le> 2048"
  shows "node_text (full_node msgid body) = mret body"
  using sint_nat16 [OF assms]
  by (intro ext) (simp add: node_text_def full_node_def Let_def run_simps)

lemma run_callback_node:
  assumes "length body \<le> 2048"
  shows "run_callback E (node_for ref (msgid, body)) = (case registerCallBacks E msgid of
      None \<Rightarrow> mret () | Some callback \<Rightarrow> callback ref body)"
proof -
  have m: "rn_msg_id (full_node msgid body) = msgid" by (simp add: full_node_def Let_def)
  show ?thesis
    by (intro ext)
      (simp add: run_callback_def node_for_def m node_text_full [OF assms] run_simps split: option.splits)
qed

lemma map_state_Ret_iff: "map_state f r = Ret a t \<longleftrightarrow> (\<exists>s. r = Ret a s \<and> t = f s)"
  by (cases r) auto


text \<open>One packet, however it is cut, on an empty queue: its callback runs on the session's message.\<close>

lemma packet_handled:
  assumes "net_order (e_host E)" and "waits_head [] (w_sess w ref)" and "good_packet (msgid, body)"
    and "\<forall>k \<in> set ks. 0 < k" and "length (packet_bytes (msgid, body)) \<le> length ks"
    and "w_msg_que w = []"
  shows "\<exists>s. waits_head [] s \<and> same_sender (w_sess w ref) s \<and>
    map_state (with_que []) (mseq (feed E ref (packet_bytes (msgid, body)) ks) (dealMsg E) w) =
    map_state (with_que []) (on_thread (case registerCallBacks E msgid of
      None \<Rightarrow> mret () | Some callback \<Rightarrow> callback ref body) (put_sess ref s w))"
proof -
  let ?node = "node_for ref (msgid, body)"
  have b: "length body \<le> 2048" using assms(3) by (simp add: good_packet_def)
  from feed_run [OF assms(1,2), of "[(msgid, body)]" ks] assms(3-6) obtain s where
    s: "waits_head [] s" "same_sender (w_sess w ref) s"
      "feed E ref (packet_bytes (msgid, body)) ks w = Ret () (with_que [?node] (put_sess ref s w))"
    by (auto simp: with_que_def)
  have "mseq (feed E ref (packet_bytes (msgid, body)) ks) (dealMsg E) w =
      dealMsg E (with_que [?node] (put_sess ref s w))"
    by (simp only: mseq_run s(3) outcome.case)
  moreover have "map_state (with_que []) (dealMsg E (with_que [?node] (put_sess ref s w))) =
      map_state (with_que []) (on_thread (run_callback E ?node) (put_sess ref s w))"
    using dealMsg_eq [of E "with_que [?node] (put_sess ref s w)"]
    by (cases "run_callback E ?node (put_sess ref s w)")
      (simp_all add: on_thread_def run_simps run_callback_with_que)
  ultimately have "map_state (with_que []) (mseq (feed E ref (packet_bytes (msgid, body)) ks) (dealMsg E) w) =
      map_state (with_que []) (on_thread (case registerCallBacks E msgid of
        None \<Rightarrow> mret () | Some callback \<Rightarrow> callback ref body) (put_sess ref s w))"
    by (simp only: run_callback_node [OF b])
  with s(1,2) show ?thesis by blast
qed

lemma login_callback: "registerCallBacks E (msg_id MSG_CHAT_LOGIN) = Some (loginHandler E)"
  by (simp add: registerCallBacks_def)

lemma login_packet:
  assumes "net_order (e_host E)" and "waits_head [] (w_sess w ref)" and "w_msg_que w = []"
    and "data \<noteq> []" and "length data \<le> 2048"
    and "\<forall>k \<in> set ks. 0 < k" and "length data + 4 \<le> length ks"
  shows "\<exists>s. waits_head [] s \<and> same_sender (w_sess w ref) s \<and>
    map_state (with_que []) (mseq (feed E ref (packet_bytes (msg_id MSG_CHAT_LOGIN, data)) ks) (dealMsg E) w) =
    map_state (with_que []) (on_thread (loginHandler E ref data) (put_sess ref s w))"
proof -
  have g: "good_packet (msg_id MSG_CHAT_LOGIN, data)" using assms(4,5) by (simp add: good_packet_def)
  have l: "length (packet_bytes (msg_id MSG_CHAT_LOGIN, data)) \<le> length ks"
    using assms(7) by (simp add: packet_bytes_eq be16_def)
  from packet_handled [OF assms(1,2) g assms(6) l assms(3)] show ?thesis
    unfolding login_callback option.case .
qed


text \<open>What a session's send queue is after a reply was handed to an idle session.\<close>

lemma sent_idle:
  assumes "net_order (e_host E)" and "cs_send_que s = []"
    and "txt = j_styled (e_json E) d" and "txt \<noteq> []" and "length txt \<le> 2048"
  shows "cs_wire (sent E msg d s) = cs_wire s @ [msg_packet txt (msg_id msg)] \<and>
    cs_writing (sent E msg d s) \<and> cs_read (sent E msg d s) = cs_read s"
proof -
  have a: "cs_accepts txt s" using assms(2,4,5) by (simp add: cs_accepts_def limit_defs)
  from cs_send_accepts [OF assms(1) this, of "msg_id msg"] show ?thesis
    using assms(2,3) by (auto simp: sent_def)
qed

lemma login_spec_reply:
  "v_kv v' = v_kv v \<Longrightarrow> v_db v' = v_db v \<Longrightarrow>
    fst (login_spec E D ref uid token n v') = fst (login_spec E D ref uid token n v)"
  by (simp add: login_spec_def split: option.splits)

lemma login_spec_sender:
  "cs_send_que (v_sess (snd (login_spec E D ref uid token n v)) r) = cs_send_que (v_sess v r) \<and>
   cs_wire (v_sess (snd (login_spec E D ref uid token n v)) r) = cs_wire (v_sess v r) \<and>
   cs_read (v_sess (snd (login_spec E D ref uid token n v)) r) = cs_read (v_sess v r)"
  using login_spec_state [of E D ref uid token n v]
  by (auto simp: logged_in_def Let_def cs_setUserId_def)

text \<open>
  C5. A login from bytes to bytes: the packet of a login message arrives at an idle session, in
  whatever chunks; the session posts it, the worker handles it, and exactly one packet goes out, the
  reply of \<open>login_spec\<close> under the id of the login response; the session waits for the next header
  and the queue is empty again.
\<close>

theorem login_bytes_to_bytes:
  assumes "services E V D" and "net_order (e_host E)" and "ready w"
    and "waits_head [] (w_sess w ref)" and "cs_send_que (w_sess w ref) = []" and "w_msg_que w = []"
    and "login_msg (e_json E) data uid token" and "data \<noteq> []" and "length data \<le> 2048"
    and "\<forall>k \<in> set ks. 0 < k" and "length data + 4 \<le> length ks"
    and "count_is E (view_of V D w) n" and "sint n < 2 ^ 31 - 1"
    and "txt = j_styled (e_json E) (fst (login_spec E D ref uid token n (view_of V D w)))"
    and "txt \<noteq> []" and "length txt \<le> 2048"
  shows "\<exists>w'. mseq (feed E ref (packet_bytes (msg_id MSG_CHAT_LOGIN, data)) ks) (dealMsg E) w = Ret () w' \<and>
    cs_wire (w_sess w' ref) = cs_wire (w_sess w ref) @ [msg_packet txt (msg_id MSG_CHAT_LOGIN_RSP)] \<and>
    cs_read (w_sess w' ref) = Some \<lparr>ro_kind = ReadHead, ro_read_len = 0, ro_total_len = 4\<rparr> \<and>
    w_msg_que w' = [] \<and> ready w'"
proof -
  from login_packet [OF assms(2,4,6,8-11)] obtain s where
    s: "waits_head [] s" "same_sender (w_sess w ref) s" and
    m: "map_state (with_que []) (mseq (feed E ref (packet_bytes (msg_id MSG_CHAT_LOGIN, data)) ks) (dealMsg E) w) =
      map_state (with_que []) (on_thread (loginHandler E ref data) (put_sess ref s w))"
    by blast
  define v where "v = view_of V D (put_sess ref s w)"
  have rv: "ready (put_sess ref s w)" "v_kv v = v_kv (view_of V D w)" "v_db v = v_db (view_of V D w)"
    "v_sess v ref = s" "count_is E v n"
    using assms(3,12) by (simp_all add: v_def view_of_def ready_def count_is_def)
  let ?r = "login_spec E D ref uid token n v"
  from computesD [OF login_run_msg [OF assms(1,2,7) rv(5) assms(13), of ref] rv(1) v_def [symmetric]]
  obtain w1 where w1: "loginHandler E ref data (put_sess ref s w) = Ret () w1" "ready w1"
    "view_of V D w1 = reply_sent E ref MSG_CHAT_LOGIN_RSP ?r" by blast
  from m w1(1) have "\<exists>w'. mseq (feed E ref (packet_bytes (msg_id MSG_CHAT_LOGIN, data)) ks) (dealMsg E) w = Ret () w' \<and>
      with_que [] w1 = with_que [] w'"
    by (simp add: on_thread_def map_state_Ret_iff)
  then obtain w' where
    w': "mseq (feed E ref (packet_bytes (msg_id MSG_CHAT_LOGIN, data)) ks) (dealMsg E) w = Ret () w'"
      "with_que [] w1 = with_que [] w'" by blast
  have ss: "w_sess w' = w_sess w1" "w_redis w' = w_redis w1" "w_mysql w' = w_mysql w1"
    using arg_cong [OF w'(2), of w_sess] arg_cong [OF w'(2), of w_redis] arg_cong [OF w'(2), of w_mysql]
    by simp_all
  have t: "txt = j_styled (e_json E) (fst ?r)"
    using assms(14) by (simp add: login_spec_reply [OF rv(2,3)])
  have f: "w_sess w1 ref = sent E MSG_CHAT_LOGIN_RSP (fst ?r) (v_sess (snd ?r) ref)"
    using arg_cong [OF w1(3), of v_sess] by (simp add: view_of_def reply_sent_def)
  have e: "cs_send_que (v_sess (snd ?r) ref) = []" "cs_wire (v_sess (snd ?r) ref) = cs_wire (w_sess w ref)"
    "cs_read (v_sess (snd ?r) ref) = cs_read s"
    using login_spec_sender [of E D ref uid token n v ref] rv(4) s(2) assms(5)
    by (simp_all add: same_sender_def)
  from sent_idle [OF assms(2) e(1) t assms(15,16), of MSG_CHAT_LOGIN_RSP]
  have "cs_wire (w_sess w' ref) = cs_wire (w_sess w ref) @ [msg_packet txt (msg_id MSG_CHAT_LOGIN_RSP)]"
    "cs_read (w_sess w' ref) = Some \<lparr>ro_kind = ReadHead, ro_read_len = 0, ro_total_len = 4\<rparr>"
    using s(1) f e by (simp_all add: ss waits_head_def)
  moreover have "ready w'" using w1(2) by (simp add: ready_def ss)
  moreover have "w_msg_que w' = []"
  proof -
    obtain w2 where "dealMsg E w2 = Ret () w'"
      using w'(1) by (auto simp: mseq_run split: outcome.splits)
    then show ?thesis using dealMsg_empties by blast
  qed
  ultimately show ?thesis using w'(1) by blast
qed

section \<open>Headers that are not accepted\<close>

lemma head_arrives:
  assumes "net_order (e_host E)" and "waits_head [] (w_sess w ref)"
  shows "\<exists>s. same_sender (w_sess w ref) s \<and> cs_read s = None \<and>
    cs_read_some E ref True (be16 msgid @ be16 len) w =
      catch_std
        (if sint msgid > MAX_LENGTH then (\<lambda>w. sv_ClearSession (cs_id (w_sess w ref)) w)
         else if sint len > MAX_LENGTH then (\<lambda>w. sv_ClearSession (cs_id (w_sess w ref)) w)
         else mbind (RecvNode_new len msgid) (\<lambda>node.
           on_session ref (mmodify (\<lambda>s. cs_AsyncReadBody (sint len) (s\<lparr>cs_recv_msg := Some node\<rparr>)))))
        (\<lambda>_. mret ()) (put_sess ref s w)"
proof -
  let ?s = "w_sess w ref" and ?b = "be16 msgid @ be16 len"
  have lb: "length ?b = 4" by (simp add: be16_def)
  with holds_write [of "[]" ?s ?b] assms(2) obtain d where
    d: "write_at 0 ?b (cs_data ?s) = Some d" "length d = 2048" "take 4 d = ?b"
    by (auto simp: waits_head_def)
  let ?s1 = "?s\<lparr>cs_data := d, cs_read := None\<rparr>"
  have "head_ok ?s1" using assms(2) by (simp add: waits_head_def head_ok_def)
  from head_fields_run [OF assms(1) this d(2)] d(3) obtain h where
    h: "head_fields (e_host E) 4 ?s1 = Ret (msgid, len) (?s1\<lparr>cs_head := h\<rparr>)"
    by (force simp: be16_def)
  let ?s2 = "?s1\<lparr>cs_head := h\<rparr>"
  from lb d(1) h assms(2) show ?thesis
    by (intro exI [of _ ?s2])
      (simp add: cs_read_some_def waits_head_def Let_def cs_on_head_def run_simps limit_defs same_sender_def
        split: outcome.splits)
qed

text \<open>
  C26. A header outside the limits does not close the session. An id or a length above 2048 takes
  the session out of the server's table, but its user stays logged in and registered, its socket
  stays open, and nothing reads from it any more; a length below -1 is an exception that is swallowed,
  with the same silence and the session still in the table; a length of -1 writes before a buffer.
\<close>

theorem header_out_of_bounds:
  assumes "net_order (e_host E)" and "waits_head [] (w_sess w ref)"
  shows "\<exists>s. same_sender (w_sess w ref) s \<and> cs_read s = None \<and>
    (sint msgid > 2048 \<or> sint len > 2048 \<longrightarrow> cs_read_some E ref True (be16 msgid @ be16 len) w =
      Ret () ((put_sess ref s w)\<lparr>w_sessions := (w_sessions w)(cs_id (w_sess w ref) := None)\<rparr>)) \<and>
    (sint msgid \<le> 2048 \<and> sint len < -1 \<longrightarrow>
      cs_read_some E ref True (be16 msgid @ be16 len) w = Ret () (put_sess ref s w)) \<and>
    (sint msgid \<le> 2048 \<and> sint len = -1 \<longrightarrow> cs_read_some E ref True (be16 msgid @ be16 len) w = Undef)"
proof -
  from head_arrives [OF assms, of msgid len] obtain s where
    s: "same_sender (w_sess w ref) s" "cs_read s = None" and
    r: "cs_read_some E ref True (be16 msgid @ be16 len) w =
      catch_std
        (if sint msgid > MAX_LENGTH then (\<lambda>w. sv_ClearSession (cs_id (w_sess w ref)) w)
         else if sint len > MAX_LENGTH then (\<lambda>w. sv_ClearSession (cs_id (w_sess w ref)) w)
         else mbind (RecvNode_new len msgid) (\<lambda>node.
           on_session ref (mmodify (\<lambda>s. cs_AsyncReadBody (sint len) (s\<lparr>cs_recv_msg := Some node\<rparr>)))))
        (\<lambda>_. mret ()) (put_sess ref s w)" by blast
  have i: "cs_id s = cs_id (w_sess w ref)" using s(1) by (simp add: same_sender_def)
  show ?thesis
    using s i
    by (intro exI [of _ s]) (auto simp: r run_simps limit_defs sv_erase_def RecvNode_new_def MsgNode_new_def)
qed

section \<open>A client that goes away\<close>

text \<open>
  C25. When the read of a session fails, the session is logged out and closed and leaves the table:
  the counter goes down by one, the user has no session, and every other session is what it was.
  What stays is the entry in Redis that says on which server the user is.
\<close>

theorem lost_connection_logs_out:
  assumes "services E V D" and "quiet_close E V D" and "ready w" and "count_is E (view_of V D w) n"
    and "cs_read (w_sess w ref) = Some rop" and "ro_read_len rop \<le> length (cs_data (w_sess w ref))"
    and "\<not> cs_b_close (w_sess w ref)" and "0 < sint (cs_uid (w_sess w ref))" and "0 < sint n"
    and "cstr (self_name E) = self_name E"
  shows "\<exists>w'. cs_read_some E ref False [] w = Ret () w' \<and> ready w' \<and>
    count_is E (view_of V D w') (n - 1) \<and> w_users w' = (w_users w)(cs_uid (w_sess w ref) := None) \<and>
    w_sessions w' = (w_sessions w)(cs_id (w_sess w ref) := None) \<and>
    cs_b_close (w_sess w' ref) \<and> \<not> cs_open (w_sess w' ref) \<and> cs_read (w_sess w' ref) = None \<and>
    kv V (w_ext w') = kv V (w_ext w) \<and>
    (\<forall>r. r \<noteq> ref \<longrightarrow> w_sess w' r = w_sess w r)"
proof -
  let ?s = "w_sess w ref"
  define w1 where "w1 = put_sess ref (?s\<lparr>cs_read := None\<rparr>) w"
  have wr: "write_at (ro_read_len rop) [] (cs_data ?s) = Some (cs_data ?s)"
    using assms(6) by (simp add: write_at_def)
  have e: "cs_read_some E ref False [] w = catch_std (cs_drop E ref) (\<lambda>_. mret ()) w1"
    using assms(5) wr
    by (cases "ro_kind rop") (simp_all add: cs_read_some_def Let_def cs_on_head_def cs_on_body_def w1_def)
  let ?v = "view_of V D w1"
  have r1: "ready w1" "count_is E ?v n" "v_sess ?v ref = ?s\<lparr>cs_read := None\<rparr>" "v_users ?v = w_users w"
    using assms(3,4) by (simp_all add: w1_def ready_def view_of_def count_is_def)
  from computesD [OF close_run [OF assms(1,2) r1(2), of ref] r1(1) refl] obtain w2 where
    w2: "cs_close E ref w1 = Ret () w2" "ready w2" "view_of V D w2 = closed E ref n ?v" by blast
  let ?w = "w2\<lparr>w_sessions := (w_sessions w2)(cs_id (w_sess w2 ref) := None)\<rparr>"
  have c: "closed E ref n ?v = (set_count E (n - 1) ?v)
      \<lparr>v_users := (w_users w)(cs_uid ?s := None),
       v_sess := (v_sess ?v)(ref := ?s\<lparr>cs_read := None, cs_uid := 0, cs_open := False, cs_b_close := True\<rparr>)\<rparr>"
    using assms(7-9) r1(3,4) by (simp add: closed_def Let_def)
  have parts: "w_users w2 = (w_users w)(cs_uid ?s := None)" "w_sessions w2 = w_sessions w"
    "w_sess w2 = (w_sess w)(ref := ?s\<lparr>cs_read := None, cs_uid := 0, cs_open := False, cs_b_close := True\<rparr>)"
    using arg_cong [OF w2(3), of v_users] arg_cong [OF w2(3), of v_sessions] arg_cong [OF w2(3), of v_sess]
    unfolding c by (simp_all add: view_of_def set_count_def w1_def)
  have k: "kv V (w_ext w2) = kv V (w_ext w)"
    using arg_cong [OF w2(3), of v_kv] unfolding c by (simp add: view_of_def set_count_def w1_def)
  have n: "count_is E (view_of V D w2) (n - 1)"
    using w2(3) count_is_set_count [OF assms(10) count_is_hash [OF r1(2)], of "n - 1"] by (simp add: c count_is_def)
  have "cs_read_some E ref False [] w = Ret () ?w"
    using e w2(1) by (simp add: cs_drop_def run_simps sv_erase_def)
  moreover have "ready ?w" "count_is E (view_of V D ?w) (n - 1)"
    using w2(2) n by (simp_all add: ready_def view_of_def count_is_def)
  ultimately show ?thesis using parts k by (intro exI [of _ ?w]) simp
qed

end
