(* ===== verification/CrossServer.thy ===== *)
theory CrossServer
  imports FriendSpec
begin

text \<open>
  The calls other servers make (\<open>ChatServiceImpl\<close>) as functions of the view, and two servers joined
  by the RPC library: a chat message that crosses from one to the other, and the two ways a friend
  request and its acceptance can take.
\<close>

section \<open>The calls of other servers\<close>

lemma text_array_of: "fold jappend (map f ts) (DArr ds) = DArr (ds @ map f ts)"
  by (induction ts arbitrary: ds) simp_all

lemma text_array_all: "ts \<noteq> [] \<Longrightarrow> fold jappend (map f ts) DNull = DArr (map f ts)"
  by (cases ts) (simp_all add: text_array_of)

lemma svc_text_run:
  assumes "net_order (e_host E)"
  shows "computes V D (svc_NotifyTextChatMsg E req reply) v (reply\<lparr>tcr_error := error_code SUCCESS\<rparr>)
    (delivered E (tcq_touid req) MSG_NOTIFY_TEXT_CHAT_MSG_REQ (text_notify req) v)"
  unfolding svc_NotifyTextChatMsg_def
  by (rule computes_mseq [OF computes_deliver [OF assms] computes_mret])

section \<open>Two servers\<close>

text \<open>
  The RPC library between two servers, as documented: a unary call runs the handler of the other
  server once, on a fresh reply, and brings the reply back with the status OK; a handler that does
  not return is a failed status. \<open>peer\<close> and \<open>put_peer\<close> find the other server in the outside world.
\<close>

definition carries_text ::
  "('x, 'row, 'j) env \<Rightarrow> ('y, 'row2, 'j2) env \<Rightarrow> ('x \<Rightarrow> 'y world) \<Rightarrow> ('y world \<Rightarrow> 'x \<Rightarrow> 'x) \<Rightarrow> bool" where
  "carries_text E E2 peer put_peer \<longleftrightarrow>
    (\<forall>c req rsp x. rpc_text (e_rpc E) c req rsp x =
      (case svc_NotifyTextChatMsg E2 req new_TextChatMsgRsp (peer x) of
         Ret r y \<Rightarrow> ((True, r), put_peer y x)
       | _ \<Rightarrow> ((False, rsp), x))) \<and>
    (\<forall>y x. peer (put_peer y x) = y)"

text \<open>
  C9. A text message for a user of another server arrives there: the sender's server makes the call,
  the other server hands the recipient's session one notification, with the sender, the recipient
  and all texts in order.
\<close>

theorem chat_text_crosses:
  fixes E :: "('x, 'row, 'j) env" and E2 :: "('y, 'row2, 'j2) env"
  assumes "services E V D" and "ready w" and "kv V (w_ext w) (USERIPPREFIX @ to_string touid) = Some ip"
    and "cstr ip = server" and "server \<noteq> self_name E"
    and "w_peers w server = Some pool" and "\<not> cp_stop pool" and "cp_conns pool = c # cs"
    and "\<forall>s :: 'x world. mfold (read_text (e_json E)) (j_elements (e_json E) arr) [] s = Ret msgs s"
    and "msgs \<noteq> []"
    and "carries_text E E2 peer put_peer" and "net_order (e_host E2)" and "ready (peer (w_ext w))"
    and "w_users (peer (w_ext w)) touid = Some s"
  shows "\<exists>w' d. text_steps E fromuid touid arr w = Ret () w' \<and>
    w_sess (peer (w_ext w')) s =
      sent E2 MSG_NOTIFY_TEXT_CHAT_MSG_REQ d (w_sess (peer (w_ext w)) s) \<and>
    jget ''fromuid'' d = Some (DInt fromuid) \<and> jget ''touid'' d = Some (DInt touid) \<and>
    jget ''text_array'' d = Some (DArr (map text_element msgs))"
proof -
  let ?q = "\<lparr>tcq_fromuid = fromuid, tcq_touid = touid, tcq_textmsgs = msgs\<rparr>"
  let ?b = "peer (w_ext w)"
  from text_forward_run [OF assms(1-9), of fromuid] obtain w' where
    w': "text_steps E fromuid touid arr w = Ret () w'"
      "w_ext w' = snd (rpc_text (e_rpc E) c ?q (new_TextChatMsgRsp\<lparr>tcr_error := error_code SUCCESS\<rparr>) (w_ext w))"
    by blast
  define V2 :: "'y redis_view" where "V2 = \<lparr>kv = \<lambda>_ _. None, hkv = \<lambda>_ _ _. None\<rparr>"
  define D2 :: "('y, 'row2, unit) db_view" where
    "D2 = \<lparr>db_of = \<lambda>_. (), db_query = \<lambda>_ _ _. None, db_update = \<lambda>_ _ _. (None, ())\<rparr>"
  from computesD [OF svc_text_run [OF assms(12), of V2 D2 ?q new_TextChatMsgRsp "view_of V2 D2 ?b"] assms(13) refl]
  obtain y where y: "svc_NotifyTextChatMsg E2 ?q new_TextChatMsgRsp ?b =
      Ret (new_TextChatMsgRsp\<lparr>tcr_error := error_code SUCCESS\<rparr>) y"
    "view_of V2 D2 y = delivered E2 touid MSG_NOTIFY_TEXT_CHAT_MSG_REQ (text_notify ?q) (view_of V2 D2 ?b)"
    by auto
  have "peer (w_ext w') = y" using assms(11) w'(2) y(1) by (cases c) (simp add: carries_text_def)
  moreover have "w_sess y s = sent E2 MSG_NOTIFY_TEXT_CHAT_MSG_REQ (text_notify ?q) (w_sess ?b s)"
    using arg_cong [OF y(2), of v_sess] assms(14) by (simp add: view_of_def delivered_def)
  moreover have "jget ''fromuid'' (text_notify ?q) = Some (DInt fromuid)"
    "jget ''touid'' (text_notify ?q) = Some (DInt touid)"
    "jget ''text_array'' (text_notify ?q) = Some (DArr (map text_element msgs))"
    using assms(10) by (simp_all add: text_notify_def text_array_all)
  ultimately show ?thesis
    using w'(1) by (intro exI [of _ w'] exI [of _ "text_notify ?q"]) simp
qed


section \<open>Friend requests on both ways\<close>

lemma svc_add_run:
  assumes "net_order (e_host E)"
  shows "computes V D (svc_NotifyAddFriend E req reply) v
    (reply\<lparr>afr_error := error_code SUCCESS, afr_applyuid := afq_applyuid req, afr_touid := afq_touid req\<rparr>)
    (delivered E (afq_touid req) MSG_NOTIFY_ADDFRIEND_REQ (remote_add_notify req) v)"
  unfolding svc_NotifyAddFriend_def
  by (rule computes_mseq [OF computes_deliver [OF assms] computes_mret])

lemma notify_members:
  assumes "case info of None \<Rightarrow> True | Some u \<Rightarrow> cstr (ui_icon u) = ui_icon u \<and> cstr (ui_nick u) = ui_nick u"
  shows "jget k (remote_add_notify (add_request uid name alias_name touid info)) =
    jget k (add_notify uid name alias_name info)"
  using assms
  by (cases info) (auto simp: remote_add_notify_def add_notify_def add_request_def Let_def new_AddFriendReq_def)

text \<open>
  C20. A friend request reaches a user in the same form whether both users are on one server or on
  two: the notification a user of another server gets, built there from the call, has member by
  member what the local notification has, for records without NUL characters.
\<close>

theorem add_notify_paths_agree:
  assumes "net_order (e_host E2)" and "v_users v touid = Some s"
    and "case info of None \<Rightarrow> True | Some u \<Rightarrow> cstr (ui_icon u) = ui_icon u \<and> cstr (ui_nick u) = ui_nick u"
  shows "\<exists>d reply'. (\<forall>k. jget k d = jget k (add_notify uid name alias_name info)) \<and>
    computes V D (svc_NotifyAddFriend E2 (add_request uid name alias_name touid info) reply) v reply'
      (v\<lparr>v_sess := (v_sess v)(s := sent E2 MSG_NOTIFY_ADDFRIEND_REQ d (v_sess v s))\<rparr>) \<and>
    afr_error reply' = error_code SUCCESS \<and> afr_touid reply' = touid"
proof -
  have t: "afq_touid (add_request uid name alias_name touid info) = touid"
    by (simp add: add_request_def Let_def split: option.splits)
  let ?r = "add_request uid name alias_name touid info"
  let ?d = "remote_add_notify ?r" and ?reply = "reply\<lparr>afr_error := error_code SUCCESS,
      afr_applyuid := afq_applyuid ?r, afr_touid := touid\<rparr>"
  have "computes V D (svc_NotifyAddFriend E2 ?r reply) v ?reply
      (v\<lparr>v_sess := (v_sess v)(s := sent E2 MSG_NOTIFY_ADDFRIEND_REQ ?d (v_sess v s))\<rparr>)"
    using svc_add_run [OF assms(1), of V D ?r reply v] assms(2) by (simp add: t delivered_def)
  moreover have "\<forall>k. jget k ?d = jget k (add_notify uid name alias_name info)"
    by (simp add: notify_members [OF assms(3)])
  ultimately show ?thesis by (intro exI [of _ ?d] exI [of _ ?reply]) simp
qed

section \<open>Acceptances on both ways\<close>

text \<open>
  C21. The applicant hears of an acceptance in the same form on every server: the document that the
  accepter's server hands to an applicant of its own is the one another server, asked to notify its
  applicant, puts together from the shared database and the cached record of the accepter, with the applicant's
  alias for them; and the call reports success.
\<close>

theorem auth_notify_paths_agree:
  assumes "services E2 V2 D" and "net_order (e_host E2)" and "e_sql E2 = e_sql E"
    and "v_db w = accepted E D applicant accepter alias_name (v_db v)"
    and "user_of (e_sql E) D accepter (v_db w) = Some u"
    and "v_kv w (USER_BASE_INFO @ to_string accepter) = Some txt" and "cstr txt = txt"
    and "reads_back (e_json E2) txt (user_doc u)"
    and "home_of applicant v = Some (self_name E)" and "v_users v applicant = Some s"
    and "v_users w applicant = Some s2"
  shows "\<exists>d. auth_spec E D applicant accepter alias_name v =
      delivered E applicant MSG_NOTIFY_AUTH_FRIEND_REQ d (based E D accepter (v\<lparr>v_db := v_db w\<rparr>)) \<and>
    computes V2 D (svc_NotifyAuthFriend E2
        (new_AuthFriendReq\<lparr>auq_fromuid := accepter, auq_touid := applicant\<rparr>) reply) w
      (reply\<lparr>aur_error := error_code SUCCESS, aur_fromuid := accepter, aur_touid := applicant\<rparr>)
      (w\<lparr>v_sess := (v_sess w)(s2 := sent E2 MSG_NOTIFY_AUTH_FRIEND_REQ d (v_sess w s2))\<rparr>)"
proof -
  let ?al = "alias_of (e_sql E2) (db_query D friend_alias_stmt [SqlInt applicant, SqlInt accepter] (v_db w))"
  let ?d = "auth_notify accepter applicant (snd ?al) (Some u)"
  let ?w = "w\<lparr>v_sess := (v_sess w)(s2 := sent E2 MSG_NOTIFY_AUTH_FRIEND_REQ ?d (v_sess w s2))\<rparr>"
  have b: "computes V2 D (svc_getBaseInfo E2 (USER_BASE_INFO @ to_string accepter) accepter) w (Some u) w"
    by (rule svc_getBaseInfo_cached [OF assms(1,6-8) user_of_bare [OF assms(5)]])
  have a: "computes V2 D (on_mysql (mgr_getFriendAlias (e_sql E2) applicant accepter)) w ?al w"
    by (rule computes_getFriendAlias [OF assms(1)])
  have "computes V2 D (to_local_user applicant (\<lambda>s.
      mbind (svc_getBaseInfo E2 (USER_BASE_INFO @ to_string accepter) accepter) (\<lambda>info.
      mbind (case info of
          Some _ \<Rightarrow> on_mysql (mgr_getFriendAlias (e_sql E2) applicant accepter)
        | None \<Rightarrow> mret (False, [])) (\<lambda>(_, peer_alias).
        send_doc E2 s MSG_NOTIFY_AUTH_FRIEND_REQ (auth_notify accepter applicant peer_alias info))))) w () ?w"
  proof (rule computes_to_local_user)
    fix r assume "v_users w applicant = Some r"
    with assms(11) have r: "r = s2" by simp
    show "computes V2 D (mbind (svc_getBaseInfo E2 (USER_BASE_INFO @ to_string accepter) accepter) (\<lambda>info.
      mbind (case info of
          Some _ \<Rightarrow> on_mysql (mgr_getFriendAlias (e_sql E2) applicant accepter)
        | None \<Rightarrow> mret (False, [])) (\<lambda>(_, peer_alias).
        send_doc E2 r MSG_NOTIFY_AUTH_FRIEND_REQ (auth_notify accepter applicant peer_alias info)))) w () ?w"
      unfolding r case_prod_unfold
      by (rule computes_mbind [OF b], unfold option.case, rule computes_mbind [OF a],
          rule computes_send_doc [OF assms(2)])
  qed (simp add: assms(11))
  from computes_mseq [OF this computes_mret]
  have c: "computes V2 D (svc_NotifyAuthFriend E2
        (new_AuthFriendReq\<lparr>auq_fromuid := accepter, auq_touid := applicant\<rparr>) reply) w
      (reply\<lparr>aur_error := error_code SUCCESS, aur_fromuid := accepter, aur_touid := applicant\<rparr>) ?w"
    by (simp add: svc_NotifyAuthFriend_def Let_def)
  have "auth_spec E D applicant accepter alias_name v =
      delivered E applicant MSG_NOTIFY_AUTH_FRIEND_REQ ?d (based E D accepter (v\<lparr>v_db := v_db w\<rparr>))"
    using assms(3-5,9,10) by (simp add: auth_spec_def Let_def)
  with c show ?thesis by (intro exI [of _ ?d]) simp
qed

end
