(* ===== verification/MainSpec.thy ===== *)
theory MainSpec
  imports LoginSpec
begin

text \<open>
  What \<open>main\<close> does around the event loop: the counter of logins is zero when the loop starts and gone
  afterwards, the program returns or hangs in one of its two joins, and a port that cannot be bound ends
  the process.
\<close>

section \<open>Start\<close>










section \<open>The whole program\<close>

lemma rp_stopped_get: "rp_stop p \<Longrightarrow> redis_get R k (p, x) = Ret None (p, x)"
  by (simp add: redis_get_def run_simps rp_getConnection_def)


text \<open>
  C30. A port that cannot be bound ends the process instead of being reported: the exception leaves
  the scope of a running thread before it reaches the handler at the end of \<open>main\<close>.
\<close>

theorem bind_failure_aborts:
  assumes "ready w" and "\<forall>x. fst (ma_build A (server_address E) x)"
    and "\<forall>x. \<not> fst (ma_bind A (ucast port) x)"
    and "\<forall>t :: 'x world. atoi (cstr (cfg_get (e_cfg E) ''SelfServer'' ''Port'')) t = Ret port t"
  shows "chat_main E A ref uuid (w :: 'x world) = Abort"
proof -
  have "rotates (w_redis w) (redis_hSet (e_redis E) LOGIN_COUNT (self_name E) ''0'' (w_redis w, w_ext w))"
    using assms(1) by (simp add: redis_hSet_def redis_hSet_idle ready_def rp_ready_def)
  then obtain b w1 where
    w1: "on_redis (redis_hSet (e_redis E) LOGIN_COUNT (self_name E) ''0'') w = Ret b w1"
    by (auto simp: rotates_def run_simps)
  have d: "atoi (cstr (cfg_get (e_cfg E) ''SelfServer'' ''Port'')) = (mret port :: (int32, 'x world) m)"
    by (rule ext) (simp add: assms(4) run_simps)
  have "main_loop E A ref uuid t = Throw BoostSystemError (t\<lparr>w_ext := snd (ma_bind A (ucast port) (w_ext t))\<rparr>)" for t
    unfolding main_loop_def d CServer_new_def by (simp add: run_simps assms(3))
  then have l: "on_thread (main_loop E A ref uuid) t = Abort" for t by (simp add: on_thread_def)
  show ?thesis
    unfolding chat_main_def catch_std_run mseq_run w1 outcome.case mbind_run on_ext_run mguard_run l
    by (simp add: assms(2))
qed

section \<open>After the end\<close>

text \<open>
  Messages still in the queue when \<open>main\<close> has closed the Redis pool are handled by the
  destructor's drain, and every login among them is refused: the reply is \<open>UID_INVALID\<close>, whatever
  token it carries, and nothing but the session's send queue changes.
\<close>

theorem login_after_close_refused:
  assumes "net_order (e_host E)" and "login_msg (e_json E) data uid token" and "rp_stop (w_redis w)"
  shows "loginHandler E ref data w = Ret () (w\<lparr>w_sess := (w_sess w)(ref :=
    sent E MSG_CHAT_LOGIN_RSP (jset ''error'' (jerror UID_INVALID) DNull) (w_sess w ref))\<rparr>)"
proof -
  have i: "get_int (e_json E) (snd (j_parse (e_json E) data)) ''uid'' = mret uid"
    "get_str (e_json E) (snd (j_parse (e_json E) data)) ''token'' = mret token"
    using assms(2) by (simp_all add: login_msg_def get_int_mret get_str_mret)
  have g: "redis_get (e_redis E) k (w_redis w, w_ext w) = Ret None (w_redis w, w_ext w)" for k
    by (rule rp_stopped_get [OF assms(3)])
  have c: "send_doc E ref msg d w = Ret () (w\<lparr>w_sess := (w_sess w)(ref := sent E msg d (w_sess w ref))\<rparr>)" for msg d
    by (simp add: send_doc_def run_simps cs_send_sent [OF assms(1)] del: msg_id.simps)
  show ?thesis
    unfolding loginHandler_def Let_def i
    by (simp add: run_simps with_reply_def Defer_def g put_error_def put_def c del: fun_upd_apply)
qed

end
