(* ===== verification/Worker.thy ===== *)
theory Worker
  imports Prelude
begin

text \<open>
  The threads around the message queue of \<open>src/application/LogicSystem.cpp\<close>: the worker that runs
  \<open>dealMsg\<close>, the network threads that call \<open>postMsgToQue\<close>, and the thread that destroys the object.
  A step is what one thread does between two points where another can intervene; a thread that
  holds the mutex keeps the others out of the sections that take it. The worker holds it from the
  test of the queue to the end of the turn, handler included; the destructor never takes it.
\<close>

section \<open>State\<close>

text \<open>
  Where the worker is: before taking the mutex; with it, before the test of the condition; after a
  test that told it to wait; asleep; running a handler; emptying the queue after the stop; gone.
\<close>

datatype worker_pc = Start | Check | Sleepy | Asleep | Handling | Draining | Finished

datatype stopper_pc = Alive | Flagged | Joining | Joined

record 'm logic_state =
  lg_que :: "'m list"
  lg_stop :: bool
  lg_worker :: worker_pc
  lg_notified :: bool
  lg_owed :: nat
  lg_stopper :: stopper_pc
  lg_posted :: "'m list"
  lg_handled :: "'m list"

definition LogicSystem_new :: "'m logic_state" where
  "LogicSystem_new = \<lparr>lg_que = [], lg_stop = False, lg_worker = Start, lg_notified = False,
     lg_owed = 0, lg_stopper = Alive, lg_posted = [], lg_handled = []\<rparr>"

definition locked :: "'m logic_state \<Rightarrow> bool" where
  "locked s \<longleftrightarrow> lg_worker s \<in> {Check, Sleepy, Handling, Draining}"

section \<open>Steps\<close>

text \<open>\<open>notify_one\<close> and \<open>notify_all\<close> reach the worker only where it is asleep.\<close>

definition wake :: "'m logic_state \<Rightarrow> 'm logic_state" where
  "wake s = s\<lparr>lg_notified := lg_notified s \<or> lg_worker s = Asleep\<rparr>"

inductive worker_step :: "'m logic_state \<Rightarrow> 'm logic_state \<Rightarrow> bool" where
  lock: "lg_worker s = Start \<Longrightarrow> worker_step s (s\<lparr>lg_worker := Check\<rparr>)"
| must_wait: "lg_worker s = Check \<Longrightarrow> lg_que s = [] \<Longrightarrow> \<not> lg_stop s \<Longrightarrow>
    worker_step s (s\<lparr>lg_worker := Sleepy\<rparr>)"
| wait: "lg_worker s = Sleepy \<Longrightarrow> worker_step s (s\<lparr>lg_worker := Asleep, lg_notified := False\<rparr>)"
| woken: "lg_worker s = Asleep \<Longrightarrow> lg_notified s \<Longrightarrow> worker_step s (s\<lparr>lg_worker := Check\<rparr>)"
| stopping: "lg_worker s = Check \<Longrightarrow> lg_stop s \<Longrightarrow> worker_step s (s\<lparr>lg_worker := Draining\<rparr>)"
| front: "lg_worker s = Check \<Longrightarrow> lg_que s \<noteq> [] \<Longrightarrow> \<not> lg_stop s \<Longrightarrow>
    worker_step s (s\<lparr>lg_worker := Handling\<rparr>)"
| handled: "lg_worker s = Handling \<Longrightarrow> lg_que s = m # ms \<Longrightarrow>
    worker_step s (s\<lparr>lg_worker := Start, lg_que := ms, lg_handled := lg_handled s @ [m]\<rparr>)"
| drained: "lg_worker s = Draining \<Longrightarrow> lg_que s = m # ms \<Longrightarrow>
    worker_step s (s\<lparr>lg_que := ms, lg_handled := lg_handled s @ [m]\<rparr>)"
| finish: "lg_worker s = Draining \<Longrightarrow> lg_que s = [] \<Longrightarrow> worker_step s (s\<lparr>lg_worker := Finished\<rparr>)"

text \<open>A post pushes under the mutex; where the queue was empty, the notification follows outside it.\<close>

inductive post_step :: "'m logic_state \<Rightarrow> 'm logic_state \<Rightarrow> bool" where
  push: "\<not> locked s \<Longrightarrow> post_step s (s\<lparr>lg_que := lg_que s @ [m], lg_posted := lg_posted s @ [m],
    lg_owed := (if length (lg_que s @ [m]) = 1 then lg_owed s + 1 else lg_owed s)\<rparr>)"

inductive notify_step :: "'m logic_state \<Rightarrow> 'm logic_state \<Rightarrow> bool" where
  notify: "0 < lg_owed s \<Longrightarrow> notify_step s (wake (s\<lparr>lg_owed := lg_owed s - 1\<rparr>))"

inductive stop_step :: "'m logic_state \<Rightarrow> 'm logic_state \<Rightarrow> bool" where
  flag: "lg_stopper s = Alive \<Longrightarrow> stop_step s (s\<lparr>lg_stop := True, lg_stopper := Flagged\<rparr>)"
| announce: "lg_stopper s = Flagged \<Longrightarrow> stop_step s (wake (s\<lparr>lg_stopper := Joining\<rparr>))"
| join: "lg_stopper s = Joining \<Longrightarrow> lg_worker s = Finished \<Longrightarrow> stop_step s (s\<lparr>lg_stopper := Joined\<rparr>)"

inductive_cases worker_stepE: "worker_step s t"
inductive_simps worker_step_simps: "worker_step s t"
inductive_simps notify_step_simps: "notify_step s t"
inductive_simps stop_step_simps: "stop_step s t"

inductive reached :: "'m logic_state \<Rightarrow> bool" where
  new: "reached LogicSystem_new"
| worker: "reached s \<Longrightarrow> worker_step s t \<Longrightarrow> reached t"
| post: "reached s \<Longrightarrow> post_step s t \<Longrightarrow> reached t"
| notify: "reached s \<Longrightarrow> notify_step s t \<Longrightarrow> reached t"
| stop: "reached s \<Longrightarrow> stop_step s t \<Longrightarrow> reached t"

section \<open>What holds in every reachable state\<close>

definition queue_ok :: "'m logic_state \<Rightarrow> bool" where
  "queue_ok s \<longleftrightarrow> lg_posted s = lg_handled s @ lg_que s \<and>
    (lg_worker s = Handling \<longrightarrow> lg_que s \<noteq> []) \<and>
    (lg_worker s = Sleepy \<longrightarrow> lg_que s = []) \<and>
    (lg_worker s = Asleep \<and> lg_que s \<noteq> [] \<longrightarrow> lg_notified s \<or> 0 < lg_owed s)"

lemma queue_ok_worker: "queue_ok s \<Longrightarrow> worker_step s t \<Longrightarrow> queue_ok t"
  by (erule worker_stepE) (auto simp: queue_ok_def)

lemma queue_ok_post: "queue_ok s \<Longrightarrow> post_step s t \<Longrightarrow> queue_ok t"
  by (auto simp: post_step.simps queue_ok_def locked_def split: if_splits)

lemma queue_ok_notify: "queue_ok s \<Longrightarrow> notify_step s t \<Longrightarrow> queue_ok t"
  by (auto simp: notify_step_simps queue_ok_def wake_def)

lemma queue_ok_stop: "queue_ok s \<Longrightarrow> stop_step s t \<Longrightarrow> queue_ok t"
  by (auto simp: stop_step_simps queue_ok_def wake_def)

lemma reached_queue_ok: "reached s \<Longrightarrow> queue_ok s"
proof (induction rule: reached.induct)
  case new
  show ?case by (simp add: queue_ok_def LogicSystem_new_def)
qed (blast intro: queue_ok_worker queue_ok_post queue_ok_notify queue_ok_stop)+

text \<open>
  C8. No posted message is lost or overtaken: whatever the threads do, the messages handled so far
  followed by those in the queue are the posted ones in order; and a worker that sleeps while
  there is a message in the queue has been notified or is about to be.
\<close>

theorem posts_not_lost:
  assumes "reached s"
  shows "lg_posted s = lg_handled s @ lg_que s \<and>
    (lg_worker s = Asleep \<and> lg_que s \<noteq> [] \<longrightarrow> lg_notified s \<or> 0 < lg_owed s)"
  using reached_queue_ok [OF assms] by (simp add: queue_ok_def)

section \<open>Progress\<close>

definition internal_step :: "'m logic_state \<Rightarrow> 'm logic_state \<Rightarrow> bool" where
  "internal_step s t \<longleftrightarrow> worker_step s t \<or> notify_step s t"

lemma internal_worker: "worker_step s t \<Longrightarrow> internal_step\<^sup>*\<^sup>* t u \<Longrightarrow> internal_step\<^sup>*\<^sup>* s u"
  by (rule converse_rtranclp_into_rtranclp) (auto simp: internal_step_def)

lemma progress_check:
  assumes "lg_worker s = Check" and "lg_que s = m # ms"
  shows "\<exists>t. internal_step\<^sup>*\<^sup>* s t \<and> lg_handled t = lg_handled s @ [m] \<and> lg_que t = ms"
proof (cases "lg_stop s")
  case True
  from internal_worker [OF worker_step.stopping [OF assms(1) True]
      internal_worker [OF worker_step.drained rtranclp.rtrancl_refl]] assms(2)
  show ?thesis by fastforce
next
  case False
  from internal_worker [OF worker_step.front [OF assms(1) _ False]
      internal_worker [OF worker_step.handled rtranclp.rtrancl_refl]] assms(2)
  show ?thesis by fastforce
qed

text \<open>
  C15. A waiting message is handled next as long as the worker runs: in every reachable state with a
  message at the front of the queue and the worker not finished, the steps of the worker, after the
  notification of a poster that is still owed, can lead to a state where this message has been handled and the rest of the queue
  is as it was; no further post is needed for it. (A message posted after the worker has finished stays in the queue.)
\<close>

theorem front_message_handled:
  assumes "reached s" and "lg_que s = m # ms" and "lg_worker s \<noteq> Finished"
  shows "\<exists>t. internal_step\<^sup>*\<^sup>* s t \<and> lg_handled t = lg_handled s @ [m] \<and> lg_que t = ms"
proof (cases "lg_worker s")
  case Start
  from progress_check [of "s\<lparr>lg_worker := Check\<rparr>" m ms] assms(2) internal_worker [OF worker_step.lock [OF Start]]
  show ?thesis by fastforce
next
  case Check
  from progress_check [OF this assms(2)] show ?thesis .
next
  case Sleepy
  with reached_queue_ok [OF assms(1)] assms(2) show ?thesis by (simp add: queue_ok_def)
next
  case Asleep
  define n where "n = (if lg_notified s then s else wake (s\<lparr>lg_owed := lg_owed s - 1\<rparr>))"
  have "internal_step s n \<or> n = s"
    using reached_queue_ok [OF assms(1)] Asleep assms(2) notify_step.notify [of s]
    by (auto simp: n_def queue_ok_def internal_step_def)
  then have n: "internal_step\<^sup>*\<^sup>* s n" "lg_worker n = Asleep" "lg_notified n" "lg_que n = m # ms"
    "lg_handled n = lg_handled s"
    using reached_queue_ok [OF assms(1)] Asleep assms(2)
    by (auto simp: n_def wake_def)
  from progress_check [of "n\<lparr>lg_worker := Check\<rparr>" m ms] n(4,5) obtain t where
    "internal_step\<^sup>*\<^sup>* (n\<lparr>lg_worker := Check\<rparr>) t" "lg_handled t = lg_handled s @ [m]" "lg_que t = ms"
    by auto
  with rtranclp_trans [OF n(1) internal_worker [OF worker_step.woken [OF n(2,3)]]] show ?thesis
    by blast
next
  case Handling
  from internal_worker [OF worker_step.handled [OF Handling assms(2)] rtranclp.rtrancl_refl]
  show ?thesis by fastforce
next
  case Draining
  from internal_worker [OF worker_step.drained [OF Draining assms(2)] rtranclp.rtrancl_refl]
  show ?thesis by fastforce
qed (use assms(3) in simp)

section \<open>The end\<close>

text \<open>
  C18. The destructor can hang: it sets the stop flag without the mutex, so the worker may test the
  flag, the destructor set it and notify, and the worker go to sleep after that. A state is
  reachable where the destructor waits for the worker, the worker sleeps, and no step of either is
  possible; only a new message would help.
\<close>

theorem destructor_can_hang:
  "\<exists>s :: 'm logic_state. reached s \<and> lg_stopper s = Joining \<and> lg_worker s = Asleep \<and> lg_que s = [] \<and>
    (\<forall>t. \<not> worker_step s t \<and> \<not> notify_step s t \<and> \<not> stop_step s t)"
proof -
  define s0 :: "'m logic_state" where "s0 = LogicSystem_new"
  define s1 where "s1 = s0\<lparr>lg_worker := Check\<rparr>"
  define s2 where "s2 = s1\<lparr>lg_worker := Sleepy\<rparr>"
  define s3 where "s3 = s2\<lparr>lg_stop := True, lg_stopper := Flagged\<rparr>"
  define s4 where "s4 = wake (s3\<lparr>lg_stopper := Joining\<rparr>)"
  define s5 where "s5 = s4\<lparr>lg_worker := Asleep, lg_notified := False\<rparr>"
  note defs = s0_def s1_def s2_def s3_def s4_def s5_def LogicSystem_new_def wake_def
  have "worker_step s0 s1" "worker_step s1 s2" "stop_step s2 s3" "stop_step s3 s4" "worker_step s4 s5"
    unfolding s1_def s2_def s3_def s4_def s5_def
    by (rule worker_step.lock worker_step.must_wait stop_step.flag stop_step.announce worker_step.wait;
        simp add: defs)+
  moreover have "reached s0" unfolding s0_def by (rule reached.new)
  ultimately have "reached s5" by (meson reached.worker reached.stop)
  moreover have "\<not> worker_step s5 t \<and> \<not> notify_step s5 t \<and> \<not> stop_step s5 t" for t
    by (auto simp: defs worker_step_simps notify_step_simps stop_step_simps)
  moreover have "lg_stopper s5 = Joining" "lg_worker s5 = Asleep" "lg_que s5 = []" by (simp_all add: defs)
  ultimately show ?thesis by blast
qed

end
