(* ===== verification/PoolThreads.thy ===== *)
theory PoolThreads
  imports RedisConPool MySqlPool
begin

text \<open>
  The threads around a connection pool (\<open>src/infra/redis/RedisConPool.cpp\<close>,
  \<open>src/infra/mysql/MySqlPool.cpp\<close>): callers that wait for a connection on the condition variable,
  connections given back, the health check that opens new ones, and \<open>close\<close>. Every section under the
  mutex is one step. Threads that sleep are counted: those not notified and those notified that have
  not taken the mutex yet.
\<close>

section \<open>Waiting for a connection\<close>

record pool_threads =
  pt_idle :: nat
  pt_stop :: bool
  pt_asleep :: nat
  pt_notified :: nat
  pt_fail :: nat
  pt_pinging :: bool

text \<open>What a caller does once it has the mutex and the condition holds.\<close>

definition take_one :: "pool_threads \<Rightarrow> pool_threads" where
  "take_one s = (if pt_stop s then s else s\<lparr>pt_idle := pt_idle s - 1\<rparr>)"

definition can_take :: "pool_threads \<Rightarrow> bool" where
  "can_take s \<longleftrightarrow> pt_stop s \<or> 0 < pt_idle s"

definition notify_one :: "pool_threads \<Rightarrow> pool_threads" where
  "notify_one s = (if pt_asleep s = 0 then s
    else s\<lparr>pt_asleep := pt_asleep s - 1, pt_notified := pt_notified s + 1\<rparr>)"

definition notify_all :: "pool_threads \<Rightarrow> pool_threads" where
  "notify_all s = s\<lparr>pt_asleep := 0, pt_notified := pt_notified s + pt_asleep s\<rparr>"

inductive get_step :: "pool_threads \<Rightarrow> pool_threads \<Rightarrow> bool" where
  at_once: "can_take s \<Longrightarrow> get_step s (take_one s)"
| sleeps: "\<not> can_take s \<Longrightarrow> get_step s (s\<lparr>pt_asleep := pt_asleep s + 1\<rparr>)"
| wakes: "0 < pt_notified s \<Longrightarrow> can_take s \<Longrightarrow>
    get_step s (take_one (s\<lparr>pt_notified := pt_notified s - 1\<rparr>))"
| again: "0 < pt_notified s \<Longrightarrow> \<not> can_take s \<Longrightarrow>
    get_step s (s\<lparr>pt_notified := pt_notified s - 1, pt_asleep := pt_asleep s + 1\<rparr>)"

inductive return_step :: "pool_threads \<Rightarrow> pool_threads \<Rightarrow> bool" where
  kept: "\<not> pt_stop s \<Longrightarrow> return_step s (notify_one (s\<lparr>pt_idle := pt_idle s + 1\<rparr>))"
| dropped: "pt_stop s \<Longrightarrow> return_step s s"

inductive close_step :: "pool_threads \<Rightarrow> pool_threads \<Rightarrow> bool" where
  close: "close_step s (notify_all (s\<lparr>pt_stop := True\<rparr>))"

text \<open>
  The health check takes a connection without waiting (the MySQL check does not look at the flag) and
  pings it: it is put back with a notification, by the Redis check only as long as the pool is not
  stopped, or counted as failed. After the pings each failed one is replaced, without notifying.
\<close>

inductive check_step :: "pool_threads \<Rightarrow> pool_threads \<Rightarrow> bool" where
  borrow: "0 < pt_idle s \<Longrightarrow> \<not> pt_pinging s \<Longrightarrow>
    check_step s (s\<lparr>pt_idle := pt_idle s - 1, pt_pinging := True\<rparr>)"
| answered: "pt_pinging s \<Longrightarrow>
    check_step s (notify_one (s\<lparr>pt_idle := pt_idle s + 1, pt_pinging := False\<rparr>))"
| answered_late: "pt_pinging s \<Longrightarrow> pt_stop s \<Longrightarrow> check_step s (s\<lparr>pt_pinging := False\<rparr>)"
| failed: "pt_pinging s \<Longrightarrow> check_step s (s\<lparr>pt_fail := pt_fail s + 1, pt_pinging := False\<rparr>)"

inductive reconnect_step :: "pool_threads \<Rightarrow> pool_threads \<Rightarrow> bool" where
  push: "0 < pt_fail s \<Longrightarrow> \<not> pt_pinging s \<Longrightarrow>
    reconnect_step s (s\<lparr>pt_idle := pt_idle s + 1, pt_fail := pt_fail s - 1\<rparr>)"

lemmas pool_step_simps = get_step.simps return_step.simps close_step.simps check_step.simps
  reconnect_step.simps

lemmas pool_thread_defs = take_one_def can_take_def notify_one_def notify_all_def

definition pool_new :: "nat \<Rightarrow> pool_threads" where
  "pool_new n = \<lparr>pt_idle = n, pt_stop = False, pt_asleep = 0, pt_notified = 0, pt_fail = 0,
    pt_pinging = False\<rparr>"

text \<open>\<open>pool_runs n k s\<close>: from a pool of \<open>n\<close> connections, with \<open>k\<close> reconnections on the way, to \<open>s\<close>.\<close>

inductive pool_runs :: "nat \<Rightarrow> nat \<Rightarrow> pool_threads \<Rightarrow> bool" for n where
  new: "pool_runs n 0 (pool_new n)"
| get: "pool_runs n k s \<Longrightarrow> get_step s t \<Longrightarrow> pool_runs n k t"
| return: "pool_runs n k s \<Longrightarrow> return_step s t \<Longrightarrow> pool_runs n k t"
| close: "pool_runs n k s \<Longrightarrow> close_step s t \<Longrightarrow> pool_runs n k t"
| check: "pool_runs n k s \<Longrightarrow> check_step s t \<Longrightarrow> pool_runs n k t"
| reconnect: "pool_runs n k s \<Longrightarrow> reconnect_step s t \<Longrightarrow> pool_runs n (k + 1) t"

text \<open>Every idle connection but those the health check opened has a notified thread coming for it.\<close>

definition covered :: "nat \<Rightarrow> pool_threads \<Rightarrow> bool" where
  "covered k s \<longleftrightarrow> (0 < pt_asleep s \<longrightarrow> \<not> pt_stop s \<and> pt_idle s \<le> pt_notified s + k)"

lemma covered_run: "pool_runs n k s \<Longrightarrow> covered k s"
proof (induction rule: pool_runs.induct)
  case new
  show ?case by (simp add: covered_def pool_new_def)
next
  case (get k s t)
  from get(2,3) show ?case by (auto simp: get_step.simps covered_def pool_thread_defs split: if_splits)
next
  case (return k s t)
  from return(2,3) show ?case by (auto simp: return_step.simps covered_def pool_thread_defs split: if_splits)
next
  case (close k s t)
  from close(2,3) show ?case by (auto simp: close_step.simps covered_def pool_thread_defs)
next
  case (check k s t)
  from check(2,3) show ?case by (auto simp: check_step.simps covered_def pool_thread_defs split: if_splits)
next
  case (reconnect k s t)
  from reconnect(2,3) show ?case by (auto simp: reconnect_step.simps covered_def)
qed

text \<open>
  C16. Giving a connection back loses no wake-up: as long as the health check opened no connection, a
  thread sleeps only where every idle connection has a notified thread coming for it, and never once
  the pool is closed. The reconnection breaks this: it adds a connection and notifies nobody, and a
  state is reachable where a thread sleeps, a connection is idle and no thread is notified.
\<close>

theorem sleeping_threads_covered:
  "(\<forall>s. pool_runs n 0 s \<and> 0 < pt_asleep s \<longrightarrow> \<not> pt_stop s \<and> pt_idle s \<le> pt_notified s) \<and>
   (\<exists>s. pool_runs 1 1 s \<and> pt_asleep s = 1 \<and> pt_idle s = 1 \<and> pt_notified s = 0 \<and> \<not> pt_stop s)"
proof
  show "\<forall>s. pool_runs n 0 s \<and> 0 < pt_asleep s \<longrightarrow> \<not> pt_stop s \<and> pt_idle s \<le> pt_notified s"
    using covered_run [of n 0] by (auto simp: covered_def)
next
  let ?s1 = "(pool_new 1)\<lparr>pt_idle := 0, pt_pinging := True\<rparr>"
  let ?s2 = "?s1\<lparr>pt_asleep := 1\<rparr>"
  let ?s3 = "?s2\<lparr>pt_fail := 1, pt_pinging := False\<rparr>"
  let ?s4 = "?s3\<lparr>pt_idle := 1, pt_fail := 0\<rparr>"
  have 1: "check_step (pool_new 1) ?s1" using check_step.borrow [of "pool_new 1"] by (simp add: pool_new_def)
  have 2: "get_step ?s1 ?s2" using get_step.sleeps [of ?s1] by (simp add: pool_new_def can_take_def)
  have 3: "check_step ?s2 ?s3" using check_step.failed [of ?s2] by (simp add: pool_new_def)
  have 4: "reconnect_step ?s3 ?s4" using reconnect_step.push [of ?s3] by (simp add: pool_new_def)
  have "pool_runs 1 (0 + 1) ?s4"
    by (rule pool_runs.reconnect [OF pool_runs.check [OF pool_runs.get [OF pool_runs.check [OF pool_runs.new 1] 2] 3] 4])
  then show "\<exists>s. pool_runs 1 1 s \<and> pt_asleep s = 1 \<and> pt_idle s = 1 \<and> pt_notified s = 0 \<and> \<not> pt_stop s"
    by (intro exI [of _ ?s4]) (simp add: pool_new_def)
qed

section \<open>The pools take these steps\<close>

text \<open>
  A pool seen from its threads, with the threads that sleep and those notified; and what a section
  that leaves the pool \<open>p\<close> with a notification does to the threads.
\<close>

definition rp_seen :: "nat \<Rightarrow> nat \<Rightarrow> redis_pool \<Rightarrow> pool_threads" where
  "rp_seen a n p = \<lparr>pt_idle = length (rp_conns p), pt_stop = rp_stop p, pt_asleep = a, pt_notified = n,
    pt_fail = nat (rp_fail p), pt_pinging = False\<rparr>"

definition mp_seen :: "nat \<Rightarrow> nat \<Rightarrow> mysql_pool \<Rightarrow> pool_threads" where
  "mp_seen a n p = \<lparr>pt_idle = length (mp_conns p), pt_stop = mp_stop p, pt_asleep = a, pt_notified = n,
    pt_fail = nat (mp_fail p), pt_pinging = False\<rparr>"

fun wakes_up :: "notice \<Rightarrow> pool_threads \<Rightarrow> pool_threads" where
  "wakes_up WakeNone s = s"
| "wakes_up WakeOne s = notify_one s"
| "wakes_up WakeAll s = notify_all s"

text \<open>
  A call of \<open>getConnection\<close>, from a thread that comes anew or from one that was notified: where the
  code returns the thread is gone, where it would block the thread sleeps.
\<close>

definition get_outcome :: "(nat \<Rightarrow> nat \<Rightarrow> 'p \<Rightarrow> pool_threads) \<Rightarrow> nat \<Rightarrow> nat \<Rightarrow> ('c, 'p) outcome \<Rightarrow> pool_threads \<Rightarrow> bool" where
  "get_outcome seen a n r t \<longleftrightarrow> (case r of
      Ret _ q \<Rightarrow> t = seen a n q \<or> (0 < n \<and> t = seen a (n - 1) q)
    | Blocked q \<Rightarrow> t = seen (a + 1) n q \<or> (0 < n \<and> t = seen (a + 1) (n - 1) q)
    | _ \<Rightarrow> False)"

text \<open>
  C38. The steps of the threads are exactly those of the two pools' code. A step of \<open>get_step\<close> from a
  state of the pool is what \<open>getConnection\<close> does there, to a thread that comes or one that was notified;
  a step of \<open>return_step\<close>, \<open>close_step\<close> or \<open>reconnect_step\<close> is what the section under the mutex does
  to the queue and the flag, followed by the notification the section makes: one thread for a
  connection given back, all for \<open>close\<close>, none for a new connection.
\<close>

theorem pools_take_thread_steps:
  "(get_step (rp_seen a n p) t \<longleftrightarrow> get_outcome rp_seen a n (rp_getConnection p) t) \<and>
   (return_step (rp_seen a n p) t \<longleftrightarrow>
     t = wakes_up (snd (rp_return_section c p)) (rp_seen a n (fst (rp_return_section c p)))) \<and>
   (close_step (rp_seen a n p) t \<longleftrightarrow>
     t = wakes_up (snd (rp_stop_section p)) (rp_seen a n (fst (rp_stop_section p)))) \<and>
   (reconnect_step (rp_seen a n p) t \<longleftrightarrow> 0 < rp_fail p \<and>
     t = wakes_up (snd (rp_push_section c p))
       (rp_seen a n ((fst (rp_push_section c p))\<lparr>rp_fail := rp_fail p - 1\<rparr>))) \<and>
   (get_step (mp_seen a n m) t \<longleftrightarrow> get_outcome mp_seen a n (mp_getConnection m) t) \<and>
   (return_step (mp_seen a n m) t \<longleftrightarrow>
     t = wakes_up (snd (mp_return_section d m)) (mp_seen a n (fst (mp_return_section d m)))) \<and>
   (close_step (mp_seen a n m) t \<longleftrightarrow>
     t = wakes_up (snd (mp_stop_section m)) (mp_seen a n (fst (mp_stop_section m)))) \<and>
   (reconnect_step (mp_seen a n m) t \<longleftrightarrow> 0 < mp_fail m \<and>
     t = wakes_up (snd (mp_push_section d m))
       (mp_seen a n ((fst (mp_push_section d m))\<lparr>mp_fail := mp_fail m - 1\<rparr>)))"
proof (intro conjI)
  show "get_step (rp_seen a n p) t \<longleftrightarrow> get_outcome rp_seen a n (rp_getConnection p) t"
    by (cases "rp_conns p")
      (auto simp: get_step.simps get_outcome_def rp_getConnection_def rp_seen_def pool_thread_defs)
  show "get_step (mp_seen a n m) t \<longleftrightarrow> get_outcome mp_seen a n (mp_getConnection m) t"
    by (cases "mp_conns m")
      (auto simp: get_step.simps get_outcome_def mp_getConnection_def mp_seen_def pool_thread_defs)
qed (auto simp: return_step.simps close_step.simps reconnect_step.simps rp_sections mp_sections
    rp_seen_def mp_seen_def notify_one_def notify_all_def nat_diff_distrib)

section \<open>Closing the Redis pool\<close>

text \<open>
  \<open>close\<close> joins the check thread while it holds the mutex. The check thread (\<open>RedisConPool.cpp\<close>, lines
  38 to 49 and 158 to 208) is between two checks, where it tests the flag; or in a check: about to
  read the size of the queue, in the loop of the pings, where it tests the flag and the number of pings left, about
  to take a connection, pinging it, about to give it back; or replacing failed connections, about to push
  a new one. A section of the check under the mutex is one step; \<open>AtSize\<close>, \<open>AtTake\<close>, \<open>AtReturn\<close> and \<open>AtPush\<close> are where the
  thread needs the mutex. Other callers take and return connections all the while, so the queue itself
  is not in the state: the size read may be any number, and there may or may not be a connection to take.
\<close>

datatype checker_pc =
  Between | AtSize | InLoop | AtTake | Pinging | AtReturn | Mending | Connecting | AtPush | Ended
datatype closer_pc = Open | Joining | Closed

record close_state =
  cl_stop :: bool
  cl_left :: nat
  cl_fail :: nat
  cl_checker :: checker_pc
  cl_closer :: closer_pc

definition mutex_free :: "close_state \<Rightarrow> bool" where
  "mutex_free s \<longleftrightarrow> cl_closer s \<noteq> Joining"

inductive checker_step :: "close_state \<Rightarrow> close_state \<Rightarrow> bool" where
  sleep: "cl_checker s = Between \<Longrightarrow> \<not> cl_stop s \<Longrightarrow> checker_step s s"
| check: "cl_checker s = Between \<Longrightarrow> \<not> cl_stop s \<Longrightarrow> checker_step s (s\<lparr>cl_checker := AtSize\<rparr>)"
| leave: "cl_checker s = Between \<Longrightarrow> cl_stop s \<Longrightarrow> checker_step s (s\<lparr>cl_checker := Ended\<rparr>)"
| size: "cl_checker s = AtSize \<Longrightarrow> mutex_free s \<Longrightarrow>
    checker_step s (s\<lparr>cl_left := n, cl_checker := InLoop\<rparr>)"
| round: "cl_checker s = InLoop \<Longrightarrow> 0 < cl_left s \<Longrightarrow> \<not> cl_stop s \<Longrightarrow>
    checker_step s (s\<lparr>cl_left := cl_left s - 1, cl_checker := AtTake\<rparr>)"
| rounds_over: "cl_checker s = InLoop \<Longrightarrow> cl_left s = 0 \<or> cl_stop s \<Longrightarrow>
    checker_step s (s\<lparr>cl_checker := Mending\<rparr>)"
| take: "cl_checker s = AtTake \<Longrightarrow> mutex_free s \<Longrightarrow> \<not> cl_stop s \<Longrightarrow>
    checker_step s (s\<lparr>cl_checker := Pinging\<rparr>)"
| take_none: "cl_checker s = AtTake \<Longrightarrow> mutex_free s \<Longrightarrow> checker_step s (s\<lparr>cl_checker := Mending\<rparr>)"
| answered: "cl_checker s = Pinging \<Longrightarrow> checker_step s (s\<lparr>cl_checker := AtReturn\<rparr>)"
| unanswered: "cl_checker s = Pinging \<Longrightarrow>
    checker_step s (s\<lparr>cl_fail := cl_fail s + 1, cl_checker := InLoop\<rparr>)"
| give: "cl_checker s = AtReturn \<Longrightarrow> mutex_free s \<Longrightarrow> checker_step s (s\<lparr>cl_checker := InLoop\<rparr>)"
| mend: "cl_checker s = Mending \<Longrightarrow> 0 < cl_fail s \<Longrightarrow> checker_step s (s\<lparr>cl_checker := Connecting\<rparr>)"
| mended: "cl_checker s = Mending \<Longrightarrow> cl_fail s = 0 \<Longrightarrow> checker_step s (s\<lparr>cl_checker := Between\<rparr>)"
| connected: "cl_checker s = Connecting \<Longrightarrow> checker_step s (s\<lparr>cl_checker := AtPush\<rparr>)"
| unconnected: "cl_checker s = Connecting \<Longrightarrow> checker_step s (s\<lparr>cl_checker := Between\<rparr>)"
| push: "cl_checker s = AtPush \<Longrightarrow> mutex_free s \<Longrightarrow>
    checker_step s (s\<lparr>cl_fail := cl_fail s - 1, cl_checker := Mending\<rparr>)"

inductive closer_step :: "close_state \<Rightarrow> close_state \<Rightarrow> bool" where
  stop: "cl_closer s = Open \<Longrightarrow> closer_step s (s\<lparr>cl_stop := True, cl_closer := Joining\<rparr>)"
| joined: "cl_closer s = Joining \<Longrightarrow> cl_checker s = Ended \<Longrightarrow> closer_step s (s\<lparr>cl_closer := Closed\<rparr>)"

definition close_new :: close_state where
  "close_new = \<lparr>cl_stop = False, cl_left = 0, cl_fail = 0, cl_checker = Between, cl_closer = Open\<rparr>"

inductive close_reached :: "close_state \<Rightarrow> bool" where
  new: "close_reached close_new"
| checker: "close_reached s \<Longrightarrow> checker_step s t \<Longrightarrow> close_reached t"
| closer: "close_reached s \<Longrightarrow> closer_step s t \<Longrightarrow> close_reached t"

definition needs_mutex :: "checker_pc \<Rightarrow> bool" where
  "needs_mutex pc \<longleftrightarrow> pc \<in> {AtSize, AtTake, AtReturn, AtPush}"

definition close_moves :: "close_state \<Rightarrow> close_state \<Rightarrow> bool" where
  "close_moves s t \<longleftrightarrow> checker_step s t \<or> closer_step s t"

definition stuck :: "close_state \<Rightarrow> bool" where
  "stuck s \<longleftrightarrow> cl_closer s \<noteq> Closed \<and> (\<forall>t. \<not> close_moves s t)"

lemma joining_invariant: "close_reached s \<Longrightarrow>
    (cl_closer s = Open \<longrightarrow> \<not> cl_stop s \<and> cl_checker s \<noteq> Ended) \<and> (cl_closer s = Joining \<longrightarrow> cl_stop s)"
  by (induction rule: close_reached.induct)
    (auto simp: close_new_def checker_step.simps closer_step.simps)

lemma stuck_iff:
  assumes "close_reached s"
  shows "stuck s \<longleftrightarrow> cl_closer s = Joining \<and> needs_mutex (cl_checker s)"
  using joining_invariant [OF assms]
  by (cases "cl_checker s"; cases "cl_closer s"; cases "cl_stop s"; cases "cl_fail s")
    (auto simp: stuck_def close_moves_def checker_step.simps closer_step.simps mutex_free_def needs_mutex_def)

text \<open>What can become of a \<open>close\<close> that waits: by where the check thread is.\<close>

definition can_end :: "close_state \<Rightarrow> bool" where
  "can_end s \<longleftrightarrow> (\<exists>t. close_moves\<^sup>*\<^sup>* s t \<and> cl_closer t = Closed)"

lemma can_end_step: "checker_step s t \<Longrightarrow> can_end t \<Longrightarrow> can_end s"
  unfolding can_end_def
  using converse_rtranclp_into_rtranclp [of close_moves s t] by (auto simp: close_moves_def)

lemma joining_ends:
  assumes "cl_closer s = Joining" and "cl_stop s" and "\<not> needs_mutex (cl_checker s)"
  shows "can_end s"
proof -
  have ended: "can_end u" if "cl_closer u = Joining" "cl_checker u = Ended" for u
    using closer_step.joined [OF that] unfolding can_end_def
    by (intro exI [of _ "u\<lparr>cl_closer := Closed\<rparr>"]) (simp add: close_moves_def r_into_rtranclp)
  have between: "can_end u" if "cl_closer u = Joining" "cl_stop u" "cl_checker u = Between" for u
    by (rule can_end_step [OF checker_step.leave [OF that(3,2)]], rule ended) (simp_all add: that)
  have connecting: "can_end u" if "cl_closer u = Joining" "cl_stop u" "cl_checker u = Connecting" for u
    by (rule can_end_step [OF checker_step.unconnected [OF that(3)]], rule between) (simp_all add: that)
  have mending: "can_end u" if u: "cl_closer u = Joining" "cl_stop u" "cl_checker u = Mending" for u
  proof (cases "cl_fail u = 0")
    case True
    show ?thesis by (rule can_end_step [OF checker_step.mended [OF u(3) True]], rule between) (simp_all add: u)
  next
    case False
    then have f: "0 < cl_fail u" by simp
    show ?thesis by (rule can_end_step [OF checker_step.mend [OF u(3) f]], rule connecting) (simp_all add: u)
  qed
  have in_loop: "can_end u" if u: "cl_closer u = Joining" "cl_stop u" "cl_checker u = InLoop" for u
    by (rule can_end_step [OF checker_step.rounds_over [OF u(3) disjI2 [OF u(2)]]], rule mending) (simp_all add: u)
  have pinging: "can_end u" if u: "cl_closer u = Joining" "cl_stop u" "cl_checker u = Pinging" for u
    by (rule can_end_step [OF checker_step.unanswered [OF u(3)]], rule in_loop) (simp_all add: u)
  show ?thesis
    using assms ended between connecting mending in_loop pinging
    by (cases "cl_checker s") (simp_all add: needs_mutex_def)
qed

lemma pinging_hangs:
  assumes "cl_closer s = Joining" and "cl_checker s = Pinging"
  shows "\<exists>t. close_moves s t \<and> cl_closer t = Joining \<and> needs_mutex (cl_checker t)"
  using checker_step.answered [OF assms(2)] assms(1)
  by (intro exI [of _ "s\<lparr>cl_checker := AtReturn\<rparr>"]) (simp add: close_moves_def needs_mutex_def)

text \<open>
  C17. Closing the Redis pool deadlocks when the check thread still needs the mutex that \<open>close\<close>
  holds, and only then: a reachable state in which neither thread can move before the pool is closed
  is one where \<open>close\<close> waits in its \<open>join\<close> and the check thread waits for the mutex. Such a state is reachable, by a \<open>close\<close>
  that starts inside a health check. Wherever else the check thread is when \<open>close\<close> waits, also inside a check, closing can still come to its
  end; while a connection is pinged both can happen: an answer to the ping brings the deadlock.
\<close>

theorem close_deadlock:
  "(\<exists>s. close_reached s \<and> stuck s) \<and>
   (\<forall>s. close_reached s \<longrightarrow>
     (stuck s \<longleftrightarrow> cl_closer s = Joining \<and> needs_mutex (cl_checker s)) \<and>
     (cl_closer s = Joining \<and> \<not> needs_mutex (cl_checker s) \<longrightarrow>
       (\<exists>t. close_moves\<^sup>*\<^sup>* s t \<and> cl_closer t = Closed)) \<and>
     (cl_closer s = Joining \<and> cl_checker s = Pinging \<longrightarrow> (\<exists>t. close_moves s t \<and> stuck t)))"
proof (intro conjI allI impI)
  let ?s1 = "close_new\<lparr>cl_checker := AtSize\<rparr>"
  let ?s2 = "?s1\<lparr>cl_stop := True, cl_closer := Joining\<rparr>"
  have "checker_step close_new ?s1" "closer_step ?s1 ?s2"
    by (simp_all add: checker_step.simps closer_step.simps close_new_def)
  then have r: "close_reached ?s2" by (meson close_reached.intros)
  then have "stuck ?s2" by (simp add: stuck_iff needs_mutex_def)
  with r show "\<exists>s. close_reached s \<and> stuck s" by blast
next
  fix s assume "close_reached s"
  then show "stuck s \<longleftrightarrow> cl_closer s = Joining \<and> needs_mutex (cl_checker s)" by (rule stuck_iff)
next
  fix s assume "close_reached s" "cl_closer s = Joining \<and> \<not> needs_mutex (cl_checker s)"
  with joining_invariant [of s] joining_ends [of s]
  show "\<exists>t. close_moves\<^sup>*\<^sup>* s t \<and> cl_closer t = Closed" unfolding can_end_def by blast
next
  fix s assume s: "close_reached s" "cl_closer s = Joining \<and> cl_checker s = Pinging"
  with pinging_hangs [of s] obtain t where
    t: "close_moves s t" "cl_closer t = Joining \<and> needs_mutex (cl_checker t)" by blast
  with s(1) have "close_reached t" by (auto simp: close_moves_def intro: close_reached.intros)
  with t show "\<exists>t. close_moves s t \<and> stuck t" by (auto simp: stuck_iff)
qed

end
