(* ===== verification/WitnessesSystem.thy ===== *)
theory WitnessesSystem
  imports DemoServer EndToEnd CrossServer MainSpec Worker PoolThreads
begin

text \<open>
  The properties that span components and threads, each at one concrete input: the server of the
  theory DemoServer, two servers joined by calls, and short runs of the step relations.
\<close>

section \<open>Bytes in, bytes out\<close>

lemma demo_waits: "waits_head [] (w_sess demo_world r)" "w_msg_que demo_world = []"
  using demo_session_waits by (simp_all add: demo_world_def)


lemma server_text_length:
  "j_styled (e_json server_env) d \<noteq> []" "length (j_styled (e_json server_env) d) \<le> 2048"
  by (simp_all add: server_env_def server_json_def)

lemma login_bytes_to_bytes_witness:
  "\<exists>w' txt. mseq (feed server_env 1 (packet_bytes (msg_id MSG_CHAT_LOGIN, ''login'')) (replicate 9 1))
      (dealMsg server_env) demo_world = Ret () w' \<and>
    cs_wire (w_sess w' 1) = [msg_packet txt (msg_id MSG_CHAT_LOGIN_RSP)]"
proof -
  have q: "cs_send_que (w_sess demo_world 1) = []" "cs_wire (w_sess demo_world 1) = []"
    by (simp_all add: demo_world_def demo_session_def)
  from login_bytes_to_bytes [OF server_services(1) server_net(1) demo_ready demo_waits(1) q(1) demo_waits(2)
      server_login(1) _ _ _ _ demo_count(1) [unfolded demo_v_def] _ refl server_text_length, of "replicate 9 1"]
  obtain w' where "mseq (feed server_env 1 (packet_bytes (msg_id MSG_CHAT_LOGIN, ''login'')) (replicate 9 1))
      (dealMsg server_env) demo_world = Ret () w'"
    "cs_wire (w_sess w' 1) = cs_wire (w_sess demo_world 1) @
      [msg_packet (j_styled (e_json server_env) (fst (login_spec server_env demo_db 1 1 ''tok'' 0
        (view_of demo_view demo_db demo_world)))) (msg_id MSG_CHAT_LOGIN_RSP)]"
    by (auto simp del: msg_id.simps)
  with q(2) show ?thesis by (auto simp del: msg_id.simps)
qed

lemma header_out_of_bounds_witness:
  "(\<exists>w'. cs_read_some server_env 1 True (be16 2049 @ be16 5) demo_world = Ret () w' \<and> w_sessions w' ''a'' = None) \<and>
   cs_read_some server_env 1 True (be16 7 @ be16 (- 1)) demo_world = Undef"
  using header_out_of_bounds [OF server_net(1) demo_waits(1), of 1 2049 5]
    header_out_of_bounds [OF server_net(1) demo_waits(1), of 1 7 "- 1"]
  by (auto simp: demo_world_def demo_session_def)

lemma lost_connection_logs_out_witness:
  "\<exists>w'. cs_read_some server_env 3 False []
      (chat_world\<lparr>w_ext := (w_ext chat_world)\<lparr>dx_hkv := (\<lambda>k. if k = LOGIN_COUNT then [''s1'' \<mapsto> ''1''] else Map.empty)\<rparr>\<rparr>) =
    Ret () w' \<and> w_users w' 1 = None \<and> cs_b_close (w_sess w' 3)"
proof -
  let ?w = "chat_world\<lparr>w_ext := (w_ext chat_world)\<lparr>dx_hkv := (\<lambda>k. if k = LOGIN_COUNT then [''s1'' \<mapsto> ''1''] else Map.empty)\<rparr>\<rparr>"
  have r: "ready ?w" using chat_ready by (simp add: ready_def)
  have c: "count_is server_env (view_of demo_view demo_db ?w) 1"
    by (simp add: count_is_def view_of_def demo_view_def server_name show_one held_hash_def chat_world_def
        prefix_defs)
  have s: "w_sess ?w 3 = demo_session\<lparr>cs_uid := 1\<rparr>" by (simp add: chat_world_def)
  from lost_connection_logs_out [OF server_services(1) server_quiet r c, of 3
      "\<lparr>ro_kind = ReadHead, ro_read_len = 0, ro_total_len = 4\<rparr>"] obtain w' where
    "cs_read_some server_env 3 False [] ?w = Ret () w'" "w_users w' 1 = None" "cs_b_close (w_sess w' 3)"
    unfolding s by (auto simp: demo_session_def server_name cstr_def)
  then show ?thesis by blast
qed

section \<open>main\<close>

definition demo_main :: "demo_ext main_api" where
  "demo_main = \<lparr>ma_build = (\<lambda>a x. (True, x)), ma_bind = (\<lambda>p x. (True, x)),
    ma_run = mmodify (\<lambda>w. w\<lparr>w_redis := (w_redis w)\<lparr>rp_in_check := False\<rparr>\<rparr>),
    ma_wait = (\<lambda>x. (True, x))\<rparr>"

definition busy_port :: "demo_ext main_api" where
  "busy_port = demo_main\<lparr>ma_bind := (\<lambda>p x. (False, x))\<rparr>"

lemma demo_port: "atoi (cstr (cfg_get (e_cfg server_env) ''SelfServer'' ''Port'')) t = Ret 0 t"
  by (simp add: server_env_def demo_env_def demo_cfg_def cfg_get_def config_at_def section_at_def
      cstr_def atoi_def strtol_def read_sign_def run_simps)


lemma bind_failure_aborts_witness: "chat_main server_env busy_port 5 ''b'' demo_world = Abort"
  by (rule bind_failure_aborts [OF demo_ready, where port = 0])
    (simp_all add: demo_main_def busy_port_def demo_port)

lemma login_after_close_refused_witness:
  "\<exists>w'. loginHandler server_env 1 ''login'' (demo_world\<lparr>w_redis := demo_pool\<lparr>rp_stop := True\<rparr>\<rparr>) = Ret () w'"
  using login_after_close_refused [OF server_net(1) server_login(1),
      of "demo_world\<lparr>w_redis := demo_pool\<lparr>rp_stop := True\<rparr>\<rparr>" 1] by auto

section \<open>Threads\<close>

lemma one_post: "reached (LogicSystem_new\<lparr>lg_que := [m], lg_posted := [m], lg_owed := 1\<rparr>)"
  using reached.post [OF reached.new post_step.push [of LogicSystem_new m]]
  by (simp add: LogicSystem_new_def locked_def)

lemma posts_not_lost_witness:
  "lg_posted (LogicSystem_new\<lparr>lg_que := [7 :: nat], lg_posted := [7], lg_owed := 1\<rparr>) = [7]"
  using posts_not_lost [OF one_post [of "7 :: nat"]] by simp

lemma front_message_handled_witness:
  "\<exists>t. internal_step\<^sup>*\<^sup>* (LogicSystem_new\<lparr>lg_que := [7 :: nat], lg_posted := [7], lg_owed := 1\<rparr>) t \<and>
    lg_handled t = [7]"
  using front_message_handled [OF one_post [of "7 :: nat"], of 7 "[]"] by (auto simp: LogicSystem_new_def)

lemma sleeping_threads_covered_witness:
  "\<not> pt_stop ((pool_new 0)\<lparr>pt_asleep := 1\<rparr>) \<and> pt_idle ((pool_new 0)\<lparr>pt_asleep := 1\<rparr>) = 0"
proof -
  have "get_step (pool_new 0) ((pool_new 0)\<lparr>pt_asleep := 1\<rparr>)"
    using get_step.sleeps [of "pool_new 0"] by (simp add: pool_new_def can_take_def)
  then have "pool_runs 0 0 ((pool_new 0)\<lparr>pt_asleep := 1\<rparr>)" by (rule pool_runs.get [OF pool_runs.new])
  with sleeping_threads_covered [THEN conjunct1, of 0] show ?thesis by (force simp: pool_new_def)
qed

lemma close_deadlock_witness: "\<not> stuck close_new"
proof -
  have "stuck close_new \<longleftrightarrow> cl_closer close_new = Joining \<and> needs_mutex (cl_checker close_new)"
    by (rule close_deadlock [THEN conjunct2, rule_format, OF close_reached.new, THEN conjunct1])
  then show ?thesis by (simp add: close_new_def)
qed

section \<open>Two servers\<close>

text \<open>
  The outside world of the first server holds the second one: Redis and the database are those of
  the theory Demo on the first component, a call runs the handler of the second server.
\<close>

type_synonym two_ext = "demo_ext \<times> demo_ext world"

definition first :: "(demo_ext \<Rightarrow> 'a \<times> demo_ext) \<Rightarrow> two_ext \<Rightarrow> 'a \<times> two_ext" where
  "first f x = (fst (f (fst x)), (snd (f (fst x)), snd x))"

definition two_redis :: "two_ext redis_api" where
  "two_redis = \<lparr>r_connect = (\<lambda>host port. first (r_connect demo_redis host port)),
     r_command = (\<lambda>c call. first (r_command demo_redis c call))\<rparr>"

definition two_sql :: "(two_ext, demo_row) sql_api" where
  "two_sql =
    \<lparr>s_connect = (\<lambda>url user pass. first (s_connect demo_sql url user pass)),
     s_set_schema = (\<lambda>c schema. first (s_set_schema demo_sql c schema)),
     s_now = first (s_now demo_sql), s_query = (\<lambda>c stmt args. first (s_query demo_sql c stmt args)),
     s_update = (\<lambda>c stmt args. first (s_update demo_sql c stmt args)),
     s_int = s_int demo_sql, s_str = s_str demo_sql\<rparr>"

definition two_view :: "two_ext redis_view" where
  "two_view = \<lparr>kv = (\<lambda>x. dx_kv (fst x)), hkv = (\<lambda>x. held_hash (fst x))\<rparr>"

definition two_db ::
  "(two_ext, demo_row, (int32 \<Rightarrow> demo_row list) \<times> (int32 \<Rightarrow> demo_row list)) db_view" where
  "two_db = \<lparr>db_of = (\<lambda>x. db_of demo_db (fst x)), db_query = db_query demo_db,
     db_update = db_update demo_db\<rparr>"

definition two_rpc :: "two_ext rpc_api" where
  "two_rpc =
    \<lparr>rpc_add = (\<lambda>c q r x. ((False, r), x)), rpc_auth = (\<lambda>c q r x. ((False, r), x)),
     rpc_text = (\<lambda>c q r x. case svc_NotifyTextChatMsg server_env q new_TextChatMsgRsp (snd x) of
        Ret r' y \<Rightarrow> ((True, r'), (fst x, y)) | _ \<Rightarrow> ((False, r), x)),
     rpc_chat_server = (\<lambda>c q r x. ((False, r), x)), rpc_login = (\<lambda>c q r x. ((False, r), x))\<rparr>"

definition two_env :: "(two_ext, demo_row, jval) env" where
  "two_env = \<lparr>e_redis = two_redis, e_sql = two_sql, e_json = server_json, e_rpc = two_rpc,
     e_close = (\<lambda>x. (True, x)), e_cfg = demo_cfg, e_host = demo_host, e_nrvo = True\<rparr>"

definition two_world :: "two_ext world" where
  "two_world =
    \<lparr>w_ext = (demo_ext0\<lparr>dx_kv := [''uip_1'' \<mapsto> ''s2'']\<rparr>, chat_world), w_redis = demo_pool,
     w_mysql = demo_mysql, w_users = Map.empty, w_sess = (\<lambda>_. demo_session), w_sessions = Map.empty,
     w_accepting = None, w_peers = [''s2'' \<mapsto> ChatConPool_new 1 ''h'' ''p''], w_msg_que = []\<rparr>"

lemma two_services: "services two_env two_view two_db"
proof -
  have r: "redis_serves two_redis two_view"
    unfolding redis_serves_def
    by (intro conjI allI) (auto simp: two_redis_def two_view_def demo_redis_def bulk_def first_def
        wrong_kind_def held_hash_def fun_eq_iff split: option.splits)
  have c: "dx_users (snd (r_command demo_redis c call x)) = dx_users x"
    "dx_friends (snd (r_command demo_redis c call x)) = dx_friends x" for c call x
    using demo_command_keeps [of c call x] by (simp_all add: demo_redis_def demo_db_def)
  have s: "s_query demo_sql c stmt args x = (db_query demo_db stmt args (db_of demo_db x), x)"
    "s_update demo_sql c stmt args x = (Some 1, x)" for c stmt args x
    using demo_services [of demo_env] by (simp_all add: services_def demo_env_def demo_sql_def demo_update_def)
  show ?thesis
    unfolding services_def
    by (simp add: two_env_def r) (simp add: two_redis_def two_sql_def two_db_def two_view_def first_def c s demo_db_def)
qed

lemma chat_text_crosses_witness:
  "\<exists>w' d. text_steps two_env 2 1 chat_texts two_world = Ret () w' \<and>
    w_sess (snd (w_ext w')) 3 = sent server_env MSG_NOTIFY_TEXT_CHAT_MSG_REQ d (demo_session\<lparr>cs_uid := 1\<rparr>) \<and>
    jget ''fromuid'' d = Some (DInt 2)"
proof -
  let ?pool = "ChatConPool_new 1 ''h'' ''p''"
  let ?msgs = "[\<lparr>tcd_msgid = ''m1'', tcd_msgcontent = ''hello''\<rparr>]"
  have 1: "ready two_world" using demo_ready by (simp add: ready_def two_world_def demo_world_def)
  have 2: "kv two_view (w_ext two_world) (USERIPPREFIX @ to_string 1) = Some ''s2''"
    by (simp add: two_view_def two_world_def show_one prefix_defs)
  have 3: "cstr ''s2'' = ''s2''" by (simp add: cstr_def)
  have 4: "''s2'' \<noteq> self_name two_env"
    using server_name(1) by (simp add: self_name_def two_env_def server_env_def demo_env_def)
  have 5: "w_peers two_world ''s2'' = Some ?pool" "\<not> cp_stop ?pool" "cp_conns ?pool = (''h:p'', 0) # []"
    by (simp_all add: two_world_def ChatConPool_new_def)
  have 6: "\<forall>s :: two_ext world. mfold (read_text (e_json two_env)) (j_elements (e_json two_env) chat_texts) [] s
      = Ret ?msgs s"
    by (simp add: two_env_def server_json_def demo_json_def chat_texts_def read_text_def run_simps
        get_str_def get_member_def demo_member_def)
  have 7: "carries_text two_env server_env snd (\<lambda>y x. (fst x, y))"
    by (simp add: carries_text_def two_env_def two_rpc_def)
  have 8: "snd (w_ext two_world) = chat_world" by (simp add: two_world_def)
  have 9: "ready (snd (w_ext two_world))" "w_users (snd (w_ext two_world)) 1 = Some 3"
    "w_sess (snd (w_ext two_world)) 3 = demo_session\<lparr>cs_uid := 1\<rparr>"
    unfolding 8 using chat_ready by (simp_all add: chat_world_def)
  from chat_text_crosses [OF two_services 1 2 3 4 5 6 _ 7 server_net(1) 9(1,2), of 2] show ?thesis
    unfolding 9(3) by blast
qed

lemma add_notify_paths_agree_witness:
  "\<exists>w' r. svc_NotifyAddFriend server_env (add_request 2 ''bob'' ''b'' 1 (Some alice)) new_AddFriendRsp chat_world = Ret r w' \<and>
    afr_error r = error_code SUCCESS \<and> afr_touid r = 1"
proof -
  have n: "case Some alice of None \<Rightarrow> True
      | Some u \<Rightarrow> cstr (ui_icon u) = ui_icon u \<and> cstr (ui_nick u) = ui_nick u"
    by (simp add: alice_def cstr_def)
  from add_notify_paths_agree [OF server_net(1) chat_user n, of 2 "''bob''" "''b''" demo_view demo_db new_AddFriendRsp]
  obtain d r where
    "computes demo_view demo_db (svc_NotifyAddFriend server_env (add_request 2 ''bob'' ''b'' 1 (Some alice)) new_AddFriendRsp)
      chat_v r (chat_v\<lparr>v_sess := (v_sess chat_v)(3 := sent server_env MSG_NOTIFY_ADDFRIEND_REQ d (v_sess chat_v 3))\<rparr>)"
    "afr_error r = error_code SUCCESS" "afr_touid r = 1" by blast
  with chat_run [OF this(1)] show ?thesis by blast
qed

text \<open>User 2 is online here, has asked user 1, and the record of user 1 is cached.\<close>

definition agree_world :: "demo_ext world" where
  "agree_world = chat_world
    \<lparr>w_users := [2 \<mapsto> 4], w_ext := (w_ext chat_world)
      \<lparr>dx_kv := (dx_kv (w_ext chat_world))(USER_BASE_INFO @ ''1'' \<mapsto> ''alice'')\<rparr>\<rparr>"

lemma auth_notify_paths_agree_witness:
  "\<exists>w' d. svc_NotifyAuthFriend server_env (new_AuthFriendReq\<lparr>auq_fromuid := 1, auq_touid := 2\<rparr>)
      new_AuthFriendRsp agree_world =
      Ret (new_AuthFriendRsp\<lparr>aur_error := error_code SUCCESS, aur_fromuid := 1, aur_touid := 2\<rparr>) w' \<and>
    w_sess w' 4 = sent server_env MSG_NOTIFY_AUTH_FRIEND_REQ d demo_session"
proof -
  let ?v = "view_of demo_view demo_db agree_world"
  have r: "ready agree_world" using chat_ready by (simp add: ready_def agree_world_def)
  have db: "v_db ?v = v_db demo_v"
    by (simp add: view_of_def demo_v_def agree_world_def chat_world_def demo_world_def demo_db_def demo_ext0_def)
  have d: "v_db ?v = accepted server_env demo_db 2 1 ''x'' (v_db ?v)"
    by (simp add: accepted_def befriended_def Let_def demo_db_def)
  have k: "v_kv ?v (USER_BASE_INFO @ to_string 1) = Some ''alice''"
    by (simp add: view_of_def agree_world_def demo_view_def show_one)
  have h: "home_of 2 ?v = Some (self_name server_env)"
    by (simp add: home_of_def view_of_def agree_world_def chat_world_def demo_view_def show_one prefix_defs
        cstr_def server_name)
  have u: "v_users ?v 2 = Some 4" by (simp add: view_of_def agree_world_def)
  have c: "cstr ''alice'' = ''alice''" by (simp add: cstr_def)
  have s: "v_sess ?v 4 = demo_session" by (simp add: view_of_def agree_world_def chat_world_def)
  note a = demo_alice(1) [folded db]
  from auth_notify_paths_agree [OF server_services(1) server_net(1) refl d a k c
      alice_reads_back h u u, of new_AuthFriendRsp] obtain x where
    "computes demo_view demo_db (svc_NotifyAuthFriend server_env
        (new_AuthFriendReq\<lparr>auq_fromuid := 1, auq_touid := 2\<rparr>) new_AuthFriendRsp) ?v
      (new_AuthFriendRsp\<lparr>aur_error := error_code SUCCESS, aur_fromuid := 1, aur_touid := 2\<rparr>)
      (?v\<lparr>v_sess := (v_sess ?v)(4 := sent server_env MSG_NOTIFY_AUTH_FRIEND_REQ x (v_sess ?v 4))\<rparr>)"
    by blast
  from computesD [OF this r refl] obtain w' where
    w': "svc_NotifyAuthFriend server_env (new_AuthFriendReq\<lparr>auq_fromuid := 1, auq_touid := 2\<rparr>)
      new_AuthFriendRsp agree_world =
      Ret (new_AuthFriendRsp\<lparr>aur_error := error_code SUCCESS, aur_fromuid := 1, aur_touid := 2\<rparr>) w'"
      "view_of demo_view demo_db w' =
        ?v\<lparr>v_sess := (v_sess ?v)(4 := sent server_env MSG_NOTIFY_AUTH_FRIEND_REQ x (v_sess ?v 4))\<rparr>"
    by blast
  from arg_cong [OF w'(2), of v_sess] have "w_sess w' 4 = sent server_env MSG_NOTIFY_AUTH_FRIEND_REQ x demo_session"
    by (simp add: view_of_def s [unfolded view_of_def, simplified])
  with w'(1) show ?thesis by blast
qed

end
