(* ===== verification/Friendship.thy ===== *)
theory Friendship
  imports FriendSpec "HOL-Library.AList"
begin

text \<open>
  What friend requests and acceptances do to the tables of the database. The statements of
  \<open>MySqlDao.cpp\<close> are given the meaning SQL gives them on tables whose keys are the pairs of users
  (\<open>friend_schema\<close>); with it, a request followed by an acceptance makes two friends, and the friend
  lists that a login sends show it.
\<close>

section \<open>The tables\<close>

text \<open>
  Applications by (from, to) with status and alias, friends by (self, friend) with the alias, both in
  the order of insertion; the records of the users as the server reads them.
\<close>

record friend_tables =
  ft_user :: "int32 \<Rightarrow> UserInfo option"
  ft_apply :: "((int32 \<times> int32) \<times> (int32 \<times> string)) list"
  ft_friend :: "((int32 \<times> int32) \<times> string) list"

definition put_apply :: "int32 \<Rightarrow> int32 \<Rightarrow> string \<Rightarrow> friend_tables \<Rightarrow> friend_tables" where
  "put_apply a b t T = (case map_of (ft_apply T) (a, b) of
      None \<Rightarrow> T\<lparr>ft_apply := ft_apply T @ [((a, b), (0, t))]\<rparr>
    | Some (st, _) \<Rightarrow> T\<lparr>ft_apply := AList.update (a, b) (st, t) (ft_apply T)\<rparr>)"

definition mark_apply :: "int32 \<Rightarrow> int32 \<Rightarrow> friend_tables \<Rightarrow> friend_tables" where
  "mark_apply a b T = (case map_of (ft_apply T) (a, b) of
      None \<Rightarrow> T
    | Some (_, t) \<Rightarrow> T\<lparr>ft_apply := AList.update (a, b) (1, t) (ft_apply T)\<rparr>)"

definition put_friend :: "int32 \<Rightarrow> int32 \<Rightarrow> string \<Rightarrow> friend_tables \<Rightarrow> friend_tables" where
  "put_friend a b t T = (case map_of (ft_friend T) (a, b) of
      None \<Rightarrow> T\<lparr>ft_friend := ft_friend T @ [((a, b), t)]\<rparr>
    | Some _ \<Rightarrow> T)"

lemma put_friend_fields [simp]:
  "ft_user (put_friend a b t T) = ft_user T" "ft_apply (put_friend a b t T) = ft_apply T"
  by (simp_all add: put_friend_def split: option.splits prod.splits)

lemma mark_apply_fields [simp]:
  "ft_user (mark_apply a b T) = ft_user T" "ft_friend (mark_apply a b T) = ft_friend T"
  by (simp_all add: mark_apply_def split: option.splits prod.splits)

lemma put_apply_fields [simp]:
  "ft_user (put_apply a b t T) = ft_user T" "ft_friend (put_apply a b t T) = ft_friend T"
  by (simp_all add: put_apply_def split: option.splits prod.splits)

text \<open>The friends of a user and the aliases for them.\<close>

definition rows_of :: "int32 \<Rightarrow> friend_tables \<Rightarrow> (int32 \<times> string) list" where
  "rows_of a T = map (\<lambda>((s, f), t). (f, t)) (filter (\<lambda>((s, f), t). s = a) (ft_friend T))"

text \<open>
  The meaning of the statements: \<open>tab\<close> reads the tables off the database. INSERT ... ON DUPLICATE KEY
  UPDATE, UPDATE, INSERT IGNORE, and the SELECTs of the aliases, the friends (in any order) and the users.
\<close>

definition friend_schema ::
  "('x, 'row) sql_api \<Rightarrow> ('x, 'row, 'd) db_view \<Rightarrow> ('d \<Rightarrow> friend_tables) \<Rightarrow> bool" where
  "friend_schema S D tab \<longleftrightarrow>
    (\<forall>a b t d. \<exists>n d'. db_update D add_apply_stmt [SqlInt a, SqlInt b, SqlString t] d = (Some n, d') \<and>
       tab d' = put_apply a b t (tab d)) \<and>
    (\<forall>a b d. \<exists>n d'. db_update D auth_apply_stmt [SqlInt a, SqlInt b] d = (Some n, d') \<and>
       tab d' = mark_apply a b (tab d)) \<and>
    (\<forall>a b t d. \<exists>n d'. db_update D insert_friend_stmt [SqlInt a, SqlInt b, SqlString t] d = (Some n, d') \<and>
       tab d' = put_friend a b t (tab d)) \<and>
    (\<forall>a b d. \<exists>rows. db_query D apply_alias_stmt [SqlInt a, SqlInt b] d = Some rows \<and>
       map (\<lambda>r. s_str S r ''alias_name'') rows =
         (case map_of (ft_apply (tab d)) (a, b) of None \<Rightarrow> [] | Some (_, t) \<Rightarrow> [Some t])) \<and>
    (\<forall>a d. \<exists>rows. db_query D ''SELECT * FROM friend WHERE self_id = ?'' [SqlInt a] d = Some rows \<and>
       mset (map (\<lambda>r. (s_int S r ''friend_id'', s_str S r ''alias_name'')) rows) =
         mset (map (\<lambda>(f, t). (Some f, Some t)) (rows_of a (tab d)))) \<and>
    (\<forall>a d. user_of S D a d = ft_user (tab d) a)"

lemma schema_add_apply: "friend_schema S D tab \<Longrightarrow>
    tab (snd (db_update D add_apply_stmt [SqlInt a, SqlInt b, SqlString t] d)) = put_apply a b t (tab d)"
  unfolding friend_schema_def by (metis snd_conv)

lemma schema_auth_apply: "friend_schema S D tab \<Longrightarrow>
    tab (snd (db_update D auth_apply_stmt [SqlInt a, SqlInt b] d)) = mark_apply a b (tab d)"
  unfolding friend_schema_def by (metis snd_conv)

lemma schema_insert: "friend_schema S D tab \<Longrightarrow>
    \<exists>n d'. db_update D insert_friend_stmt [SqlInt a, SqlInt b, SqlString t] d = (Some n, d') \<and>
       tab d' = put_friend a b t (tab d)"
  by (simp add: friend_schema_def)

lemma schema_apply_alias:
  assumes "friend_schema S D tab"
  shows "alias_of S (db_query D apply_alias_stmt [SqlInt a, SqlInt b] d) =
    (case map_of (ft_apply (tab d)) (a, b) of None \<Rightarrow> (False, []) | Some (_, t) \<Rightarrow> (True, t))"
proof -
  from assms obtain rows where "db_query D apply_alias_stmt [SqlInt a, SqlInt b] d = Some rows"
    "map (\<lambda>r. s_str S r ''alias_name'') rows =
       (case map_of (ft_apply (tab d)) (a, b) of None \<Rightarrow> [] | Some (_, t) \<Rightarrow> [Some t])"
    unfolding friend_schema_def by blast
  then show ?thesis by (cases rows) (auto simp: alias_of_def split: option.splits prod.splits)
qed

lemma schema_user: "friend_schema S D tab \<Longrightarrow> user_of S D a d = ft_user (tab d) a"
  by (simp add: friend_schema_def)

section \<open>The friend list\<close>

definition friend_record :: "friend_tables \<Rightarrow> int32 \<times> string \<Rightarrow> UserInfo option" where
  "friend_record T = (\<lambda>(f, t). map_option (\<lambda>u. u\<lparr>ui_alias_name := t\<rparr>) (ft_user T f))"

definition listed_friends :: "int32 \<Rightarrow> friend_tables \<Rightarrow> UserInfo multiset" where
  "listed_friends a T = mset (List.map_filter (friend_record T) (rows_of a T))"

lemma mset_map_filter: "mset xs = mset ys \<Longrightarrow> mset (List.map_filter f xs) = mset (List.map_filter f ys)"
  by (simp add: List.map_filter_def mset_filter)

lemma map_filter_append: "List.map_filter f (xs @ ys) = List.map_filter f xs @ List.map_filter f ys"
  by (simp add: List.map_filter_def)

lemma friends_from_listed:
  assumes "friend_schema S D tab"
    and "map (\<lambda>r. (s_int S r ''friend_id'', s_str S r ''alias_name'')) rows =
         map (\<lambda>(f, t). (Some f, Some t)) fts"
  shows "friends_from S D d rows = (True, List.map_filter (friend_record (tab d)) fts)"
  using assms(2)
proof (induction fts arbitrary: rows)
  case Nil
  then show ?case by (simp add: map_filter_simps)
next
  case (Cons x fts)
  obtain f t where x: "x = (f, t)" by (cases x)
  with Cons.prems obtain r rs where r: "rows = r # rs" "s_int S r ''friend_id'' = Some f"
    "s_str S r ''alias_name'' = Some t"
    "map (\<lambda>r. (s_int S r ''friend_id'', s_str S r ''alias_name'')) rs =
       map (\<lambda>(f, t). (Some f, Some t)) fts"
    by (auto simp: map_eq_Cons_conv)
  with Cons.IH [OF r(4)] x show ?case
    by (simp add: map_filter_simps friend_record_def schema_user [OF assms(1)] split: option.splits)
qed

text \<open>Rows that are a permutation of readable ones are readable.\<close>

lemma readable_rows:
  assumes "mset (map h rows) = mset (map (\<lambda>(f, t). (Some f, Some t)) xs)"
  shows "\<exists>fts. map h rows = map (\<lambda>(f, t). (Some f, Some t)) fts \<and> mset fts = mset xs"
proof (intro exI conjI)
  let ?g = "\<lambda>(f, t). (Some f, Some t)" and ?i = "\<lambda>(f, t). (the f, the t)"
  have i: "?i (?g y) = y" for y :: "'a \<times> 'b" by (cases y) simp
  have s: "set (map h rows) = ?g ` set xs" using mset_eq_setD [OF assms] by simp
  have "?g (?i (h r)) = h r" if "r \<in> set rows" for r
  proof -
    from that have "h r \<in> set (map h rows)" by simp
    then obtain y where "h r = ?g y" unfolding s by (rule imageE)
    then show ?thesis by (simp only: i)
  qed
  then show "map h rows = map ?g (map ?i (map h rows))" by simp
  from arg_cong [OF assms, of "image_mset ?i"] show "mset (map ?i (map h rows)) = mset xs"
    by (simp add: multiset.map_comp o_def i del: map_map)
qed

lemma friends_of_listed:
  assumes "friend_schema S D tab"
  shows "\<exists>fs. friends_of S D a d = (True, fs) \<and> mset fs = listed_friends a (tab d)"
proof -
  from assms obtain rows where r:
    "db_query D ''SELECT * FROM friend WHERE self_id = ?'' [SqlInt a] d = Some rows"
    "mset (map (\<lambda>r. (s_int S r ''friend_id'', s_str S r ''alias_name'')) rows) =
       mset (map (\<lambda>(f, t). (Some f, Some t)) (rows_of a (tab d)))"
    unfolding friend_schema_def by blast
  from readable_rows [OF r(2)] obtain fts where
    "map (\<lambda>r. (s_int S r ''friend_id'', s_str S r ''alias_name'')) rows =
       map (\<lambda>(f, t). (Some f, Some t)) fts" "mset fts = mset (rows_of a (tab d))" by blast
  with friends_from_listed [OF assms, of rows fts d] mset_map_filter [of fts "rows_of a (tab d)"] r(1)
  show ?thesis by (auto simp: friends_of_def listed_friends_def)
qed

section \<open>An acceptance\<close>

lemma accepted_tables:
  assumes "friend_schema (e_sql E) D tab"
  shows "tab (accepted E D a b t d) =
    put_friend b a t (put_friend a b
      (case map_of (ft_apply (tab d)) (a, b) of None \<Rightarrow> [] | Some (_, al) \<Rightarrow> al) (mark_apply a b (tab d)))"
proof -
  let ?al = "case map_of (ft_apply (tab d)) (a, b) of None \<Rightarrow> [] | Some (_, al) \<Rightarrow> al"
  let ?d1 = "snd (db_update D auth_apply_stmt [SqlInt a, SqlInt b] d)"
  from schema_insert [OF assms, of a b ?al ?d1] obtain n d2 where
    i1: "db_update D insert_friend_stmt [SqlInt a, SqlInt b, SqlString ?al] ?d1 = (Some n, d2)"
      "tab d2 = put_friend a b ?al (tab ?d1)" by blast
  from schema_insert [OF assms, of b a t d2] obtain m d3 where
    i2: "db_update D insert_friend_stmt [SqlInt b, SqlInt a, SqlString t] d2 = (Some m, d3)"
      "tab d3 = put_friend b a t (tab d2)" by blast
  have al: "snd (alias_of (e_sql E) (db_query D apply_alias_stmt [SqlInt a, SqlInt b] d)) = ?al"
    by (simp add: schema_apply_alias [OF assms] split: option.splits)
  have "accepted E D a b t d = d3"
    unfolding accepted_def Let_def al befriended_def i1(1) prod.case option.case i2(1) snd_conv by (rule refl)
  with i1(2) i2(2) schema_auth_apply [OF assms, of a b d] show ?thesis by simp
qed

lemma listed_put_friend:
  "map_of (ft_friend T) (a, b) = None \<Longrightarrow> ft_user T b = Some u \<Longrightarrow>
    listed_friends c (put_friend a b t T) =
      (if c = a then {#u\<lparr>ui_alias_name := t\<rparr>#} else {#}) + listed_friends c T"
  by (simp add: listed_friends_def put_friend_def map_filter_append map_filter_simps rows_of_def
      friend_record_def cong: if_cong)

lemma put_apply_alias:
  "\<exists>st. map_of (ft_apply (put_apply a b t T)) (a, b) = Some (st, t)"
  by (auto simp: put_apply_def map_add_def update_conv' split: option.splits)

lemma map_of_put_friend:
  "map_of (ft_friend (put_friend a b t T)) k =
    (if k = (a, b) \<and> map_of (ft_friend T) (a, b) = None then Some t else map_of (ft_friend T) k)"
  by (auto simp: put_friend_def map_add_def split: option.splits)

lemma listed_mark [simp]: "listed_friends c (mark_apply a b T) = listed_friends c T"
  "listed_friends c (put_apply a b t T) = listed_friends c T"
  by (simp_all add: listed_friends_def rows_of_def friend_record_def)

text \<open>Two users who are not friends and an acceptance: what each sees.\<close>

lemma accepted_lists:
  assumes "friend_schema (e_sql E) D tab" and "a \<noteq> b"
    and "map_of (ft_friend (tab d)) (a, b) = None" and "map_of (ft_friend (tab d)) (b, a) = None"
    and "ft_user (tab d) a = Some ua" and "ft_user (tab d) b = Some ub"
    and "al = (case map_of (ft_apply (tab d)) (a, b) of None \<Rightarrow> [] | Some (_, al) \<Rightarrow> al)"
  shows "listed_friends a (tab (accepted E D a b t d)) = add_mset (ub\<lparr>ui_alias_name := al\<rparr>) (listed_friends a (tab d))"
    and "listed_friends b (tab (accepted E D a b t d)) = add_mset (ua\<lparr>ui_alias_name := t\<rparr>) (listed_friends b (tab d))"
  using assms(2-7)
  by (simp_all add: accepted_tables [OF assms(1)] listed_put_friend map_of_put_friend)

section \<open>A request and its acceptance\<close>

lemma view_parts_kept [simp]:
  "v_db (based E D uid v) = v_db v" "v_db (delivered E uid msg d v) = v_db v"
  "v_db (reply_sent E ref msg (d, v)) = v_db v"
  by (simp_all add: delivered_def reply_sent_def split: option.splits)

lemma home_kept [simp]:
  "home_of uid (based E D u v) = home_of uid v" "home_of uid (delivered E u msg d v) = home_of uid v"
  "home_of uid (reply_sent E ref msg (d, v)) = home_of uid v" "home_of uid (applied D x y t v) = home_of uid v"
  by (simp_all add: home_of_def delivered_def reply_sent_def applied_def split: option.splits)

lemma add_spec_db [simp]: "v_db (add_spec E D a name t b v) = v_db (applied D a b t v)"
  by (simp add: add_spec_def Let_def split: option.splits)

lemma add_spec_home [simp]: "home_of uid (add_spec E D a name t b v) = home_of uid v"
  by (simp add: add_spec_def Let_def split: option.splits)

lemma auth_spec_db [simp]: "v_db (auth_spec E D a b t v) = accepted E D a b t (v_db v)"
  by (simp add: auth_spec_def Let_def split: option.splits)

lemma applied_tables:
  "friend_schema S D tab \<Longrightarrow> tab (v_db (applied D a b t v)) = put_apply a b t (tab (v_db v))"
  by (drule schema_add_apply [of _ _ _ a b t "v_db v"]) (simp add: applied_def)

lemma marked: "map_of (ft_apply T) (a, b) = Some (st, t) \<Longrightarrow> map_of (ft_apply (mark_apply a b T)) (a, b) = Some (1, t)"
  by (simp add: mark_apply_def update_conv')

lemma request_marked:
  assumes "friend_schema (e_sql E) D tab"
  shows "map_of (ft_apply (tab (accepted E D a b t (v_db (applied D a b ta v))))) (a, b) = Some (1, ta)"
  using put_apply_alias [of a b ta "tab (v_db v)"]
  by (auto simp: accepted_tables [OF assms] applied_tables [OF assms] marked)

text \<open>
  C4. A friend request and its acceptance make two friends. Two users who are not friends, both known
  and neither of them on another server: after the request of the first with an alias for the second and the
  acceptance of the second with an alias for the first, in any sessions, the request is marked as accepted and the
  list of friends read for each (which a login sends) is the old one and the other, under the alias chosen for them.
\<close>

theorem friendship_lifecycle:
  assumes "services E V D" and "net_order (e_host E)" and "friend_schema (e_sql E) D tab"
    and "add_msg (e_json E) data1 a name ta b" and "auth_msg (e_json E) data2 a b tb"
    and "not_remote E a v" and "not_remote E b v" and "a \<noteq> b"
    and "T = tab (v_db v)" and "ft_user T a = Some ua" and "ft_user T b = Some ub"
    and "map_of (ft_friend T) (a, b) = None" and "map_of (ft_friend T) (b, a) = None"
  shows "\<exists>v' fa fb. computes V D (mseq (addFriendHandler E r1 data1) (authFriendHandler E r2 data2)) v () v' \<and>
    map_of (ft_apply (tab (v_db v'))) (a, b) = Some (1, ta) \<and>
    friends_of (e_sql E) D a (v_db v') = (True, fa) \<and>
    mset fa = add_mset (ub\<lparr>ui_alias_name := ta\<rparr>) (listed_friends a T) \<and>
    friends_of (e_sql E) D b (v_db v') = (True, fb) \<and>
    mset fb = add_mset (ua\<lparr>ui_alias_name := tb\<rparr>) (listed_friends b T)"
proof -
  note S = assms(3)
  let ?v1 = "reply_sent E r1 MSG_ADD_FRIEND_RSP
    (jset ''error'' (jerror SUCCESS) DNull, add_spec E D a name ta b v)"
  let ?v2 = "reply_sent E r2 MSG_AUTH_FRIEND_RSP
    (auth_reply a tb (user_of (e_sql E) D a (v_db ?v1)), auth_spec E D a b tb (based E D a ?v1))"
  let ?d = "v_db (applied D a b ta v)"
  have t: "tab ?d = put_apply a b ta T" using assms(9) by (simp only: applied_tables [OF S])
  have al: "ta = (case map_of (ft_apply (tab ?d)) (a, b) of None \<Rightarrow> [] | Some (_, al) \<Rightarrow> al)"
    using put_apply_alias [of a b ta T] t by auto
  have f: "map_of (ft_friend (tab ?d)) (a, b) = None" "map_of (ft_friend (tab ?d)) (b, a) = None"
    "ft_user (tab ?d) a = Some ua" "ft_user (tab ?d) b = Some ub"
    using t assms(10-13) by simp_all
  note lists = accepted_lists [where t = tb, OF S assms(8) f al]
  have "not_remote E a ?v1" using assms(6) by (simp add: not_remote_def)
  from computes_mseq [OF add_friend_run [OF assms(1,2,4,7)] auth_friend_run [OF assms(1,2,5) this]]
  have c: "computes V D (mseq (addFriendHandler E r1 data1) (authFriendHandler E r2 data2)) v () ?v2" .
  obtain fa fb where fs:
    "friends_of (e_sql E) D a (v_db ?v2) = (True, fa)" "mset fa = listed_friends a (tab (v_db ?v2))"
    "friends_of (e_sql E) D b (v_db ?v2) = (True, fb)" "mset fb = listed_friends b (tab (v_db ?v2))"
    using friends_of_listed [OF S] by metis
  have d: "v_db ?v2 = accepted E D a b tb ?d" by simp
  show ?thesis
    using c fs lists t request_marked [OF S, of a b tb ta v] unfolding d
    by (intro exI [of _ ?v2] exI [of _ fa] exI [of _ fb]) (simp add: listed_mark)
qed

text \<open>
  C11. Nobody checks that there was a request. An acceptance sent in any session, logged in or not, that
  names two users makes them friends although no request was ever made: each is in the other's list
  afterwards, one of them under an empty alias.
\<close>

theorem acceptance_without_request:
  assumes "services E V D" and "net_order (e_host E)" and "friend_schema (e_sql E) D tab"
    and "auth_msg (e_json E) data a b tb" and "not_remote E a v" and "a \<noteq> b"
    and "T = tab (v_db v)" and "ft_user T a = Some ua" and "ft_user T b = Some ub"
    and "map_of (ft_friend T) (a, b) = None" and "map_of (ft_friend T) (b, a) = None"
    and "map_of (ft_apply T) (a, b) = None"
  shows "\<exists>v' fa fb. computes V D (authFriendHandler E ref data) v () v' \<and>
    friends_of (e_sql E) D a (v_db v') = (True, fa) \<and>
    mset fa = add_mset (ub\<lparr>ui_alias_name := []\<rparr>) (listed_friends a T) \<and>
    friends_of (e_sql E) D b (v_db v') = (True, fb) \<and>
    mset fb = add_mset (ua\<lparr>ui_alias_name := tb\<rparr>) (listed_friends b T)"
proof -
  note S = assms(3)
  let ?v = "reply_sent E ref MSG_AUTH_FRIEND_RSP
    (auth_reply a tb (user_of (e_sql E) D a (v_db v)), auth_spec E D a b tb (based E D a v))"
  have f: "map_of (ft_friend (tab (v_db v))) (a, b) = None" "map_of (ft_friend (tab (v_db v))) (b, a) = None"
    "ft_user (tab (v_db v)) a = Some ua" "ft_user (tab (v_db v)) b = Some ub"
    "[] = (case map_of (ft_apply (tab (v_db v))) (a, b) of None \<Rightarrow> [] | Some (_, al) \<Rightarrow> al)"
    using assms(7-12) by simp_all
  note lists = accepted_lists [where t = tb, OF S assms(6) f]
  obtain fa fb where fs:
    "friends_of (e_sql E) D a (v_db ?v) = (True, fa)" "mset fa = listed_friends a (tab (v_db ?v))"
    "friends_of (e_sql E) D b (v_db ?v) = (True, fb)" "mset fb = listed_friends b (tab (v_db ?v))"
    using friends_of_listed [OF S] by metis
  have d: "v_db ?v = accepted E D a b tb (v_db v)" by simp
  show ?thesis
    using auth_friend_run [OF assms(1,2,4,5), of ref] fs lists assms(7) unfolding d
    by (intro exI [of _ ?v] exI [of _ fa] exI [of _ fb]) simp
qed

end
