(* ===== verification/WitnessesFriends.thy ===== *)
theory WitnessesFriends
  imports DemoServer Friendship
begin

text \<open>
  A server over a database whose tables change, and the properties of friend requests and acceptances at one
  concrete input: user 1 asks user 2, who accepts, or who is taken for having been asked.
\<close>

section \<open>A database with tables\<close>

record tables_ext = demo_ext +
  tx_tables :: friend_tables

definition tables_redis :: "tables_ext redis_api" where
  "tables_redis =
    \<lparr>r_connect = (\<lambda>host port x. (Some (7, False), x)),
     r_command = (\<lambda>c call x. case demo_command c call (demo_ext.truncate x) of
       (r, y) \<Rightarrow> (r, x\<lparr>dx_kv := dx_kv y, dx_hkv := dx_hkv y\<rparr>))\<rparr>"

definition tables_view :: "tables_ext redis_view" where
  "tables_view = \<lparr>kv = dx_kv, hkv = (\<lambda>x. held_hash (demo_ext.truncate x))\<rparr>"

definition bob_row :: demo_row where
  "bob_row =
    [(''uid'', SqlInt 2), (''pwd'', SqlString ''b''), (''email'', SqlString ''f''),
     (''name'', SqlString ''bob''), (''nick'', SqlString ''bobo''), (''desc'', SqlString []),
     (''sex'', SqlInt 1), (''icon'', SqlString [])]"

definition bob :: UserInfo where
  "bob = \<lparr>ui_name = ''bob'', ui_pwd = ''b'', ui_uid = 2, ui_email = ''f'', ui_nick = ''bobo'',
    ui_desc = [], ui_sex = 1, ui_icon = [], ui_back = [], ui_alias_name = []\<rparr>"

fun alias_rows :: "(int32 \<times> string) option \<Rightarrow> demo_row list" where
  "alias_rows None = []"
| "alias_rows (Some (st, t)) = [[(''alias_name'', SqlString t)]]"

definition tables_query :: "string \<Rightarrow> sql_arg list \<Rightarrow> friend_tables \<Rightarrow> demo_row list" where
  "tables_query stmt args T = (case args of
      [SqlInt a] \<Rightarrow>
        if stmt = user_stmt then (if a = 1 then [alice_row] else if a = 2 then [bob_row] else [])
        else map (\<lambda>(f, t). [(''friend_id'', SqlInt f), (''alias_name'', SqlString t)]) (rows_of a T)
    | [SqlInt a, SqlInt b] \<Rightarrow> alias_rows (map_of (ft_apply T) (a, b))
    | _ \<Rightarrow> [])"

definition tables_update :: "string \<Rightarrow> sql_arg list \<Rightarrow> friend_tables \<Rightarrow> friend_tables" where
  "tables_update stmt args T = (case args of
      [SqlInt a, SqlInt b] \<Rightarrow> mark_apply a b T
    | [SqlInt a, SqlInt b, SqlString t] \<Rightarrow>
        if stmt = insert_friend_stmt then put_friend a b t T else put_apply a b t T
    | _ \<Rightarrow> T)"

definition tables_sql :: "(tables_ext, demo_row) sql_api" where
  "tables_sql =
    \<lparr>s_connect = (\<lambda>url user pass x. (Some 9, x)), s_set_schema = (\<lambda>c schema x. (True, x)),
     s_now = (\<lambda>x. (100, x)), s_query = (\<lambda>c stmt args x. (Some (tables_query stmt args (tx_tables x)), x)),
     s_update = (\<lambda>c stmt args x. (Some 1, x\<lparr>tx_tables := tables_update stmt args (tx_tables x)\<rparr>)),
     s_int = s_int demo_sql, s_str = s_str demo_sql\<rparr>"

definition tables_db :: "(tables_ext, demo_row, friend_tables) db_view" where
  "tables_db =
    \<lparr>db_of = tx_tables, db_query = (\<lambda>stmt args T. Some (tables_query stmt args T)),
     db_update = (\<lambda>stmt args T. (Some 1, tables_update stmt args T))\<rparr>"

definition known_users :: "friend_tables \<Rightarrow> friend_tables" where
  "known_users T = T\<lparr>ft_user := [1 \<mapsto> alice, 2 \<mapsto> bob]\<rparr>"

section \<open>The hypotheses hold\<close>

lemma tables_redis_serves: "redis_serves tables_redis tables_view"
  unfolding redis_serves_def
  by (intro conjI allI) (auto simp: tables_redis_def tables_view_def bulk_def wrong_kind_def held_hash_def demo_ext.truncate_def
      fun_eq_iff split: option.splits)

lemma rows_of_known [simp]: "rows_of a (known_users T) = rows_of a T"
  by (simp add: known_users_def rows_of_def)

lemma known_users_updates:
  "known_users (put_apply a b t T) = put_apply a b t (known_users T)"
  "known_users (mark_apply a b T) = mark_apply a b (known_users T)"
  "known_users (put_friend a b t T) = put_friend a b t (known_users T)"
  by (simp_all add: known_users_def put_apply_def mark_apply_def put_friend_def
      split: option.splits prod.splits)

lemma insert_is_no_request: "add_apply_stmt \<noteq> insert_friend_stmt"
  by (simp add: insert_friend_stmt_def)

lemma friends_are_no_users: "''SELECT * FROM friend WHERE self_id = ?'' \<noteq> user_stmt"
  by simp

lemma tables_columns: "s_int tables_sql [(''friend_id'', SqlInt f), (''alias_name'', SqlString t)] ''friend_id'' = Some f"
  "s_str tables_sql [(''friend_id'', SqlInt f), (''alias_name'', SqlString t)] ''alias_name'' = Some t"
  "s_str tables_sql [(''alias_name'', SqlString t)] ''alias_name'' = Some t"
  by (simp_all add: tables_sql_def demo_sql_def)

lemma tables_users: "user_of tables_sql tables_db a T = ft_user (known_users T) a"
  by (simp add: user_of_def tables_db_def tables_query_def result_user_def row_user_def tables_sql_def
      demo_sql_def alice_row_def bob_row_def known_users_def alice_def bob_def)

lemma tables_friend_schema: "friend_schema tables_sql tables_db known_users"
  unfolding friend_schema_def
proof (intro conjI allI)
  fix a b t d
  show "\<exists>n d'. db_update tables_db add_apply_stmt [SqlInt a, SqlInt b, SqlString t] d = (Some n, d') \<and>
      known_users d' = put_apply a b t (known_users d)"
    using insert_is_no_request by (simp add: tables_db_def tables_update_def known_users_updates del: append.simps)
  show "\<exists>n d'. db_update tables_db insert_friend_stmt [SqlInt a, SqlInt b, SqlString t] d = (Some n, d') \<and>
      known_users d' = put_friend a b t (known_users d)"
    by (simp add: tables_db_def tables_update_def known_users_updates)
  show "\<exists>n d'. db_update tables_db auth_apply_stmt [SqlInt a, SqlInt b] d = (Some n, d') \<and>
      known_users d' = mark_apply a b (known_users d)"
    by (simp add: tables_db_def tables_update_def known_users_updates)
  show "\<exists>rows. db_query tables_db apply_alias_stmt [SqlInt a, SqlInt b] d = Some rows \<and>
      map (\<lambda>r. s_str tables_sql r ''alias_name'') rows =
        (case map_of (ft_apply (known_users d)) (a, b) of None \<Rightarrow> [] | Some (_, t) \<Rightarrow> [Some t])"
    by (cases "map_of (ft_apply d) (a, b)")
      (auto simp: tables_db_def tables_query_def known_users_def tables_columns)
  show "\<exists>rows. db_query tables_db ''SELECT * FROM friend WHERE self_id = ?'' [SqlInt a] d = Some rows \<and>
      mset (map (\<lambda>r. (s_int tables_sql r ''friend_id'', s_str tables_sql r ''alias_name'')) rows) =
        mset (map (\<lambda>(f, t). (Some f, Some t)) (rows_of a (known_users d)))"
    using friends_are_no_users
    by (simp add: tables_db_def tables_query_def o_def case_prod_unfold tables_columns
        multiset.map_comp)
  show "user_of tables_sql tables_db a d = ft_user (known_users d) a" by (rule tables_users)
qed

definition tables_env :: "(tables_ext, demo_row, jval) env" where
  "tables_env = \<lparr>e_redis = tables_redis, e_sql = tables_sql, e_json = server_json,
    e_rpc = \<lparr>rpc_add = (\<lambda>c q r x. ((False, r), x)), rpc_auth = (\<lambda>c q r x. ((False, r), x)),
      rpc_text = (\<lambda>c q r x. ((False, r), x)), rpc_chat_server = (\<lambda>c q r x. ((False, r), x)),
      rpc_login = (\<lambda>c q r x. ((False, r), x))\<rparr>,
    e_close = (\<lambda>x. (True, x)), e_cfg = demo_cfg, e_host = demo_host, e_nrvo = True\<rparr>"

lemma tables_services: "services tables_env tables_view tables_db"
  using tables_redis_serves
  by (simp add: services_def tables_env_def)
    (simp add: tables_redis_def tables_sql_def tables_db_def tables_view_def case_prod_unfold
      held_hash_def fun_eq_iff demo_ext.truncate_def)

definition tables_world :: "tables_ext world" where
  "tables_world =
    \<lparr>w_ext = \<lparr>dx_kv = [''uip_1'' \<mapsto> ''s1''], dx_hkv = (\<lambda>_. Map.empty), dx_users = (\<lambda>_. []),
       dx_friends = (\<lambda>_. []), tx_tables = \<lparr>ft_user = Map.empty, ft_apply = [], ft_friend = []\<rparr>\<rparr>,
     w_redis = demo_pool, w_mysql = demo_mysql, w_users = [1 \<mapsto> 3],
     w_sess = (\<lambda>_. demo_session), w_sessions = [''a'' \<mapsto> 1], w_accepting = Some 2,
     w_peers = Map.empty, w_msg_que = []\<rparr>"

abbreviation "tables_v \<equiv> view_of tables_view tables_db tables_world"

lemma tables_run:
  assumes "computes tables_view tables_db f tables_v a v'"
  shows "\<exists>w'. f tables_world = Ret a w' \<and> view_of tables_view tables_db w' = v'"
proof -
  have "ready tables_world"
    using demo_pool_ready by (simp add: ready_def tables_world_def demo_mysql_def)
  with assms show ?thesis by (auto simp: computes_def)
qed

lemma tables_net: "net_order (e_host tables_env)"
  using net_order_demo by (simp add: tables_env_def)

lemma tables_schema: "friend_schema (e_sql tables_env) tables_db known_users"
  using tables_friend_schema by (simp add: tables_env_def)

lemma tables_messages: "add_msg (e_json tables_env) ''add'' 1 ''alice'' ''bobby'' 2"
  "auth_msg (e_json tables_env) ''auth'' 1 2 ''ally''"
  using server_messages(2,3) by (simp_all add: tables_env_def server_env_def)

lemma tables_local: "not_remote tables_env 1 tables_v" "not_remote tables_env 2 tables_v"
  by (simp_all add: not_remote_def home_of_def view_of_def tables_world_def tables_view_def show_one
      prefix_defs cstr_def self_name_def tables_env_def demo_cfg_def cfg_get_def config_at_def section_at_def)

lemma tables_start:
  "known_users (v_db tables_v) = \<lparr>ft_user = [1 \<mapsto> alice, 2 \<mapsto> bob], ft_apply = [], ft_friend = []\<rparr>"
  by (simp add: known_users_def view_of_def tables_world_def tables_db_def)

section \<open>The properties\<close>

lemma friendship_lifecycle_witness:
  "\<exists>w' fs. mseq (addFriendHandler tables_env 1 ''add'') (authFriendHandler tables_env 2 ''auth'')
      tables_world = Ret () w' \<and>
    friends_of tables_sql tables_db 1 (tx_tables (w_ext w')) = (True, fs) \<and>
    mset fs = {#bob\<lparr>ui_alias_name := ''bobby''\<rparr>#}"
proof -
  from friendship_lifecycle [OF tables_services tables_net tables_schema tables_messages tables_local
      _ refl, of alice bob 1 2]
  obtain v' fa where c: "computes tables_view tables_db
      (mseq (addFriendHandler tables_env 1 ''add'') (authFriendHandler tables_env 2 ''auth'')) tables_v () v'"
    and f: "friends_of tables_sql tables_db 1 (v_db v') = (True, fa)"
      "mset fa = {#bob\<lparr>ui_alias_name := ''bobby''\<rparr>#}"
    by (auto simp: tables_start listed_friends_def rows_of_def map_filter_simps tables_env_def)
  from tables_run [OF c] f show ?thesis by (auto simp: view_of_def tables_db_def)
qed

lemma acceptance_without_request_witness:
  "\<exists>w' fs. authFriendHandler tables_env 2 ''auth'' tables_world = Ret () w' \<and>
    friends_of tables_sql tables_db 1 (tx_tables (w_ext w')) = (True, fs) \<and>
    mset fs = {#bob\<lparr>ui_alias_name := []\<rparr>#}"
proof -
  from acceptance_without_request [OF tables_services tables_net tables_schema tables_messages(2)
      tables_local(1) _ refl, of alice bob 2]
  obtain v' fa where c: "computes tables_view tables_db (authFriendHandler tables_env 2 ''auth'') tables_v () v'"
    and f: "friends_of tables_sql tables_db 1 (v_db v') = (True, fa)"
      "mset fa = {#bob\<lparr>ui_alias_name := []\<rparr>#}"
    by (auto simp: tables_start listed_friends_def rows_of_def map_filter_simps tables_env_def)
  from tables_run [OF c] f show ?thesis by (auto simp: view_of_def tables_db_def)
qed

end
