(* ===== verification/Singletons.thy ===== *)
theory Singletons
  imports Prelude
begin

text \<open>
  \<open>src/common/Singleton.h\<close>: an instance is a function-local static. It is constructed at the first
  \<open>getInstance\<close> of its class, after the instances its own constructor asks for, and the instances are
  destroyed at exit in the reverse order of their construction.
\<close>

datatype singleton = S_ConfigMgr | S_AsioIOServicePool | S_RedisMgr | S_LogicSystem | S_MySqlMgr
  | S_UserMgr | S_ChatGrpcClient | S_StatusGrpcClient

text \<open>The instances a constructor asks for (\<open>ConfigMgr\<close> asks for none).\<close>

fun ctor_uses :: "singleton \<Rightarrow> singleton list" where
  "ctor_uses S_RedisMgr = [S_ConfigMgr]"
| "ctor_uses S_MySqlMgr = [S_ConfigMgr]"
| "ctor_uses S_ChatGrpcClient = [S_ConfigMgr]"
| "ctor_uses S_StatusGrpcClient = [S_ConfigMgr]"
| "ctor_uses _ = []"

text \<open>The instances alive, in the order of their construction.\<close>

definition construct :: "singleton \<Rightarrow> singleton list \<Rightarrow> singleton list" where
  "construct T live = (if T \<in> set live then live else live @ [T])"

definition getInstance :: "singleton \<Rightarrow> singleton list \<Rightarrow> singleton list" where
  "getInstance T live = (if T \<in> set live then live else construct T (fold construct (ctor_uses T) live))"

definition exit_order :: "singleton list \<Rightarrow> singleton list" where
  "exit_order live = rev live"

text \<open>\<open>T\<close> is destroyed before \<open>U\<close> at exit.\<close>

definition destroyed_before :: "singleton \<Rightarrow> singleton \<Rightarrow> singleton list \<Rightarrow> bool" where
  "destroyed_before T U live \<longleftrightarrow> (\<exists>a b c. exit_order live = a @ T # b @ U # c)"

lemma construct_prefix: "\<exists>xs. construct T live = live @ xs"
  by (simp add: construct_def)

lemma fold_construct_prefix: "\<exists>xs. fold construct Ts live = live @ xs"
proof (induction Ts arbitrary: live)
  case (Cons T Ts)
  obtain xs where "construct T live = live @ xs" using construct_prefix by blast
  with Cons [of "live @ xs"] show ?case by auto
qed simp

lemma getInstance_prefix: "\<exists>xs. getInstance T live = live @ xs"
  using fold_construct_prefix [of "ctor_uses T" live] construct_prefix
  by (auto simp: getInstance_def) (metis append_assoc construct_prefix)

lemma uses_prefix: "\<exists>xs. fold getInstance Ts live = live @ xs"
proof (induction Ts arbitrary: live)
  case (Cons T Ts)
  obtain xs where "getInstance T live = live @ xs" using getInstance_prefix by blast
  with Cons [of "live @ xs"] show ?case by auto
qed simp

lemma getInstance_alive: "T \<in> set (getInstance T live)"
  by (simp add: getInstance_def construct_def)

text \<open>
  An instance that is alive when another one is asked for the first time outlives it: at exit the
  later one is destroyed first. So a database or a registry that is first used by a handler, after the
  logic system was constructed to post the message, is gone when the logic system's destructor drains
  its queue with the same handlers.
\<close>

theorem later_instance_dies_first:
  assumes "T \<in> set live" and "U \<notin> set live" and "U \<in> set uses"
  shows "destroyed_before U T (fold getInstance uses live)"
proof -
  obtain xs where xs: "fold getInstance uses live = live @ xs" using uses_prefix by blast
  have "U \<in> set (fold getInstance uses live)"
    using assms(3)
  proof (induction uses arbitrary: live)
    case (Cons V uses)
    obtain ys where "fold getInstance uses (getInstance V live) = getInstance V live @ ys"
      using uses_prefix by blast
    with Cons(1) [of "getInstance V live"] Cons(2) getInstance_alive [of V live] show ?case by auto
  qed simp
  with xs assms(2) have "U \<in> set xs" by auto
  then obtain p q where p: "xs = p @ U # q" by (auto dest: split_list)
  from assms(1) obtain a b where "live = a @ T # b" by (auto dest: split_list)
  with xs p have "exit_order (fold getInstance uses live) = rev q @ U # (rev p @ rev b) @ T # rev a"
    by (simp add: exit_order_def)
  then show ?thesis unfolding destroyed_before_def by blast
qed

text \<open>What \<open>main\<close> asks for before its loop, what a post does, and a handled login.\<close>

definition main_uses :: "singleton list" where
  "main_uses = [S_ConfigMgr, S_AsioIOServicePool, S_RedisMgr, S_AsioIOServicePool]"

definition post_uses :: "singleton list" where
  "post_uses = [S_LogicSystem]"

definition login_uses :: "singleton list" where
  "login_uses = [S_RedisMgr, S_MySqlMgr, S_ConfigMgr, S_RedisMgr, S_UserMgr]"

lemma later_instance_dies_first_witness:
  "destroyed_before S_MySqlMgr S_LogicSystem (fold getInstance login_uses (fold getInstance post_uses (fold getInstance main_uses [])))"
  by (rule later_instance_dies_first)
    (simp_all add: main_uses_def post_uses_def login_uses_def getInstance_def construct_def)

end
