(* ===== verification/Spec2Isabelle.thy ===== *)
theory Spec2Isabelle
  imports Witnesses WitnessesServer WitnessesSystem WitnessesFriends Singletons
begin

text \<open>
  A model of ChatServer2, the chat server of an instant messaging system, and the theorems that say
  what it does. All paths are below \<open>src/src/\<close>.

  THE PROGRAM. Clients open TCP connections; each is a session (\<open>net/CSession\<close>), accepted by
  \<open>net/CServer\<close>. A packet has a header of two shorts in network byte order, message id and body
  length, and a JSON text as body (\<open>net/MsgNode\<close>). A session reads header and body in turn and posts
  a received message to the queue of \<open>application/LogicSystem\<close>, whose single worker thread runs the
  handler of its id: login, search for a user, friend request, acceptance, chat message. Handlers use
  Redis (who is logged in where, cached user records, login counters; \<open>infra/redis\<close>) and MySQL (users,
  applications, friends; \<open>infra/mysql\<close>) through pools of connections, the table of local users
  (\<open>application/UserMgr\<close>), and, for users of another server, its RPC service (\<open>infra/grpc\<close> calls,
  \<open>application/ChatServiceImpl\<close> serves). \<open>app/ChatServer.cpp\<close> is \<open>main\<close>.

  HOW IT IS MODELLED. A piece of C++ is a function from a state to an outcome and a state
  (\<open>('a, 's) m\<close> of Prelude): a value, a thrown exception, a thread that waits on a condition
  variable, \<open>std::terminate\<close>, or undefined behaviour. Every throw, early return, out-of-range access and null
  dereference of the sources is a branch. \<open>short\<close> and \<open>int\<close> are words of 16 and 32 bits, byte buffers
  are strings. A section of code under a mutex is one step of the thread that holds it; the
  interleavings of such sections are the step relations of Worker and PoolThreads.

  THE THEORIES, bottom up, with the code they translate:

    Prelude        outcomes, state passing, the part of the C++ library the sources use
    Domain         \<open>domain/const.h\<close>, \<open>domain/data.h\<close>, the messages of \<open>proto/message.proto\<close>
    Utils          \<open>common/utils\<close>: \<open>urlEncode\<close>, \<open>urlDecode\<close>, the scope guard \<open>Defer\<close>
    JsonLib        the interface of the JSON library (a parameter) and the documents the server builds
    ConfigMgr      \<open>infra/config/ConfigMgr\<close>
    ConnPool       the contract of the four connection pools (locale \<open>conn_pool\<close>), borrowing for a scope
    RedisConPool   \<open>infra/redis/RedisConPool\<close>: the pool with its health check and reconnection
    RedisMgr       \<open>infra/redis/RedisMgr\<close>: the Redis commands and every reply they accept
    MySqlPool      \<open>infra/mysql/MySqlPool\<close>: the pool with its keep-alive
    MySqlDao       \<open>infra/mysql/MySqlDao\<close>, \<open>MySqlMgr\<close>: every statement, row and exception
    GrpcPools      \<open>infra/grpc/ChatConPool\<close>, \<open>StatusConPool\<close>
    GrpcClients    \<open>infra/grpc/ChatGrpcClient\<close>, \<open>StatusGrpcClient\<close>
    UserMgr        \<open>application/UserMgr\<close>, with the locale \<open>registry\<close> it shares with the session table
    MsgNode        \<open>net/MsgNode\<close>: buffers and packet format
    CSession       \<open>net/CSession\<close>: state and sending side
    World          the state of one process: pools, users, sessions, queue, and the outside (\<open>env\<close>)
    SessionIO      \<open>net/CSession\<close>: receiving and closing; \<open>net/CServer\<close>
    LogicSystem    \<open>application/LogicSystem\<close>: the handlers, the dispatch, the worker's loop
    ChatService    \<open>application/ChatServiceImpl\<close>
    ChatServer     \<open>net/AsioIOServicePool\<close>, \<open>app/ChatServer.cpp\<close>
    Worker         the worker, the posters and \<open>~LogicSystem\<close> as threads
    PoolThreads    waiting, returning, reconnecting and closing in the Redis and MySQL pools as threads
    Singletons     \<open>common/Singleton.h\<close>: order of construction and destruction

  and the theories of properties:

    SessionFraming  a stream of packets, cut in any way, is posted as its messages
    ServerView      the abstract state (\<open>view\<close>) of a server: Redis keys, database, users, sessions;
                    \<open>computes V D f v r v'\<close> says that the code \<open>f\<close> returns \<open>r\<close> and takes the view \<open>v\<close> to \<open>v'\<close>
    ServerOps       each Redis command and database operation as a function of the view
    LoginSpec, ChatSpec, FriendSpec   the handlers against their specifications (\<open>login_spec\<close>,
                    \<open>closed\<close>, \<open>chat_spec\<close>, \<open>add_spec\<close>, \<open>auth_spec\<close>), on every branch
    Friendship      what requests and acceptances do to the tables, and to the friend lists
    Dispatch        the worker's loop is the handlers in the order of the queue
    EndToEnd        bytes in, bytes out; bad packets, lost connections
    CrossServer     two servers joined by RPC: chat messages, requests and acceptances reach the other side
    MainSpec        start and end of the process
    Demo, DemoServer, Witnesses, WitnessesServer, WitnessesSystem, WitnessesFriends   a concrete world, and each property
                    with hypotheses applied in it

  CORRESPONDENCE OF THE STATE. The fields of a record carry a prefix and else the name of the code's
  member: \<open>cs_\<close> for \<open>CSession\<close>, \<open>rp_\<close>, \<open>mp_\<close>, \<open>cp_\<close>, \<open>sp_\<close>
  for the pools, \<open>w_\<close> for the process. Sessions are
  known by a number that stands for the shared pointer; \<open>um_\<close> operations map users to them, \<open>sv_\<close>
  operations the session ids. A read or write under way is recorded in the session (\<open>cs_read\<close>,
  \<open>cs_writing\<close>) and its completion is the call of the handler the code registered, with the byte count
  or the error as argument: that is the whole of the asynchronous interface.

  WHAT THE THEOREMS SHOW. The main line: the handlers refine their specifications (LoginSpec,
  ChatSpec, FriendSpec), packets arrive as posted (SessionFraming), the worker
  runs them in order (Dispatch), replies leave in order (CSession), and so a login goes from bytes to bytes (EndToEnd) and a
  chat message from one server to a user of another (CrossServer). The login counter is exact in
  every sequence of logins and closes that do not overlap, with one login for each session between closes; an
  overlap makes it wrong, because the code reads and writes it back without a lock (LoginSpec). No posted message
  is lost under any interleaving, and as long as the worker has not finished it can get to the front message (Worker). The pools give every connection back
  whatever the database answers, and the thread model of PoolThreads takes the steps of the pools' code: each
  section under the mutex (\<open>rp_return_section\<close> and the like) is a change of the queue and the notification it
  makes. Where the code goes wrong, the theorem states what it does:
  a packet that ends the process, a deadlock on closing, a reply that is lost, a session
  that is dropped and not closed.

  PARAMETERS. \<open>env\<close> gathers what is outside the repository: the Redis library and server (\<open>redis_api\<close>), the
  MySQL connector and server (\<open>sql_api\<close>), jsoncpp (\<open>json_api\<close>), the RPC transport and peers (\<open>rpc_api\<close>),
  the byte order of the host, the configuration file, and for \<open>main\<close> the acceptor, the RPC server and
  its \<open>Wait\<close>, and the event loop (\<open>main_api\<close>). What is relied on is a named hypothesis: \<open>redis_serves\<close>
  (SET, GET, HSET, HGET and HDEL as documented: a key holds a string or a hash, a command for the other kind is
  answered with an error, SET overwrites both), \<open>services\<close> (a running database and Redis behind pools with two
  connections), \<open>net_order\<close> (the host's conversions are to and from big endian), \<open>friend_schema\<close> (the SQL
  statements mean what SQL says), \<open>carries_text\<close> (RPC carries the fields of a message).

  BOUNDS AND FUEL. A packet body is at most 2048 bytes, an id at most 2048, a send queue 1000 packets; a length
  at or above 32768 is negative as a \<open>short\<close>. All are the code's constants. \<open>deal_queue\<close> takes at most so many turns and says whether it came to
  the end of the queue; \<open>dealMsg\<close> gives it the length of the queue, and a loop that is not over then would not
  come back (\<open>Blocked\<close>). That it is over, after exactly that many turns, is \<open>deal_queue_bound\<close>: no handler posts
  a message and every message is taken off. \<open>feed\<close> runs over the list of the sizes the network delivers, which is finite
  for a finite stream. No other definition has fuel.

  NOT MODELLED. The boost.asio sockets and event loops, the gRPC transport, hiredis, the MySQL connector
  and jsoncpp: they are parameters. Logging and \<open>Singleton::printAddress\<close>: output without effect on
  the state. The creation of threads: a thread is there from its first step on. Allocation failure.
  The memory model: \<open>_b_stop\<close> flags that are read without a lock are read as if accesses were sequentially
  consistent (the race is among the findings). The send queue is used by several threads under its mutex; each
  \<open>send\<close> and \<open>handleWrite\<close> is one step. \<open>GetChatServer\<close> and \<open>Login\<close> of the status server are called,
  not served, by this program. \<open>dealMsg\<close> is the worker until the queue is empty; how it waits and is stopped
  is in Worker. A handler runs as a whole between two steps of other threads, with one exception:
  \<open>login_across_close\<close> is a login overtaken by a close on an I/O thread.
  For the functions of the Redis pool the place of the check thread is the field \<open>rp_in_check\<close>, set while the
  thread may still need the mutex: \<open>rp_close\<close>, and with it \<open>main\<close>, hangs then; the theory PoolThreads has
  the two threads.

  PLAN. Next: sends of several threads on one session as a step relation with the mutex; the lifetime of a
  session under its shared pointers; the Redis pool's health check interleaved with commands;
  handlers interleaved with closes at each of their Redis commands.
\<close>

end
